(* ===== verification/Atomics_Prelude.thy ===== *)
theory Atomics_Prelude
  imports Main "HOL-Library.Word"
begin

text \<open>
  Shared vocabulary of the development: the C integer types of
  \<^verbatim>\<open>atomics.c\<close> as machine words, the byte-addressed memory the pointers of the
  builtins point into, the result type of a C call that may fail to return, and the
  fact collections the component theories fill. Generic lemmas on options and on
  iterated functions that several components use are proved here once.
\<close>

unbundle bit_operations_syntax

section \<open>Fact collections\<close>

named_theorems sync_diverges
  "one fact per builtin of atomics.c: the call returns nothing, whatever its arguments"
named_theorems contract_simps
  "defining equations of the contract of the atomic operations"
named_theorems mem_simps
  "reads and writes of the byte-addressed memory"

section \<open>C types\<close>

text \<open>
  \<^verbatim>\<open>stdint.h\<close>'s exact-width types are words of that width: addition and subtraction
  wrap around and the bit operations work bitwise, as on the two's complement values of
  C; \<open>sint\<close> reads the signed value. Pointers are the 32-bit addresses of the ESP32.
\<close>

type_synonym byte = "8 word"
type_synonym int8_t = "8 word"
type_synonym int16_t = "16 word"
type_synonym int32_t = "32 word"
type_synonym int64_t = "64 word"
type_synonym addr = "32 word"

text \<open>Memory is byte addressed; a call takes the memory and, when it returns, hands back
  its result with the memory it leaves behind. \<open>None\<close> is a call that never returns.\<close>

type_synonym memory = "addr \<Rightarrow> byte"
type_synonym 'a c_call = "memory \<Rightarrow> ('a \<times> memory) option"

section \<open>Options\<close>

lemma never_Some_None: "(\<And>y. x = Some y \<Longrightarrow> False) \<Longrightarrow> x = None"
  by (cases x) auto

end
