(* ===== verification/Memory.thy ===== *)
theory Memory
  imports Atomics_Prelude
begin

text \<open>
  The memory the pointers of the builtins point into: a function from addresses to
  bytes, read and written in units of 1, 2, 4 or 8 bytes. A value of \<open>N\<close> bytes at
  address \<open>p\<close> occupies \<open>p, p + 1, \<dots>, p + N - 1\<close> (address arithmetic wraps around at
  \<open>2 ^ 32\<close>), least significant byte first, as on the little-endian ESP32.
  \<open>load\<close> and \<open>store\<close> are generic in the width of the word; the lemmas give the byte
  written to each address, the round trip of a store followed by a load, the frame
  of a store, and how words of different widths overlap. \<^verbatim>\<open>atomics.c\<close> itself
  contains no memory access: this theory serves the contract of the operations and the
  machine that runs the file.
\<close>

unbundle bit_operations_syntax

section \<open>Byte sequences in memory\<close>

primrec load_bytes :: "memory \<Rightarrow> addr \<Rightarrow> nat \<Rightarrow> byte list" where
  "load_bytes m p 0 = []"
| "load_bytes m p (Suc n) = m p # load_bytes m (p + 1) n"

primrec store_bytes :: "memory \<Rightarrow> addr \<Rightarrow> byte list \<Rightarrow> memory" where
  "store_bytes m p [] = m"
| "store_bytes m p (b # bs) = store_bytes (m(p := b)) (p + 1) bs"

section \<open>Words as little-endian byte sequences\<close>

definition word_bytes :: "'a::len word \<Rightarrow> byte list" where
  "word_bytes w = map (\<lambda>i. ucast (drop_bit (8 * i) w)) [0..<LENGTH('a) div 8]"

definition bytes_word :: "byte list \<Rightarrow> 'a::len word" where
  "bytes_word bs = word_of_int (horner_sum uint (2 ^ 8) bs)"

definition load :: "memory \<Rightarrow> addr \<Rightarrow> 'a::len word" where
  "load m p = bytes_word (load_bytes m p (LENGTH('a) div 8))"

definition store :: "memory \<Rightarrow> addr \<Rightarrow> 'a::len word \<Rightarrow> memory" where
  "store m p w = store_bytes m p (word_bytes w)"

text \<open>The addresses a value of \<open>n\<close> bytes at \<open>p\<close> occupies, and two such ranges having
  no address in common.\<close>

definition in_range :: "addr \<Rightarrow> nat \<Rightarrow> addr \<Rightarrow> bool" where
  "in_range p n a \<longleftrightarrow> unat (a - p) < n"

definition separate :: "addr \<Rightarrow> nat \<Rightarrow> addr \<Rightarrow> nat \<Rightarrow> bool" where
  "separate p n q k \<longleftrightarrow> (\<forall>i < k. \<not> in_range p n (q + of_nat i))"

section \<open>Reading and writing byte sequences\<close>

lemma length_load_bytes [simp]: "length (load_bytes m p n) = n"
  by (induction n arbitrary: p) auto

lemma length_word_bytes [simp]: "length (word_bytes (w::'a::len word)) = LENGTH('a) div 8"
  by (simp add: word_bytes_def)

lemma nth_load_bytes [mem_simps]: "i < n \<Longrightarrow> load_bytes m p n ! i = m (p + of_nat i)"
proof (induction n arbitrary: p i)
  case 0
  then show ?case by simp
next
  case (Suc n)
  then show ?case by (cases i) (auto simp: add.assoc)
qed

lemma load_bytes_cong:
  "(\<And>i. i < n \<Longrightarrow> m (p + of_nat i) = m' (p + of_nat i)) \<Longrightarrow> load_bytes m p n = load_bytes m' p n"
  by (rule nth_equalityI) (simp_all add: nth_load_bytes)

lemma unat_diff_Suc:
  fixes a p :: addr
  assumes "a \<noteq> p"
  shows "unat (a - p) = Suc (unat (a - (p + 1)))"
proof -
  from assms have "a - p \<noteq> 0" by simp
  then have "unat (a - p) = Suc (unat (a - p - 1))"
    by (simp add: unat_minus_one unat_gt_0)
  then show ?thesis by (simp add: diff_diff_eq)
qed

lemma unat_minus_1_addr: "unat (- 1 :: addr) = 2 ^ 32 - 1"
  by (simp add: unsigned_minus_1_eq_mask mask_eq_exp_minus_1)

text \<open>A sequence of at most \<open>2 ^ 32\<close> bytes never writes an address twice, so the byte
  at an address of the range is the byte of the sequence at that offset.\<close>

lemma store_bytes_apply [mem_simps]:
  "length bs \<le> 2 ^ 32 \<Longrightarrow>
   store_bytes m p bs a = (if in_range p (length bs) a then bs ! unat (a - p) else m a)"
proof (induction bs arbitrary: m p)
  case Nil
  then show ?case by (simp add: in_range_def)
next
  case (Cons b bs)
  show ?case
  proof (cases "a = p")
    case True
    with Cons show ?thesis by (simp add: in_range_def unat_minus_1_addr)
  next
    case False
    with Cons show ?thesis by (simp add: in_range_def unat_diff_Suc)
  qed
qed

lemma load_bytes_store_bytes_same:
  "length bs \<le> 2 ^ 32 \<Longrightarrow> load_bytes (store_bytes m p bs) p (length bs) = bs"
  by (rule nth_equalityI) (simp_all add: nth_load_bytes store_bytes_apply in_range_def unat_of_nat)

section \<open>Encoding and decoding words\<close>

lemma bit_bytes_word_iff:
  "bit (bytes_word bs :: 'a::len word) n \<longleftrightarrow>
     n < LENGTH('a) \<and> n div 8 < length bs \<and> bit (bs ! (n div 8)) (n mod 8)"
  using bit_horner_sum_uint_exp_iff [where ?'a = 8, of bs n]
  by (simp add: bytes_word_def bit_word_of_int_iff)

lemma bytes_word_word_bytes:
  assumes "8 dvd LENGTH('a::len)"
  shows "bytes_word (word_bytes w) = (w :: 'a word)"
proof (rule bit_word_eqI)
  fix n
  assume n: "n < LENGTH('a)"
  with assms have "n div 8 < LENGTH('a) div 8"
    by (auto simp: dvd_def)
  with n show "bit (bytes_word (word_bytes w) :: 'a word) n \<longleftrightarrow> bit w n"
    by (simp add: bit_bytes_word_iff word_bytes_def bit_ucast_iff bit_drop_bit_eq)
qed

text \<open>A bit of a word in memory is a bit of the byte it lies in.\<close>

lemma bit_load:
  "bit (load m p :: 'a::len word) n \<longleftrightarrow>
     n < LENGTH('a) \<and> n div 8 < LENGTH('a) div 8 \<and> bit (m (p + of_nat (n div 8))) (n mod 8)"
  by (auto simp: load_def bit_bytes_word_iff nth_load_bytes)

text \<open>Words of different widths overlap: the upper half of the 32-bit word at \<open>p\<close> is
  the 16-bit word at \<open>p + 2\<close>.\<close>

lemma load_upper_half: "(load m (p + 2) :: int16_t) = ucast (drop_bit 16 (load m p :: int32_t))"
proof (rule bit_word_eqI)
  fix n
  assume "n < LENGTH(16)"
  then have n: "n < 16" by simp
  then have d: "n div 8 < 2" by (simp add: less_mult_imp_div_less)
  have q: "(16 + n) div 8 = n div 8 + 2"
    using div_mult_self1 [of 8 n 2] by (simp add: add.commute)
  have r: "(16 + n) mod 8 = n mod 8"
    using mod_mult_self1 [of n 2 8] by (simp add: add.commute)
  have a: "p + 2 + of_nat (n div 8) = p + of_nat (n div 8 + 2)"
    by simp
  from n d show "bit (load m (p + 2) :: int16_t) n
      \<longleftrightarrow> bit (ucast (drop_bit 16 (load m p :: int32_t)) :: int16_t) n"
    by (simp add: bit_load bit_ucast_iff bit_drop_bit_eq q r a del: of_nat_add)
qed

section \<open>Round trip and frame of \<open>store\<close>\<close>

text \<open>The side conditions hold at every width of the file: \<open>LENGTH('a)\<close> is 8, 16, 32
  or 64, so \<open>simp\<close> discharges them once the type is known.\<close>

lemma store_apply:
  "LENGTH('a::len) div 8 \<le> 2 ^ 32 \<Longrightarrow>
   store m p (w :: 'a word) a =
     (if in_range p (LENGTH('a) div 8) a then word_bytes w ! unat (a - p) else m a)"
  by (simp add: store_def store_bytes_apply)

lemma load_store_same [mem_simps]:
  "8 dvd LENGTH('a::len) \<Longrightarrow> LENGTH('a) div 8 \<le> 2 ^ 32 \<Longrightarrow>
   load (store m p w) p = (w :: 'a word)"
  using load_bytes_store_bytes_same [of "word_bytes w" m p]
  by (simp add: load_def store_def bytes_word_word_bytes)

lemma store_frame [mem_simps]:
  "LENGTH('a::len) div 8 \<le> 2 ^ 32 \<Longrightarrow> \<not> in_range p (LENGTH('a) div 8) a \<Longrightarrow>
   store m p (w :: 'a word) a = m a"
  by (simp add: store_apply)

lemma load_store_separate [mem_simps]:
  fixes w :: "'a::len word"
  assumes "LENGTH('a) div 8 \<le> 2 ^ 32"
    and "separate p (LENGTH('a) div 8) q (LENGTH('b::len) div 8)"
  shows "(load (store m p w) q :: 'b word) = load m q"
proof -
  have "load_bytes (store m p w) q (LENGTH('b) div 8) = load_bytes m q (LENGTH('b) div 8)"
    using assms by (intro load_bytes_cong) (simp add: store_frame separate_def)
  then show ?thesis by (simp add: load_def)
qed

lemma store_store_same [mem_simps]:
  fixes v w :: "'a::len word"
  assumes "LENGTH('a) div 8 \<le> 2 ^ 32"
  shows "store (store m p v) p w = store m p w"
  using assms by (intro ext) (simp add: store_apply)

lemma store_load_same:
  fixes p :: addr
  assumes "8 dvd LENGTH('a::len)" and "LENGTH('a) div 8 \<le> 2 ^ 32"
  shows "store m p (load m p :: 'a word) = m"
proof
  fix a
  let ?k = "LENGTH('a) div 8"
  show "store m p (load m p :: 'a word) a = m a"
  proof (cases "in_range p ?k a")
    case False
    with assms show ?thesis by (simp add: store_frame)
  next
    case True
    then have i: "unat (a - p) < ?k" by (simp add: in_range_def)
    have "word_bytes (load m p :: 'a word) ! unat (a - p) = m (p + of_nat (unat (a - p)))"
    proof (rule bit_word_eqI)
      fix n
      assume n: "n < LENGTH(8)"
      with i assms(1) have "8 * unat (a - p) + n < LENGTH('a)"
        by (auto simp: dvd_def)
      with n i show "bit (word_bytes (load m p :: 'a word) ! unat (a - p)) n
          \<longleftrightarrow> bit (m (p + of_nat (unat (a - p)))) n"
        by (simp add: word_bytes_def load_def bit_ucast_iff bit_drop_bit_eq
            bit_bytes_word_iff nth_load_bytes)
    qed
    with True assms show ?thesis by (simp add: store_apply)
  qed
qed

end
