(* ===== verification/Sync_Contract.thy ===== *)
theory Sync_Contract
  imports Memory
begin

text \<open>
  What a call of each builtin has to do, as the interface documents it: one indivisible
  update of the location \<open>ptr\<close> points to, and a result. The contract is not code of the
  repository; it is written from the description of the operation families and is the
  yardstick the builtins of \<^verbatim>\<open>atomics.c\<close> are compared with. Each operation is a total
  function from the memory before the call to the result and the memory after it, generic
  in the width. The lemmas are the properties the interface lists: which value is
  returned, what the location holds afterwards, that no other location changes, how the
  two families of read-modify-write operations differ, and what compare-and-swap does on
  a match and on a mismatch.
\<close>

unbundle bit_operations_syntax

section \<open>The operators\<close>

datatype rmw_op = Op_add | Op_sub | Op_or | Op_and | Op_xor | Op_nand

fun apply_op :: "rmw_op \<Rightarrow> 'a::len word \<Rightarrow> 'a word \<Rightarrow> 'a word" where
  "apply_op Op_add v arg = v + arg"
| "apply_op Op_sub v arg = v - arg"
| "apply_op Op_or v arg = v OR arg"
| "apply_op Op_and v arg = v AND arg"
| "apply_op Op_xor v arg = v XOR arg"
| "apply_op Op_nand v arg = NOT (v AND arg)"

section \<open>The operations\<close>

definition fetch_and_op :: "rmw_op \<Rightarrow> addr \<Rightarrow> 'a::len word \<Rightarrow> memory \<Rightarrow> 'a word \<times> memory" where
  [contract_simps]: "fetch_and_op f ptr arg m =
     (let v = load m ptr in (v, store m ptr (apply_op f v arg)))"

definition op_and_fetch :: "rmw_op \<Rightarrow> addr \<Rightarrow> 'a::len word \<Rightarrow> memory \<Rightarrow> 'a word \<times> memory" where
  [contract_simps]: "op_and_fetch f ptr arg m =
     (let v' = apply_op f (load m ptr) arg in (v', store m ptr v'))"

definition lock_test_and_set :: "addr \<Rightarrow> 'a::len word \<Rightarrow> memory \<Rightarrow> 'a word \<times> memory" where
  [contract_simps]: "lock_test_and_set ptr arg m = (load m ptr, store m ptr arg)"

definition val_compare_and_swap ::
  "addr \<Rightarrow> 'a::len word \<Rightarrow> 'a word \<Rightarrow> memory \<Rightarrow> 'a word \<times> memory" where
  [contract_simps]: "val_compare_and_swap ptr old new m =
     (let v = load m ptr in (v, if v = old then store m ptr new else m))"

definition bool_compare_and_swap ::
  "addr \<Rightarrow> 'a::len word \<Rightarrow> 'a word \<Rightarrow> memory \<Rightarrow> bool \<times> memory" where
  [contract_simps]: "bool_compare_and_swap ptr old new m =
     (let v = load m ptr in (v = old, if v = old then store m ptr new else m))"

text \<open>A call repeated \<open>n\<close> times on the memory the previous call left, as a caller
  that ignores the results does.\<close>

definition repeated :: "nat \<Rightarrow> (memory \<Rightarrow> 'r \<times> memory) \<Rightarrow> memory \<Rightarrow> memory" where
  "repeated n call = (snd \<circ> call) ^^ n"

section \<open>Read-modify-write\<close>

lemma fetch_and_op_result: "fst (fetch_and_op f p arg m) = load m p"
  by (simp add: contract_simps Let_def)

lemma fetch_and_op_location:
  fixes arg :: "'a::len word"
  assumes "8 dvd LENGTH('a)" and "LENGTH('a) div 8 \<le> 2 ^ 32"
  shows "load (snd (fetch_and_op f p arg m)) p = apply_op f (load m p) arg"
  using assms by (simp add: contract_simps Let_def mem_simps)

lemma op_and_fetch_result: "fst (op_and_fetch f p arg m) = apply_op f (load m p) arg"
  by (simp add: contract_simps Let_def)

text \<open>The two families make the same update; their results differ by one application
  of the operator.\<close>

lemma op_and_fetch_fetch_and_op:
  "op_and_fetch f p arg m =
     (apply_op f (fst (fetch_and_op f p arg m)) arg, snd (fetch_and_op f p arg m))"
  by (simp add: contract_simps Let_def)

lemma op_and_fetch_location:
  fixes arg :: "'a::len word"
  assumes "8 dvd LENGTH('a)" and "LENGTH('a) div 8 \<le> 2 ^ 32"
  shows "load (snd (op_and_fetch f p arg m)) p = fst (op_and_fetch f p arg m)"
  using assms by (simp add: contract_simps Let_def mem_simps)

lemma fetch_and_op_frame:
  fixes arg :: "'a::len word"
  assumes "LENGTH('a) div 8 \<le> 2 ^ 32" and "\<not> in_range p (LENGTH('a) div 8) a"
  shows "snd (fetch_and_op f p arg m) a = m a"
  using assms by (simp add: contract_simps Let_def mem_simps)

section \<open>Nand\<close>

text \<open>Nand is the complement of the conjunction. On a single pair of bytes it differs
  from both readings that complement one operand only.\<close>

lemma nand_not_and: "apply_op Op_nand v arg = NOT (v AND arg)"
  by simp

lemma nand_is_not_and_of_complement:
  "apply_op Op_nand (1 :: int8_t) 3 \<noteq> NOT 1 AND 3 \<and> apply_op Op_nand (1 :: int8_t) 3 \<noteq> 1 AND NOT 3"
  by simp

section \<open>Test-and-set\<close>

lemma lock_test_and_set_result: "fst (lock_test_and_set p arg m) = load m p"
  by (simp add: contract_simps)

lemma lock_test_and_set_location:
  fixes arg :: "'a::len word"
  assumes "8 dvd LENGTH('a)" and "LENGTH('a) div 8 \<le> 2 ^ 32"
  shows "load (snd (lock_test_and_set p arg m)) p = arg"
  using assms by (simp add: contract_simps mem_simps)

text \<open>Used as a lock: of two acquisitions in a row with a non-zero token, the second
  sees the lock held, whatever the first one saw.\<close>

lemma lock_test_and_set_twice:
  fixes t :: "'a::len word"
  assumes "8 dvd LENGTH('a)" and "LENGTH('a) div 8 \<le> 2 ^ 32" and "t \<noteq> 0"
  shows "fst (lock_test_and_set p t (snd (lock_test_and_set p t m))) \<noteq> 0"
  using assms by (simp add: contract_simps mem_simps)

section \<open>Compare-and-swap\<close>

lemma val_compare_and_swap_result: "fst (val_compare_and_swap p old new m) = load m p"
  by (simp add: contract_simps Let_def)

lemma bool_compare_and_swap_result:
  "fst (bool_compare_and_swap p old new m) \<longleftrightarrow> load m p = old"
  by (simp add: contract_simps Let_def)

lemma compare_and_swap_same_memory:
  "snd (bool_compare_and_swap p old new m) = snd (val_compare_and_swap p old new m)"
  by (simp add: contract_simps Let_def)

lemma compare_and_swap_match:
  fixes new :: "'a::len word"
  assumes "8 dvd LENGTH('a)" and "LENGTH('a) div 8 \<le> 2 ^ 32" and "load m p = old"
  shows "load (snd (val_compare_and_swap p old new m)) p = new"
  using assms by (simp add: contract_simps Let_def mem_simps)

lemma compare_and_swap_mismatch:
  "load m p \<noteq> old \<Longrightarrow> snd (val_compare_and_swap p old new m) = m"
  by (simp add: contract_simps Let_def)

section \<open>Repeated increments\<close>

text \<open>\<open>n\<close> increments in a row add \<open>n\<close>, modulo the width: none is lost.\<close>

lemma repeated_Suc: "repeated (Suc n) call m = snd (call (repeated n call m))"
  by (simp add: repeated_def)

lemma repeated_fetch_and_add:
  fixes d :: "'a::len word"
  assumes "8 dvd LENGTH('a)" and "LENGTH('a) div 8 \<le> 2 ^ 32"
  shows "load (repeated n (fetch_and_op Op_add p d) m) p = (load m p :: 'a word) + of_nat n * d"
proof (induction n)
  case 0
  show ?case by (simp add: repeated_def)
next
  case (Suc n)
  with assms show ?case
    by (simp add: repeated_Suc fetch_and_op_location algebra_simps)
qed

section \<open>The worked example of the interface, at width 32\<close>

lemma example_fetch_and_add:
  "fetch_and_op Op_add p (5 :: int32_t) (store m p (10 :: int32_t)) = (10, store m p (15 :: int32_t))"
  by (simp add: contract_simps mem_simps)

lemma example_add_and_fetch:
  "op_and_fetch Op_add p (5 :: int32_t) (store m p (15 :: int32_t)) = (20, store m p (20 :: int32_t))"
  by (simp add: contract_simps mem_simps)

lemma example_compare_and_swap:
  "val_compare_and_swap p (20 :: int32_t) 99 (store m p (20 :: int32_t)) = (20, store m p (99 :: int32_t))"
  "val_compare_and_swap p (20 :: int32_t) 1 (store m p (99 :: int32_t)) = (99, store m p (99 :: int32_t))"
  by (simp_all add: contract_simps mem_simps)

end
