(* ===== verification/Sync_Builtins.thy ===== *)
theory Sync_Builtins
  imports Atomics_Prelude
begin

text \<open>
  The sixty functions of \<^verbatim>\<open>src/app/components/compiler_builtins/atomics.c\<close>, one
  definition each, in the order of the file. A C function
  \<^verbatim>\<open>T __sync_op_N(T *ptr, T arg)\<close> becomes \<open>sync_op_N ptr arg\<close> of type
  \<open>T c_call\<close>: it takes the memory and returns the result with the memory after the
  call, or \<open>None\<close> when the call does not return. The body of every function of the
  file is the single statement \<^verbatim>\<open>return __sync_op_N(ptr, arg);\<close>, a call of the function
  itself with its own parameters, so each definition is the recursive equation that the
  C text states, taken as a least fixed point by \<^theory_text>\<open>partial_function (option)\<close>.
  The names drop the two leading underscores, which an Isabelle name cannot start with.

  After the definitions of a width come its divergence facts, one per function,
  collected in \<open>sync_diverges\<close>; the theorems at the end state them by operation
  family.
\<close>

section \<open>Width 1: \<^verbatim>\<open>int8_t\<close>\<close>

partial_function (option) sync_fetch_and_add_1 :: "addr \<Rightarrow> int8_t \<Rightarrow> int8_t c_call" where
  "sync_fetch_and_add_1 ptr arg m = sync_fetch_and_add_1 ptr arg m"

partial_function (option) sync_fetch_and_sub_1 :: "addr \<Rightarrow> int8_t \<Rightarrow> int8_t c_call" where
  "sync_fetch_and_sub_1 ptr arg m = sync_fetch_and_sub_1 ptr arg m"

partial_function (option) sync_fetch_and_or_1 :: "addr \<Rightarrow> int8_t \<Rightarrow> int8_t c_call" where
  "sync_fetch_and_or_1 ptr arg m = sync_fetch_and_or_1 ptr arg m"

partial_function (option) sync_fetch_and_and_1 :: "addr \<Rightarrow> int8_t \<Rightarrow> int8_t c_call" where
  "sync_fetch_and_and_1 ptr arg m = sync_fetch_and_and_1 ptr arg m"

partial_function (option) sync_fetch_and_xor_1 :: "addr \<Rightarrow> int8_t \<Rightarrow> int8_t c_call" where
  "sync_fetch_and_xor_1 ptr arg m = sync_fetch_and_xor_1 ptr arg m"

partial_function (option) sync_fetch_and_nand_1 :: "addr \<Rightarrow> int8_t \<Rightarrow> int8_t c_call" where
  "sync_fetch_and_nand_1 ptr arg m = sync_fetch_and_nand_1 ptr arg m"

partial_function (option) sync_add_and_fetch_1 :: "addr \<Rightarrow> int8_t \<Rightarrow> int8_t c_call" where
  "sync_add_and_fetch_1 ptr arg m = sync_add_and_fetch_1 ptr arg m"

partial_function (option) sync_sub_and_fetch_1 :: "addr \<Rightarrow> int8_t \<Rightarrow> int8_t c_call" where
  "sync_sub_and_fetch_1 ptr arg m = sync_sub_and_fetch_1 ptr arg m"

partial_function (option) sync_or_and_fetch_1 :: "addr \<Rightarrow> int8_t \<Rightarrow> int8_t c_call" where
  "sync_or_and_fetch_1 ptr arg m = sync_or_and_fetch_1 ptr arg m"

partial_function (option) sync_and_and_fetch_1 :: "addr \<Rightarrow> int8_t \<Rightarrow> int8_t c_call" where
  "sync_and_and_fetch_1 ptr arg m = sync_and_and_fetch_1 ptr arg m"

partial_function (option) sync_xor_and_fetch_1 :: "addr \<Rightarrow> int8_t \<Rightarrow> int8_t c_call" where
  "sync_xor_and_fetch_1 ptr arg m = sync_xor_and_fetch_1 ptr arg m"

partial_function (option) sync_nand_and_fetch_1 :: "addr \<Rightarrow> int8_t \<Rightarrow> int8_t c_call" where
  "sync_nand_and_fetch_1 ptr arg m = sync_nand_and_fetch_1 ptr arg m"

partial_function (option) sync_lock_test_and_set_1 :: "addr \<Rightarrow> int8_t \<Rightarrow> int8_t c_call" where
  "sync_lock_test_and_set_1 ptr arg m = sync_lock_test_and_set_1 ptr arg m"

partial_function (option) sync_val_compare_and_swap_1 :: "addr \<Rightarrow> int8_t \<Rightarrow> int8_t \<Rightarrow> int8_t c_call" where
  "sync_val_compare_and_swap_1 ptr old new m = sync_val_compare_and_swap_1 ptr old new m"

partial_function (option) sync_bool_compare_and_swap_1 :: "addr \<Rightarrow> int8_t \<Rightarrow> int8_t \<Rightarrow> bool c_call" where
  "sync_bool_compare_and_swap_1 ptr old new m = sync_bool_compare_and_swap_1 ptr old new m"

subsection \<open>No call of width 1 returns\<close>

lemma sync_fetch_and_add_1_diverges [sync_diverges]: "sync_fetch_and_add_1 ptr arg m = None"
  by (rule never_Some_None, erule sync_fetch_and_add_1.raw_induct [rotated])

lemma sync_fetch_and_sub_1_diverges [sync_diverges]: "sync_fetch_and_sub_1 ptr arg m = None"
  by (rule never_Some_None, erule sync_fetch_and_sub_1.raw_induct [rotated])

lemma sync_fetch_and_or_1_diverges [sync_diverges]: "sync_fetch_and_or_1 ptr arg m = None"
  by (rule never_Some_None, erule sync_fetch_and_or_1.raw_induct [rotated])

lemma sync_fetch_and_and_1_diverges [sync_diverges]: "sync_fetch_and_and_1 ptr arg m = None"
  by (rule never_Some_None, erule sync_fetch_and_and_1.raw_induct [rotated])

lemma sync_fetch_and_xor_1_diverges [sync_diverges]: "sync_fetch_and_xor_1 ptr arg m = None"
  by (rule never_Some_None, erule sync_fetch_and_xor_1.raw_induct [rotated])

lemma sync_fetch_and_nand_1_diverges [sync_diverges]: "sync_fetch_and_nand_1 ptr arg m = None"
  by (rule never_Some_None, erule sync_fetch_and_nand_1.raw_induct [rotated])

lemma sync_add_and_fetch_1_diverges [sync_diverges]: "sync_add_and_fetch_1 ptr arg m = None"
  by (rule never_Some_None, erule sync_add_and_fetch_1.raw_induct [rotated])

lemma sync_sub_and_fetch_1_diverges [sync_diverges]: "sync_sub_and_fetch_1 ptr arg m = None"
  by (rule never_Some_None, erule sync_sub_and_fetch_1.raw_induct [rotated])

lemma sync_or_and_fetch_1_diverges [sync_diverges]: "sync_or_and_fetch_1 ptr arg m = None"
  by (rule never_Some_None, erule sync_or_and_fetch_1.raw_induct [rotated])

lemma sync_and_and_fetch_1_diverges [sync_diverges]: "sync_and_and_fetch_1 ptr arg m = None"
  by (rule never_Some_None, erule sync_and_and_fetch_1.raw_induct [rotated])

lemma sync_xor_and_fetch_1_diverges [sync_diverges]: "sync_xor_and_fetch_1 ptr arg m = None"
  by (rule never_Some_None, erule sync_xor_and_fetch_1.raw_induct [rotated])

lemma sync_nand_and_fetch_1_diverges [sync_diverges]: "sync_nand_and_fetch_1 ptr arg m = None"
  by (rule never_Some_None, erule sync_nand_and_fetch_1.raw_induct [rotated])

lemma sync_lock_test_and_set_1_diverges [sync_diverges]: "sync_lock_test_and_set_1 ptr arg m = None"
  by (rule never_Some_None, erule sync_lock_test_and_set_1.raw_induct [rotated])

lemma sync_val_compare_and_swap_1_diverges [sync_diverges]: "sync_val_compare_and_swap_1 ptr old new m = None"
  by (rule never_Some_None, erule sync_val_compare_and_swap_1.raw_induct [rotated])

lemma sync_bool_compare_and_swap_1_diverges [sync_diverges]: "sync_bool_compare_and_swap_1 ptr old new m = None"
  by (rule never_Some_None, erule sync_bool_compare_and_swap_1.raw_induct [rotated])

section \<open>Width 2: \<^verbatim>\<open>int16_t\<close>\<close>

partial_function (option) sync_fetch_and_add_2 :: "addr \<Rightarrow> int16_t \<Rightarrow> int16_t c_call" where
  "sync_fetch_and_add_2 ptr arg m = sync_fetch_and_add_2 ptr arg m"

partial_function (option) sync_fetch_and_sub_2 :: "addr \<Rightarrow> int16_t \<Rightarrow> int16_t c_call" where
  "sync_fetch_and_sub_2 ptr arg m = sync_fetch_and_sub_2 ptr arg m"

partial_function (option) sync_fetch_and_or_2 :: "addr \<Rightarrow> int16_t \<Rightarrow> int16_t c_call" where
  "sync_fetch_and_or_2 ptr arg m = sync_fetch_and_or_2 ptr arg m"

partial_function (option) sync_fetch_and_and_2 :: "addr \<Rightarrow> int16_t \<Rightarrow> int16_t c_call" where
  "sync_fetch_and_and_2 ptr arg m = sync_fetch_and_and_2 ptr arg m"

partial_function (option) sync_fetch_and_xor_2 :: "addr \<Rightarrow> int16_t \<Rightarrow> int16_t c_call" where
  "sync_fetch_and_xor_2 ptr arg m = sync_fetch_and_xor_2 ptr arg m"

partial_function (option) sync_fetch_and_nand_2 :: "addr \<Rightarrow> int16_t \<Rightarrow> int16_t c_call" where
  "sync_fetch_and_nand_2 ptr arg m = sync_fetch_and_nand_2 ptr arg m"

partial_function (option) sync_add_and_fetch_2 :: "addr \<Rightarrow> int16_t \<Rightarrow> int16_t c_call" where
  "sync_add_and_fetch_2 ptr arg m = sync_add_and_fetch_2 ptr arg m"

partial_function (option) sync_sub_and_fetch_2 :: "addr \<Rightarrow> int16_t \<Rightarrow> int16_t c_call" where
  "sync_sub_and_fetch_2 ptr arg m = sync_sub_and_fetch_2 ptr arg m"

partial_function (option) sync_or_and_fetch_2 :: "addr \<Rightarrow> int16_t \<Rightarrow> int16_t c_call" where
  "sync_or_and_fetch_2 ptr arg m = sync_or_and_fetch_2 ptr arg m"

partial_function (option) sync_and_and_fetch_2 :: "addr \<Rightarrow> int16_t \<Rightarrow> int16_t c_call" where
  "sync_and_and_fetch_2 ptr arg m = sync_and_and_fetch_2 ptr arg m"

partial_function (option) sync_xor_and_fetch_2 :: "addr \<Rightarrow> int16_t \<Rightarrow> int16_t c_call" where
  "sync_xor_and_fetch_2 ptr arg m = sync_xor_and_fetch_2 ptr arg m"

partial_function (option) sync_nand_and_fetch_2 :: "addr \<Rightarrow> int16_t \<Rightarrow> int16_t c_call" where
  "sync_nand_and_fetch_2 ptr arg m = sync_nand_and_fetch_2 ptr arg m"

partial_function (option) sync_lock_test_and_set_2 :: "addr \<Rightarrow> int16_t \<Rightarrow> int16_t c_call" where
  "sync_lock_test_and_set_2 ptr arg m = sync_lock_test_and_set_2 ptr arg m"

partial_function (option) sync_val_compare_and_swap_2 :: "addr \<Rightarrow> int16_t \<Rightarrow> int16_t \<Rightarrow> int16_t c_call" where
  "sync_val_compare_and_swap_2 ptr old new m = sync_val_compare_and_swap_2 ptr old new m"

partial_function (option) sync_bool_compare_and_swap_2 :: "addr \<Rightarrow> int16_t \<Rightarrow> int16_t \<Rightarrow> bool c_call" where
  "sync_bool_compare_and_swap_2 ptr old new m = sync_bool_compare_and_swap_2 ptr old new m"

subsection \<open>No call of width 2 returns\<close>

lemma sync_fetch_and_add_2_diverges [sync_diverges]: "sync_fetch_and_add_2 ptr arg m = None"
  by (rule never_Some_None, erule sync_fetch_and_add_2.raw_induct [rotated])

lemma sync_fetch_and_sub_2_diverges [sync_diverges]: "sync_fetch_and_sub_2 ptr arg m = None"
  by (rule never_Some_None, erule sync_fetch_and_sub_2.raw_induct [rotated])

lemma sync_fetch_and_or_2_diverges [sync_diverges]: "sync_fetch_and_or_2 ptr arg m = None"
  by (rule never_Some_None, erule sync_fetch_and_or_2.raw_induct [rotated])

lemma sync_fetch_and_and_2_diverges [sync_diverges]: "sync_fetch_and_and_2 ptr arg m = None"
  by (rule never_Some_None, erule sync_fetch_and_and_2.raw_induct [rotated])

lemma sync_fetch_and_xor_2_diverges [sync_diverges]: "sync_fetch_and_xor_2 ptr arg m = None"
  by (rule never_Some_None, erule sync_fetch_and_xor_2.raw_induct [rotated])

lemma sync_fetch_and_nand_2_diverges [sync_diverges]: "sync_fetch_and_nand_2 ptr arg m = None"
  by (rule never_Some_None, erule sync_fetch_and_nand_2.raw_induct [rotated])

lemma sync_add_and_fetch_2_diverges [sync_diverges]: "sync_add_and_fetch_2 ptr arg m = None"
  by (rule never_Some_None, erule sync_add_and_fetch_2.raw_induct [rotated])

lemma sync_sub_and_fetch_2_diverges [sync_diverges]: "sync_sub_and_fetch_2 ptr arg m = None"
  by (rule never_Some_None, erule sync_sub_and_fetch_2.raw_induct [rotated])

lemma sync_or_and_fetch_2_diverges [sync_diverges]: "sync_or_and_fetch_2 ptr arg m = None"
  by (rule never_Some_None, erule sync_or_and_fetch_2.raw_induct [rotated])

lemma sync_and_and_fetch_2_diverges [sync_diverges]: "sync_and_and_fetch_2 ptr arg m = None"
  by (rule never_Some_None, erule sync_and_and_fetch_2.raw_induct [rotated])

lemma sync_xor_and_fetch_2_diverges [sync_diverges]: "sync_xor_and_fetch_2 ptr arg m = None"
  by (rule never_Some_None, erule sync_xor_and_fetch_2.raw_induct [rotated])

lemma sync_nand_and_fetch_2_diverges [sync_diverges]: "sync_nand_and_fetch_2 ptr arg m = None"
  by (rule never_Some_None, erule sync_nand_and_fetch_2.raw_induct [rotated])

lemma sync_lock_test_and_set_2_diverges [sync_diverges]: "sync_lock_test_and_set_2 ptr arg m = None"
  by (rule never_Some_None, erule sync_lock_test_and_set_2.raw_induct [rotated])

lemma sync_val_compare_and_swap_2_diverges [sync_diverges]: "sync_val_compare_and_swap_2 ptr old new m = None"
  by (rule never_Some_None, erule sync_val_compare_and_swap_2.raw_induct [rotated])

lemma sync_bool_compare_and_swap_2_diverges [sync_diverges]: "sync_bool_compare_and_swap_2 ptr old new m = None"
  by (rule never_Some_None, erule sync_bool_compare_and_swap_2.raw_induct [rotated])

section \<open>Width 4: \<^verbatim>\<open>int32_t\<close>\<close>

partial_function (option) sync_fetch_and_add_4 :: "addr \<Rightarrow> int32_t \<Rightarrow> int32_t c_call" where
  "sync_fetch_and_add_4 ptr arg m = sync_fetch_and_add_4 ptr arg m"

partial_function (option) sync_fetch_and_sub_4 :: "addr \<Rightarrow> int32_t \<Rightarrow> int32_t c_call" where
  "sync_fetch_and_sub_4 ptr arg m = sync_fetch_and_sub_4 ptr arg m"

partial_function (option) sync_fetch_and_or_4 :: "addr \<Rightarrow> int32_t \<Rightarrow> int32_t c_call" where
  "sync_fetch_and_or_4 ptr arg m = sync_fetch_and_or_4 ptr arg m"

partial_function (option) sync_fetch_and_and_4 :: "addr \<Rightarrow> int32_t \<Rightarrow> int32_t c_call" where
  "sync_fetch_and_and_4 ptr arg m = sync_fetch_and_and_4 ptr arg m"

partial_function (option) sync_fetch_and_xor_4 :: "addr \<Rightarrow> int32_t \<Rightarrow> int32_t c_call" where
  "sync_fetch_and_xor_4 ptr arg m = sync_fetch_and_xor_4 ptr arg m"

partial_function (option) sync_fetch_and_nand_4 :: "addr \<Rightarrow> int32_t \<Rightarrow> int32_t c_call" where
  "sync_fetch_and_nand_4 ptr arg m = sync_fetch_and_nand_4 ptr arg m"

partial_function (option) sync_add_and_fetch_4 :: "addr \<Rightarrow> int32_t \<Rightarrow> int32_t c_call" where
  "sync_add_and_fetch_4 ptr arg m = sync_add_and_fetch_4 ptr arg m"

partial_function (option) sync_sub_and_fetch_4 :: "addr \<Rightarrow> int32_t \<Rightarrow> int32_t c_call" where
  "sync_sub_and_fetch_4 ptr arg m = sync_sub_and_fetch_4 ptr arg m"

partial_function (option) sync_or_and_fetch_4 :: "addr \<Rightarrow> int32_t \<Rightarrow> int32_t c_call" where
  "sync_or_and_fetch_4 ptr arg m = sync_or_and_fetch_4 ptr arg m"

partial_function (option) sync_and_and_fetch_4 :: "addr \<Rightarrow> int32_t \<Rightarrow> int32_t c_call" where
  "sync_and_and_fetch_4 ptr arg m = sync_and_and_fetch_4 ptr arg m"

partial_function (option) sync_xor_and_fetch_4 :: "addr \<Rightarrow> int32_t \<Rightarrow> int32_t c_call" where
  "sync_xor_and_fetch_4 ptr arg m = sync_xor_and_fetch_4 ptr arg m"

partial_function (option) sync_nand_and_fetch_4 :: "addr \<Rightarrow> int32_t \<Rightarrow> int32_t c_call" where
  "sync_nand_and_fetch_4 ptr arg m = sync_nand_and_fetch_4 ptr arg m"

partial_function (option) sync_lock_test_and_set_4 :: "addr \<Rightarrow> int32_t \<Rightarrow> int32_t c_call" where
  "sync_lock_test_and_set_4 ptr arg m = sync_lock_test_and_set_4 ptr arg m"

partial_function (option) sync_val_compare_and_swap_4 :: "addr \<Rightarrow> int32_t \<Rightarrow> int32_t \<Rightarrow> int32_t c_call" where
  "sync_val_compare_and_swap_4 ptr old new m = sync_val_compare_and_swap_4 ptr old new m"

partial_function (option) sync_bool_compare_and_swap_4 :: "addr \<Rightarrow> int32_t \<Rightarrow> int32_t \<Rightarrow> bool c_call" where
  "sync_bool_compare_and_swap_4 ptr old new m = sync_bool_compare_and_swap_4 ptr old new m"

subsection \<open>No call of width 4 returns\<close>

lemma sync_fetch_and_add_4_diverges [sync_diverges]: "sync_fetch_and_add_4 ptr arg m = None"
  by (rule never_Some_None, erule sync_fetch_and_add_4.raw_induct [rotated])

lemma sync_fetch_and_sub_4_diverges [sync_diverges]: "sync_fetch_and_sub_4 ptr arg m = None"
  by (rule never_Some_None, erule sync_fetch_and_sub_4.raw_induct [rotated])

lemma sync_fetch_and_or_4_diverges [sync_diverges]: "sync_fetch_and_or_4 ptr arg m = None"
  by (rule never_Some_None, erule sync_fetch_and_or_4.raw_induct [rotated])

lemma sync_fetch_and_and_4_diverges [sync_diverges]: "sync_fetch_and_and_4 ptr arg m = None"
  by (rule never_Some_None, erule sync_fetch_and_and_4.raw_induct [rotated])

lemma sync_fetch_and_xor_4_diverges [sync_diverges]: "sync_fetch_and_xor_4 ptr arg m = None"
  by (rule never_Some_None, erule sync_fetch_and_xor_4.raw_induct [rotated])

lemma sync_fetch_and_nand_4_diverges [sync_diverges]: "sync_fetch_and_nand_4 ptr arg m = None"
  by (rule never_Some_None, erule sync_fetch_and_nand_4.raw_induct [rotated])

lemma sync_add_and_fetch_4_diverges [sync_diverges]: "sync_add_and_fetch_4 ptr arg m = None"
  by (rule never_Some_None, erule sync_add_and_fetch_4.raw_induct [rotated])

lemma sync_sub_and_fetch_4_diverges [sync_diverges]: "sync_sub_and_fetch_4 ptr arg m = None"
  by (rule never_Some_None, erule sync_sub_and_fetch_4.raw_induct [rotated])

lemma sync_or_and_fetch_4_diverges [sync_diverges]: "sync_or_and_fetch_4 ptr arg m = None"
  by (rule never_Some_None, erule sync_or_and_fetch_4.raw_induct [rotated])

lemma sync_and_and_fetch_4_diverges [sync_diverges]: "sync_and_and_fetch_4 ptr arg m = None"
  by (rule never_Some_None, erule sync_and_and_fetch_4.raw_induct [rotated])

lemma sync_xor_and_fetch_4_diverges [sync_diverges]: "sync_xor_and_fetch_4 ptr arg m = None"
  by (rule never_Some_None, erule sync_xor_and_fetch_4.raw_induct [rotated])

lemma sync_nand_and_fetch_4_diverges [sync_diverges]: "sync_nand_and_fetch_4 ptr arg m = None"
  by (rule never_Some_None, erule sync_nand_and_fetch_4.raw_induct [rotated])

lemma sync_lock_test_and_set_4_diverges [sync_diverges]: "sync_lock_test_and_set_4 ptr arg m = None"
  by (rule never_Some_None, erule sync_lock_test_and_set_4.raw_induct [rotated])

lemma sync_val_compare_and_swap_4_diverges [sync_diverges]: "sync_val_compare_and_swap_4 ptr old new m = None"
  by (rule never_Some_None, erule sync_val_compare_and_swap_4.raw_induct [rotated])

lemma sync_bool_compare_and_swap_4_diverges [sync_diverges]: "sync_bool_compare_and_swap_4 ptr old new m = None"
  by (rule never_Some_None, erule sync_bool_compare_and_swap_4.raw_induct [rotated])

section \<open>Width 8: \<^verbatim>\<open>int64_t\<close>\<close>

partial_function (option) sync_fetch_and_add_8 :: "addr \<Rightarrow> int64_t \<Rightarrow> int64_t c_call" where
  "sync_fetch_and_add_8 ptr arg m = sync_fetch_and_add_8 ptr arg m"

partial_function (option) sync_fetch_and_sub_8 :: "addr \<Rightarrow> int64_t \<Rightarrow> int64_t c_call" where
  "sync_fetch_and_sub_8 ptr arg m = sync_fetch_and_sub_8 ptr arg m"

partial_function (option) sync_fetch_and_or_8 :: "addr \<Rightarrow> int64_t \<Rightarrow> int64_t c_call" where
  "sync_fetch_and_or_8 ptr arg m = sync_fetch_and_or_8 ptr arg m"

partial_function (option) sync_fetch_and_and_8 :: "addr \<Rightarrow> int64_t \<Rightarrow> int64_t c_call" where
  "sync_fetch_and_and_8 ptr arg m = sync_fetch_and_and_8 ptr arg m"

partial_function (option) sync_fetch_and_xor_8 :: "addr \<Rightarrow> int64_t \<Rightarrow> int64_t c_call" where
  "sync_fetch_and_xor_8 ptr arg m = sync_fetch_and_xor_8 ptr arg m"

partial_function (option) sync_fetch_and_nand_8 :: "addr \<Rightarrow> int64_t \<Rightarrow> int64_t c_call" where
  "sync_fetch_and_nand_8 ptr arg m = sync_fetch_and_nand_8 ptr arg m"

partial_function (option) sync_add_and_fetch_8 :: "addr \<Rightarrow> int64_t \<Rightarrow> int64_t c_call" where
  "sync_add_and_fetch_8 ptr arg m = sync_add_and_fetch_8 ptr arg m"

partial_function (option) sync_sub_and_fetch_8 :: "addr \<Rightarrow> int64_t \<Rightarrow> int64_t c_call" where
  "sync_sub_and_fetch_8 ptr arg m = sync_sub_and_fetch_8 ptr arg m"

partial_function (option) sync_or_and_fetch_8 :: "addr \<Rightarrow> int64_t \<Rightarrow> int64_t c_call" where
  "sync_or_and_fetch_8 ptr arg m = sync_or_and_fetch_8 ptr arg m"

partial_function (option) sync_and_and_fetch_8 :: "addr \<Rightarrow> int64_t \<Rightarrow> int64_t c_call" where
  "sync_and_and_fetch_8 ptr arg m = sync_and_and_fetch_8 ptr arg m"

partial_function (option) sync_xor_and_fetch_8 :: "addr \<Rightarrow> int64_t \<Rightarrow> int64_t c_call" where
  "sync_xor_and_fetch_8 ptr arg m = sync_xor_and_fetch_8 ptr arg m"

partial_function (option) sync_nand_and_fetch_8 :: "addr \<Rightarrow> int64_t \<Rightarrow> int64_t c_call" where
  "sync_nand_and_fetch_8 ptr arg m = sync_nand_and_fetch_8 ptr arg m"

partial_function (option) sync_lock_test_and_set_8 :: "addr \<Rightarrow> int64_t \<Rightarrow> int64_t c_call" where
  "sync_lock_test_and_set_8 ptr arg m = sync_lock_test_and_set_8 ptr arg m"

partial_function (option) sync_val_compare_and_swap_8 :: "addr \<Rightarrow> int64_t \<Rightarrow> int64_t \<Rightarrow> int64_t c_call" where
  "sync_val_compare_and_swap_8 ptr old new m = sync_val_compare_and_swap_8 ptr old new m"

partial_function (option) sync_bool_compare_and_swap_8 :: "addr \<Rightarrow> int64_t \<Rightarrow> int64_t \<Rightarrow> bool c_call" where
  "sync_bool_compare_and_swap_8 ptr old new m = sync_bool_compare_and_swap_8 ptr old new m"

subsection \<open>No call of width 8 returns\<close>

lemma sync_fetch_and_add_8_diverges [sync_diverges]: "sync_fetch_and_add_8 ptr arg m = None"
  by (rule never_Some_None, erule sync_fetch_and_add_8.raw_induct [rotated])

lemma sync_fetch_and_sub_8_diverges [sync_diverges]: "sync_fetch_and_sub_8 ptr arg m = None"
  by (rule never_Some_None, erule sync_fetch_and_sub_8.raw_induct [rotated])

lemma sync_fetch_and_or_8_diverges [sync_diverges]: "sync_fetch_and_or_8 ptr arg m = None"
  by (rule never_Some_None, erule sync_fetch_and_or_8.raw_induct [rotated])

lemma sync_fetch_and_and_8_diverges [sync_diverges]: "sync_fetch_and_and_8 ptr arg m = None"
  by (rule never_Some_None, erule sync_fetch_and_and_8.raw_induct [rotated])

lemma sync_fetch_and_xor_8_diverges [sync_diverges]: "sync_fetch_and_xor_8 ptr arg m = None"
  by (rule never_Some_None, erule sync_fetch_and_xor_8.raw_induct [rotated])

lemma sync_fetch_and_nand_8_diverges [sync_diverges]: "sync_fetch_and_nand_8 ptr arg m = None"
  by (rule never_Some_None, erule sync_fetch_and_nand_8.raw_induct [rotated])

lemma sync_add_and_fetch_8_diverges [sync_diverges]: "sync_add_and_fetch_8 ptr arg m = None"
  by (rule never_Some_None, erule sync_add_and_fetch_8.raw_induct [rotated])

lemma sync_sub_and_fetch_8_diverges [sync_diverges]: "sync_sub_and_fetch_8 ptr arg m = None"
  by (rule never_Some_None, erule sync_sub_and_fetch_8.raw_induct [rotated])

lemma sync_or_and_fetch_8_diverges [sync_diverges]: "sync_or_and_fetch_8 ptr arg m = None"
  by (rule never_Some_None, erule sync_or_and_fetch_8.raw_induct [rotated])

lemma sync_and_and_fetch_8_diverges [sync_diverges]: "sync_and_and_fetch_8 ptr arg m = None"
  by (rule never_Some_None, erule sync_and_and_fetch_8.raw_induct [rotated])

lemma sync_xor_and_fetch_8_diverges [sync_diverges]: "sync_xor_and_fetch_8 ptr arg m = None"
  by (rule never_Some_None, erule sync_xor_and_fetch_8.raw_induct [rotated])

lemma sync_nand_and_fetch_8_diverges [sync_diverges]: "sync_nand_and_fetch_8 ptr arg m = None"
  by (rule never_Some_None, erule sync_nand_and_fetch_8.raw_induct [rotated])

lemma sync_lock_test_and_set_8_diverges [sync_diverges]: "sync_lock_test_and_set_8 ptr arg m = None"
  by (rule never_Some_None, erule sync_lock_test_and_set_8.raw_induct [rotated])

lemma sync_val_compare_and_swap_8_diverges [sync_diverges]: "sync_val_compare_and_swap_8 ptr old new m = None"
  by (rule never_Some_None, erule sync_val_compare_and_swap_8.raw_induct [rotated])

lemma sync_bool_compare_and_swap_8_diverges [sync_diverges]: "sync_bool_compare_and_swap_8 ptr old new m = None"
  by (rule never_Some_None, erule sync_bool_compare_and_swap_8.raw_induct [rotated])

section \<open>The operation families\<close>

text \<open>
  The facts above, grouped the way the interface groups the builtins. In each theorem
  \<open>p\<close> is the pointer, \<open>m\<close> the memory before the call and \<open>arg1\<close>, \<open>arg2\<close>,
  \<open>arg4\<close>, \<open>arg8\<close> the operand at each width; all of them are arbitrary.
\<close>

text \<open>
  C1. No fetch-and-op builtin returns. For each of the six operators (add, sub, or, and,
  xor, nand) and each of the four widths, the call of \<^verbatim>\<open>__sync_fetch_and_<op>_<N>\<close>
  yields no result and no final memory, for every pointer, operand and memory: the
  function only calls itself.
\<close>

theorem fetch_and_op_never_returns:
  "sync_fetch_and_add_1 p arg1 m = None \<and>
   sync_fetch_and_add_2 p arg2 m = None \<and>
   sync_fetch_and_add_4 p arg4 m = None \<and>
   sync_fetch_and_add_8 p arg8 m = None \<and>
   sync_fetch_and_sub_1 p arg1 m = None \<and>
   sync_fetch_and_sub_2 p arg2 m = None \<and>
   sync_fetch_and_sub_4 p arg4 m = None \<and>
   sync_fetch_and_sub_8 p arg8 m = None \<and>
   sync_fetch_and_or_1 p arg1 m = None \<and>
   sync_fetch_and_or_2 p arg2 m = None \<and>
   sync_fetch_and_or_4 p arg4 m = None \<and>
   sync_fetch_and_or_8 p arg8 m = None \<and>
   sync_fetch_and_and_1 p arg1 m = None \<and>
   sync_fetch_and_and_2 p arg2 m = None \<and>
   sync_fetch_and_and_4 p arg4 m = None \<and>
   sync_fetch_and_and_8 p arg8 m = None \<and>
   sync_fetch_and_xor_1 p arg1 m = None \<and>
   sync_fetch_and_xor_2 p arg2 m = None \<and>
   sync_fetch_and_xor_4 p arg4 m = None \<and>
   sync_fetch_and_xor_8 p arg8 m = None \<and>
   sync_fetch_and_nand_1 p arg1 m = None \<and>
   sync_fetch_and_nand_2 p arg2 m = None \<and>
   sync_fetch_and_nand_4 p arg4 m = None \<and>
   sync_fetch_and_nand_8 p arg8 m = None"
  by (simp add: sync_diverges)

text \<open>
  C2. No op-and-fetch builtin returns: the same for \<^verbatim>\<open>__sync_<op>_and_fetch_<N>\<close>,
  six operators at four widths.
\<close>

theorem op_and_fetch_never_returns:
  "sync_add_and_fetch_1 p arg1 m = None \<and>
   sync_add_and_fetch_2 p arg2 m = None \<and>
   sync_add_and_fetch_4 p arg4 m = None \<and>
   sync_add_and_fetch_8 p arg8 m = None \<and>
   sync_sub_and_fetch_1 p arg1 m = None \<and>
   sync_sub_and_fetch_2 p arg2 m = None \<and>
   sync_sub_and_fetch_4 p arg4 m = None \<and>
   sync_sub_and_fetch_8 p arg8 m = None \<and>
   sync_or_and_fetch_1 p arg1 m = None \<and>
   sync_or_and_fetch_2 p arg2 m = None \<and>
   sync_or_and_fetch_4 p arg4 m = None \<and>
   sync_or_and_fetch_8 p arg8 m = None \<and>
   sync_and_and_fetch_1 p arg1 m = None \<and>
   sync_and_and_fetch_2 p arg2 m = None \<and>
   sync_and_and_fetch_4 p arg4 m = None \<and>
   sync_and_and_fetch_8 p arg8 m = None \<and>
   sync_xor_and_fetch_1 p arg1 m = None \<and>
   sync_xor_and_fetch_2 p arg2 m = None \<and>
   sync_xor_and_fetch_4 p arg4 m = None \<and>
   sync_xor_and_fetch_8 p arg8 m = None \<and>
   sync_nand_and_fetch_1 p arg1 m = None \<and>
   sync_nand_and_fetch_2 p arg2 m = None \<and>
   sync_nand_and_fetch_4 p arg4 m = None \<and>
   sync_nand_and_fetch_8 p arg8 m = None"
  by (simp add: sync_diverges)

text \<open>
  C3. No compare-and-swap returns, neither the value-returning
  \<^verbatim>\<open>__sync_val_compare_and_swap_<N>\<close> nor the boolean
  \<^verbatim>\<open>__sync_bool_compare_and_swap_<N>\<close>, at any width and for any expected and
  replacement value.
\<close>

theorem compare_and_swap_never_returns:
  "sync_val_compare_and_swap_1 p old1 new1 m = None \<and>
   sync_val_compare_and_swap_2 p old2 new2 m = None \<and>
   sync_val_compare_and_swap_4 p old4 new4 m = None \<and>
   sync_val_compare_and_swap_8 p old8 new8 m = None \<and>
   sync_bool_compare_and_swap_1 p old1 new1 m = None \<and>
   sync_bool_compare_and_swap_2 p old2 new2 m = None \<and>
   sync_bool_compare_and_swap_4 p old4 new4 m = None \<and>
   sync_bool_compare_and_swap_8 p old8 new8 m = None"
  by (simp add: sync_diverges)

text \<open>
  C4. No \<^verbatim>\<open>__sync_lock_test_and_set_<N>\<close> returns: a spin lock built on it is never
  acquired, since the acquiring call never comes back with the old value.
\<close>

theorem lock_test_and_set_never_returns:
  "sync_lock_test_and_set_1 p arg1 m = None \<and>
   sync_lock_test_and_set_2 p arg2 m = None \<and>
   sync_lock_test_and_set_4 p arg4 m = None \<and>
   sync_lock_test_and_set_8 p arg8 m = None"
  by (simp add: sync_diverges)

end
