(* ===== verification/Atomics_Syntax.thy ===== *)
theory Atomics_Syntax
  imports Sync_Contract
begin

text \<open>
  \<^verbatim>\<open>atomics.c\<close> as a syntax tree. The file uses a small part of C: function definitions
  with typed parameters whose body is one \<^verbatim>\<open>return\<close> of a call with variables as
  arguments. The datatypes below cover that part and the statements a working
  implementation of the builtins needs (local declarations, reads and writes through a
  pointer, the six operators, comparison, conditionals), so that the file as written and
  its repair are programs of one language. \<open>atomics_c_1\<close>, \<open>atomics_c_2\<close>, \<open>atomics_c_4\<close>
  and \<open>atomics_c_8\<close> transcribe the fifteen functions of each width in the order of the
  file; \<open>atomics_c\<close> is the whole file.

  The second half states the interface the toolchain expects (the symbol
  \<^verbatim>\<open>__sync_<operation>_<width>\<close> with its parameter and result types, for every operation
  at every width) and shows that the file exports exactly that interface, that no two
  functions share a name, that every call in the file is well typed, and that every
  body is a call of the function that contains it.
\<close>

section \<open>Types, values, expressions, statements\<close>

datatype ctype = Int8_t | Int16_t | Int32_t | Int64_t | Bool_t | Pointer ctype

datatype val = I8 int8_t | I16 int16_t | I32 int32_t | I64 int64_t | B bool | P addr

datatype expr =
    Var string
  | Const val
  | Deref ctype expr
  | Binop rmw_op expr expr
  | Equal expr expr
  | Call string "expr list"

datatype stmt =
    Skip
  | Decl ctype string expr
  | Store expr expr
  | Seq stmt stmt
  | If expr stmt stmt
  | Return expr

datatype fundef =
  Fundef (ret: ctype) (fname: string) (params: "(ctype \<times> string) list") (body: stmt)

type_synonym program = "fundef list"

section \<open>The file\<close>

definition atomics_c_1 :: "fundef list" where
  "atomics_c_1 =
    [Fundef Int8_t ''__sync_fetch_and_add_1''
       [(Pointer Int8_t, ''ptr''), (Int8_t, ''arg'')]
       (Return (Call ''__sync_fetch_and_add_1'' [Var ''ptr'', Var ''arg''])),
     Fundef Int8_t ''__sync_fetch_and_sub_1''
       [(Pointer Int8_t, ''ptr''), (Int8_t, ''arg'')]
       (Return (Call ''__sync_fetch_and_sub_1'' [Var ''ptr'', Var ''arg''])),
     Fundef Int8_t ''__sync_fetch_and_or_1''
       [(Pointer Int8_t, ''ptr''), (Int8_t, ''arg'')]
       (Return (Call ''__sync_fetch_and_or_1'' [Var ''ptr'', Var ''arg''])),
     Fundef Int8_t ''__sync_fetch_and_and_1''
       [(Pointer Int8_t, ''ptr''), (Int8_t, ''arg'')]
       (Return (Call ''__sync_fetch_and_and_1'' [Var ''ptr'', Var ''arg''])),
     Fundef Int8_t ''__sync_fetch_and_xor_1''
       [(Pointer Int8_t, ''ptr''), (Int8_t, ''arg'')]
       (Return (Call ''__sync_fetch_and_xor_1'' [Var ''ptr'', Var ''arg''])),
     Fundef Int8_t ''__sync_fetch_and_nand_1''
       [(Pointer Int8_t, ''ptr''), (Int8_t, ''arg'')]
       (Return (Call ''__sync_fetch_and_nand_1'' [Var ''ptr'', Var ''arg''])),
     Fundef Int8_t ''__sync_add_and_fetch_1''
       [(Pointer Int8_t, ''ptr''), (Int8_t, ''arg'')]
       (Return (Call ''__sync_add_and_fetch_1'' [Var ''ptr'', Var ''arg''])),
     Fundef Int8_t ''__sync_sub_and_fetch_1''
       [(Pointer Int8_t, ''ptr''), (Int8_t, ''arg'')]
       (Return (Call ''__sync_sub_and_fetch_1'' [Var ''ptr'', Var ''arg''])),
     Fundef Int8_t ''__sync_or_and_fetch_1''
       [(Pointer Int8_t, ''ptr''), (Int8_t, ''arg'')]
       (Return (Call ''__sync_or_and_fetch_1'' [Var ''ptr'', Var ''arg''])),
     Fundef Int8_t ''__sync_and_and_fetch_1''
       [(Pointer Int8_t, ''ptr''), (Int8_t, ''arg'')]
       (Return (Call ''__sync_and_and_fetch_1'' [Var ''ptr'', Var ''arg''])),
     Fundef Int8_t ''__sync_xor_and_fetch_1''
       [(Pointer Int8_t, ''ptr''), (Int8_t, ''arg'')]
       (Return (Call ''__sync_xor_and_fetch_1'' [Var ''ptr'', Var ''arg''])),
     Fundef Int8_t ''__sync_nand_and_fetch_1''
       [(Pointer Int8_t, ''ptr''), (Int8_t, ''arg'')]
       (Return (Call ''__sync_nand_and_fetch_1'' [Var ''ptr'', Var ''arg''])),
     Fundef Int8_t ''__sync_lock_test_and_set_1''
       [(Pointer Int8_t, ''ptr''), (Int8_t, ''arg'')]
       (Return (Call ''__sync_lock_test_and_set_1'' [Var ''ptr'', Var ''arg''])),
     Fundef Int8_t ''__sync_val_compare_and_swap_1''
       [(Pointer Int8_t, ''ptr''), (Int8_t, ''old''), (Int8_t, ''new'')]
       (Return (Call ''__sync_val_compare_and_swap_1'' [Var ''ptr'', Var ''old'', Var ''new''])),
     Fundef Bool_t ''__sync_bool_compare_and_swap_1''
       [(Pointer Int8_t, ''ptr''), (Int8_t, ''old''), (Int8_t, ''new'')]
       (Return (Call ''__sync_bool_compare_and_swap_1'' [Var ''ptr'', Var ''old'', Var ''new'']))]"

definition atomics_c_2 :: "fundef list" where
  "atomics_c_2 =
    [Fundef Int16_t ''__sync_fetch_and_add_2''
       [(Pointer Int16_t, ''ptr''), (Int16_t, ''arg'')]
       (Return (Call ''__sync_fetch_and_add_2'' [Var ''ptr'', Var ''arg''])),
     Fundef Int16_t ''__sync_fetch_and_sub_2''
       [(Pointer Int16_t, ''ptr''), (Int16_t, ''arg'')]
       (Return (Call ''__sync_fetch_and_sub_2'' [Var ''ptr'', Var ''arg''])),
     Fundef Int16_t ''__sync_fetch_and_or_2''
       [(Pointer Int16_t, ''ptr''), (Int16_t, ''arg'')]
       (Return (Call ''__sync_fetch_and_or_2'' [Var ''ptr'', Var ''arg''])),
     Fundef Int16_t ''__sync_fetch_and_and_2''
       [(Pointer Int16_t, ''ptr''), (Int16_t, ''arg'')]
       (Return (Call ''__sync_fetch_and_and_2'' [Var ''ptr'', Var ''arg''])),
     Fundef Int16_t ''__sync_fetch_and_xor_2''
       [(Pointer Int16_t, ''ptr''), (Int16_t, ''arg'')]
       (Return (Call ''__sync_fetch_and_xor_2'' [Var ''ptr'', Var ''arg''])),
     Fundef Int16_t ''__sync_fetch_and_nand_2''
       [(Pointer Int16_t, ''ptr''), (Int16_t, ''arg'')]
       (Return (Call ''__sync_fetch_and_nand_2'' [Var ''ptr'', Var ''arg''])),
     Fundef Int16_t ''__sync_add_and_fetch_2''
       [(Pointer Int16_t, ''ptr''), (Int16_t, ''arg'')]
       (Return (Call ''__sync_add_and_fetch_2'' [Var ''ptr'', Var ''arg''])),
     Fundef Int16_t ''__sync_sub_and_fetch_2''
       [(Pointer Int16_t, ''ptr''), (Int16_t, ''arg'')]
       (Return (Call ''__sync_sub_and_fetch_2'' [Var ''ptr'', Var ''arg''])),
     Fundef Int16_t ''__sync_or_and_fetch_2''
       [(Pointer Int16_t, ''ptr''), (Int16_t, ''arg'')]
       (Return (Call ''__sync_or_and_fetch_2'' [Var ''ptr'', Var ''arg''])),
     Fundef Int16_t ''__sync_and_and_fetch_2''
       [(Pointer Int16_t, ''ptr''), (Int16_t, ''arg'')]
       (Return (Call ''__sync_and_and_fetch_2'' [Var ''ptr'', Var ''arg''])),
     Fundef Int16_t ''__sync_xor_and_fetch_2''
       [(Pointer Int16_t, ''ptr''), (Int16_t, ''arg'')]
       (Return (Call ''__sync_xor_and_fetch_2'' [Var ''ptr'', Var ''arg''])),
     Fundef Int16_t ''__sync_nand_and_fetch_2''
       [(Pointer Int16_t, ''ptr''), (Int16_t, ''arg'')]
       (Return (Call ''__sync_nand_and_fetch_2'' [Var ''ptr'', Var ''arg''])),
     Fundef Int16_t ''__sync_lock_test_and_set_2''
       [(Pointer Int16_t, ''ptr''), (Int16_t, ''arg'')]
       (Return (Call ''__sync_lock_test_and_set_2'' [Var ''ptr'', Var ''arg''])),
     Fundef Int16_t ''__sync_val_compare_and_swap_2''
       [(Pointer Int16_t, ''ptr''), (Int16_t, ''old''), (Int16_t, ''new'')]
       (Return (Call ''__sync_val_compare_and_swap_2'' [Var ''ptr'', Var ''old'', Var ''new''])),
     Fundef Bool_t ''__sync_bool_compare_and_swap_2''
       [(Pointer Int16_t, ''ptr''), (Int16_t, ''old''), (Int16_t, ''new'')]
       (Return (Call ''__sync_bool_compare_and_swap_2'' [Var ''ptr'', Var ''old'', Var ''new'']))]"

definition atomics_c_4 :: "fundef list" where
  "atomics_c_4 =
    [Fundef Int32_t ''__sync_fetch_and_add_4''
       [(Pointer Int32_t, ''ptr''), (Int32_t, ''arg'')]
       (Return (Call ''__sync_fetch_and_add_4'' [Var ''ptr'', Var ''arg''])),
     Fundef Int32_t ''__sync_fetch_and_sub_4''
       [(Pointer Int32_t, ''ptr''), (Int32_t, ''arg'')]
       (Return (Call ''__sync_fetch_and_sub_4'' [Var ''ptr'', Var ''arg''])),
     Fundef Int32_t ''__sync_fetch_and_or_4''
       [(Pointer Int32_t, ''ptr''), (Int32_t, ''arg'')]
       (Return (Call ''__sync_fetch_and_or_4'' [Var ''ptr'', Var ''arg''])),
     Fundef Int32_t ''__sync_fetch_and_and_4''
       [(Pointer Int32_t, ''ptr''), (Int32_t, ''arg'')]
       (Return (Call ''__sync_fetch_and_and_4'' [Var ''ptr'', Var ''arg''])),
     Fundef Int32_t ''__sync_fetch_and_xor_4''
       [(Pointer Int32_t, ''ptr''), (Int32_t, ''arg'')]
       (Return (Call ''__sync_fetch_and_xor_4'' [Var ''ptr'', Var ''arg''])),
     Fundef Int32_t ''__sync_fetch_and_nand_4''
       [(Pointer Int32_t, ''ptr''), (Int32_t, ''arg'')]
       (Return (Call ''__sync_fetch_and_nand_4'' [Var ''ptr'', Var ''arg''])),
     Fundef Int32_t ''__sync_add_and_fetch_4''
       [(Pointer Int32_t, ''ptr''), (Int32_t, ''arg'')]
       (Return (Call ''__sync_add_and_fetch_4'' [Var ''ptr'', Var ''arg''])),
     Fundef Int32_t ''__sync_sub_and_fetch_4''
       [(Pointer Int32_t, ''ptr''), (Int32_t, ''arg'')]
       (Return (Call ''__sync_sub_and_fetch_4'' [Var ''ptr'', Var ''arg''])),
     Fundef Int32_t ''__sync_or_and_fetch_4''
       [(Pointer Int32_t, ''ptr''), (Int32_t, ''arg'')]
       (Return (Call ''__sync_or_and_fetch_4'' [Var ''ptr'', Var ''arg''])),
     Fundef Int32_t ''__sync_and_and_fetch_4''
       [(Pointer Int32_t, ''ptr''), (Int32_t, ''arg'')]
       (Return (Call ''__sync_and_and_fetch_4'' [Var ''ptr'', Var ''arg''])),
     Fundef Int32_t ''__sync_xor_and_fetch_4''
       [(Pointer Int32_t, ''ptr''), (Int32_t, ''arg'')]
       (Return (Call ''__sync_xor_and_fetch_4'' [Var ''ptr'', Var ''arg''])),
     Fundef Int32_t ''__sync_nand_and_fetch_4''
       [(Pointer Int32_t, ''ptr''), (Int32_t, ''arg'')]
       (Return (Call ''__sync_nand_and_fetch_4'' [Var ''ptr'', Var ''arg''])),
     Fundef Int32_t ''__sync_lock_test_and_set_4''
       [(Pointer Int32_t, ''ptr''), (Int32_t, ''arg'')]
       (Return (Call ''__sync_lock_test_and_set_4'' [Var ''ptr'', Var ''arg''])),
     Fundef Int32_t ''__sync_val_compare_and_swap_4''
       [(Pointer Int32_t, ''ptr''), (Int32_t, ''old''), (Int32_t, ''new'')]
       (Return (Call ''__sync_val_compare_and_swap_4'' [Var ''ptr'', Var ''old'', Var ''new''])),
     Fundef Bool_t ''__sync_bool_compare_and_swap_4''
       [(Pointer Int32_t, ''ptr''), (Int32_t, ''old''), (Int32_t, ''new'')]
       (Return (Call ''__sync_bool_compare_and_swap_4'' [Var ''ptr'', Var ''old'', Var ''new'']))]"

definition atomics_c_8 :: "fundef list" where
  "atomics_c_8 =
    [Fundef Int64_t ''__sync_fetch_and_add_8''
       [(Pointer Int64_t, ''ptr''), (Int64_t, ''arg'')]
       (Return (Call ''__sync_fetch_and_add_8'' [Var ''ptr'', Var ''arg''])),
     Fundef Int64_t ''__sync_fetch_and_sub_8''
       [(Pointer Int64_t, ''ptr''), (Int64_t, ''arg'')]
       (Return (Call ''__sync_fetch_and_sub_8'' [Var ''ptr'', Var ''arg''])),
     Fundef Int64_t ''__sync_fetch_and_or_8''
       [(Pointer Int64_t, ''ptr''), (Int64_t, ''arg'')]
       (Return (Call ''__sync_fetch_and_or_8'' [Var ''ptr'', Var ''arg''])),
     Fundef Int64_t ''__sync_fetch_and_and_8''
       [(Pointer Int64_t, ''ptr''), (Int64_t, ''arg'')]
       (Return (Call ''__sync_fetch_and_and_8'' [Var ''ptr'', Var ''arg''])),
     Fundef Int64_t ''__sync_fetch_and_xor_8''
       [(Pointer Int64_t, ''ptr''), (Int64_t, ''arg'')]
       (Return (Call ''__sync_fetch_and_xor_8'' [Var ''ptr'', Var ''arg''])),
     Fundef Int64_t ''__sync_fetch_and_nand_8''
       [(Pointer Int64_t, ''ptr''), (Int64_t, ''arg'')]
       (Return (Call ''__sync_fetch_and_nand_8'' [Var ''ptr'', Var ''arg''])),
     Fundef Int64_t ''__sync_add_and_fetch_8''
       [(Pointer Int64_t, ''ptr''), (Int64_t, ''arg'')]
       (Return (Call ''__sync_add_and_fetch_8'' [Var ''ptr'', Var ''arg''])),
     Fundef Int64_t ''__sync_sub_and_fetch_8''
       [(Pointer Int64_t, ''ptr''), (Int64_t, ''arg'')]
       (Return (Call ''__sync_sub_and_fetch_8'' [Var ''ptr'', Var ''arg''])),
     Fundef Int64_t ''__sync_or_and_fetch_8''
       [(Pointer Int64_t, ''ptr''), (Int64_t, ''arg'')]
       (Return (Call ''__sync_or_and_fetch_8'' [Var ''ptr'', Var ''arg''])),
     Fundef Int64_t ''__sync_and_and_fetch_8''
       [(Pointer Int64_t, ''ptr''), (Int64_t, ''arg'')]
       (Return (Call ''__sync_and_and_fetch_8'' [Var ''ptr'', Var ''arg''])),
     Fundef Int64_t ''__sync_xor_and_fetch_8''
       [(Pointer Int64_t, ''ptr''), (Int64_t, ''arg'')]
       (Return (Call ''__sync_xor_and_fetch_8'' [Var ''ptr'', Var ''arg''])),
     Fundef Int64_t ''__sync_nand_and_fetch_8''
       [(Pointer Int64_t, ''ptr''), (Int64_t, ''arg'')]
       (Return (Call ''__sync_nand_and_fetch_8'' [Var ''ptr'', Var ''arg''])),
     Fundef Int64_t ''__sync_lock_test_and_set_8''
       [(Pointer Int64_t, ''ptr''), (Int64_t, ''arg'')]
       (Return (Call ''__sync_lock_test_and_set_8'' [Var ''ptr'', Var ''arg''])),
     Fundef Int64_t ''__sync_val_compare_and_swap_8''
       [(Pointer Int64_t, ''ptr''), (Int64_t, ''old''), (Int64_t, ''new'')]
       (Return (Call ''__sync_val_compare_and_swap_8'' [Var ''ptr'', Var ''old'', Var ''new''])),
     Fundef Bool_t ''__sync_bool_compare_and_swap_8''
       [(Pointer Int64_t, ''ptr''), (Int64_t, ''old''), (Int64_t, ''new'')]
       (Return (Call ''__sync_bool_compare_and_swap_8'' [Var ''ptr'', Var ''old'', Var ''new'']))]"

definition atomics_c :: program where
  "atomics_c = atomics_c_1 @ atomics_c_2 @ atomics_c_4 @ atomics_c_8"

lemmas atomics_c_defs = atomics_c_def atomics_c_1_def atomics_c_2_def atomics_c_4_def atomics_c_8_def

section \<open>Looking a function up\<close>

fun lookup :: "program \<Rightarrow> string \<Rightarrow> fundef option" where
  "lookup [] g = None"
| "lookup (fd # fds) g = (if fname fd = g then Some fd else lookup fds g)"

text \<open>The shape every body of the file has: a \<^verbatim>\<open>return\<close> of a call of the function
  itself, its parameters passed on in their order.\<close>

definition self_call :: "fundef \<Rightarrow> bool" where
  "self_call fd \<longleftrightarrow> body fd = Return (Call (fname fd) (map (Var \<circ> snd) (params fd)))"

section \<open>Static typing\<close>

text \<open>
  The type of an expression under the declarations in scope, \<open>None\<close> when it has none.
  Operators and comparison take two operands of one type, operators of an integer type;
  the result of an operator has that type (C computes in \<^verbatim>\<open>int\<close> and converts back on
  assignment, which for these widths is the wrap-around of the word). A call is typed
  where this part of C has it, as the operand of \<^verbatim>\<open>return\<close>: the function called must be
  defined, take arguments of the types given, in number and order, and return the type
  the calling function returns. \<open>check_stmt\<close> threads the declarations through a
  statement and returns those in scope after it; the branches of a conditional declare
  nothing. \<open>returns\<close> says that every path through a statement ends in a \<^verbatim>\<open>return\<close>.
\<close>

type_synonym tenv = "(ctype \<times> string) list"

fun is_integer :: "ctype \<Rightarrow> bool" where
  "is_integer (Pointer _) = False"
| "is_integer Bool_t = False"
| "is_integer _ = True"

fun const_type :: "val \<Rightarrow> ctype option" where
  "const_type (I8 _) = Some Int8_t"
| "const_type (I16 _) = Some Int16_t"
| "const_type (I32 _) = Some Int32_t"
| "const_type (I64 _) = Some Int64_t"
| "const_type (B _) = Some Bool_t"
| "const_type (P _) = None"

fun var_type :: "tenv \<Rightarrow> string \<Rightarrow> ctype option" where
  "var_type [] x = None"
| "var_type ((t, y) # G) x = (if y = x then Some t else var_type G x)"

fun type_of :: "tenv \<Rightarrow> expr \<Rightarrow> ctype option" where
  "type_of G (Var x) = var_type G x"
| "type_of G (Const v) = const_type v"
| "type_of G (Deref t a) = (if type_of G a = Some (Pointer t) then Some t else None)"
| "type_of G (Binop f a b) =
     (case (type_of G a, type_of G b) of
        (Some t, Some t') \<Rightarrow> if t = t' \<and> is_integer t then Some t else None
      | _ \<Rightarrow> None)"
| "type_of G (Equal a b) =
     (case (type_of G a, type_of G b) of
        (Some t, Some t') \<Rightarrow> if t = t' then Some Bool_t else None
      | _ \<Rightarrow> None)"
| "type_of G (Call g args) = None"

definition check_call :: "program \<Rightarrow> ctype \<Rightarrow> tenv \<Rightarrow> string \<Rightarrow> expr list \<Rightarrow> bool" where
  "check_call prog rt G g args \<longleftrightarrow>
     (case lookup prog g of
        None \<Rightarrow> False
      | Some fd \<Rightarrow> map (type_of G) args = map (Some \<circ> fst) (params fd) \<and> ret fd = rt)"

fun check_stmt :: "program \<Rightarrow> ctype \<Rightarrow> tenv \<Rightarrow> stmt \<Rightarrow> tenv option" where
  "check_stmt prog rt G Skip = Some G"
| "check_stmt prog rt G (Decl t x a) =
     (if type_of G a = Some t then Some ((t, x) # G) else None)"
| "check_stmt prog rt G (Store p a) =
     (case (type_of G p, type_of G a) of
        (Some (Pointer t), Some t') \<Rightarrow> if t = t' then Some G else None
      | _ \<Rightarrow> None)"
| "check_stmt prog rt G (Seq s1 s2) =
     (case check_stmt prog rt G s1 of None \<Rightarrow> None | Some G' \<Rightarrow> check_stmt prog rt G' s2)"
| "check_stmt prog rt G (If c s1 s2) =
     (if type_of G c = Some Bool_t \<and> check_stmt prog rt G s1 = Some G
         \<and> check_stmt prog rt G s2 = Some G
      then Some G else None)"
| "check_stmt prog rt G (Return (Call g args)) =
     (if check_call prog rt G g args then Some G else None)"
| "check_stmt prog rt G (Return a) = (if type_of G a = Some rt then Some G else None)"

fun returns :: "stmt \<Rightarrow> bool" where
  "returns (Return a) = True"
| "returns (Seq s1 s2) = (returns s1 \<or> returns s2)"
| "returns (If c s1 s2) = (returns s1 \<and> returns s2)"
| "returns _ = False"

definition wt_fundef :: "program \<Rightarrow> fundef \<Rightarrow> bool" where
  "wt_fundef prog fd \<longleftrightarrow>
     distinct (map snd (params fd)) \<and> returns (body fd) \<and>
     check_stmt prog (ret fd) (params fd) (body fd) \<noteq> None"

definition wt_program :: "program \<Rightarrow> bool" where
  "wt_program prog \<longleftrightarrow> distinct (map fname prog) \<and> list_all (wt_fundef prog) prog"

section \<open>The interface the toolchain expects\<close>

datatype sync_operation =
    Fetch_and_op rmw_op
  | Op_and_fetch rmw_op
  | Lock_test_and_set
  | Val_compare_and_swap
  | Bool_compare_and_swap

datatype width = W1 | W2 | W4 | W8

text \<open>Widths are ordered by the number of bytes they stand for.\<close>

fun bytes :: "width \<Rightarrow> nat" where
  "bytes W1 = 1"
| "bytes W2 = 2"
| "bytes W4 = 4"
| "bytes W8 = 8"

instantiation width :: linorder
begin

definition less_eq_width :: "width \<Rightarrow> width \<Rightarrow> bool" where
  "a \<le> b \<longleftrightarrow> bytes a \<le> bytes b"

definition less_width :: "width \<Rightarrow> width \<Rightarrow> bool" where
  "a < b \<longleftrightarrow> bytes a < bytes b"

instance
proof
  fix a b :: width
  show "a \<le> b \<Longrightarrow> b \<le> a \<Longrightarrow> a = b"
    by (cases a; cases b) (simp_all add: less_eq_width_def)
qed (auto simp: less_eq_width_def less_width_def)

end

fun op_name :: "rmw_op \<Rightarrow> string" where
  "op_name Op_add = ''add''"
| "op_name Op_sub = ''sub''"
| "op_name Op_or = ''or''"
| "op_name Op_and = ''and''"
| "op_name Op_xor = ''xor''"
| "op_name Op_nand = ''nand''"

fun operation_name :: "sync_operation \<Rightarrow> string" where
  "operation_name (Fetch_and_op f) = ''fetch_and_'' @ op_name f"
| "operation_name (Op_and_fetch f) = op_name f @ ''_and_fetch''"
| "operation_name Lock_test_and_set = ''lock_test_and_set''"
| "operation_name Val_compare_and_swap = ''val_compare_and_swap''"
| "operation_name Bool_compare_and_swap = ''bool_compare_and_swap''"

fun width_suffix :: "width \<Rightarrow> string" where
  "width_suffix W1 = ''1''"
| "width_suffix W2 = ''2''"
| "width_suffix W4 = ''4''"
| "width_suffix W8 = ''8''"

fun width_type :: "width \<Rightarrow> ctype" where
  "width_type W1 = Int8_t"
| "width_type W2 = Int16_t"
| "width_type W4 = Int32_t"
| "width_type W8 = Int64_t"

definition symbol :: "sync_operation \<Rightarrow> width \<Rightarrow> string" where
  "symbol operation w = ''__sync_'' @ operation_name operation @ ''_'' @ width_suffix w"

text \<open>A signature is the result type, the symbol and the parameter types. Every
  operation takes the pointer first; compare-and-swap takes two operands, the others
  one; only the boolean compare-and-swap does not return a value of the width.\<close>

type_synonym signature = "ctype \<times> string \<times> ctype list"

fun operand_types :: "sync_operation \<Rightarrow> ctype \<Rightarrow> ctype list" where
  "operand_types Val_compare_and_swap t = [t, t]"
| "operand_types Bool_compare_and_swap t = [t, t]"
| "operand_types _ t = [t]"

fun result_type :: "sync_operation \<Rightarrow> width \<Rightarrow> ctype" where
  "result_type Bool_compare_and_swap w = Bool_t"
| "result_type _ w = width_type w"

definition expected_signature :: "sync_operation \<Rightarrow> width \<Rightarrow> signature" where
  "expected_signature operation w =
     (result_type operation w, symbol operation w,
      Pointer (width_type w) # operand_types operation (width_type w))"

definition operators :: "rmw_op list" where
  "operators = [Op_add, Op_sub, Op_or, Op_and, Op_xor, Op_nand]"

definition operations :: "sync_operation list" where
  "operations = map Fetch_and_op operators @ map Op_and_fetch operators @
     [Lock_test_and_set, Val_compare_and_swap, Bool_compare_and_swap]"

definition widths :: "width list" where
  "widths = [W1, W2, W4, W8]"

definition interface :: "signature list" where
  "interface = concat (map (\<lambda>w. map (\<lambda>operation. expected_signature operation w) operations) widths)"

definition signature_of :: "fundef \<Rightarrow> signature" where
  "signature_of fd = (ret fd, fname fd, map fst (params fd))"

text \<open>The width a function works at, read off the type its pointer parameter points
  to.\<close>

fun type_width :: "ctype \<Rightarrow> width option" where
  "type_width Int8_t = Some W1"
| "type_width Int16_t = Some W2"
| "type_width Int32_t = Some W4"
| "type_width Int64_t = Some W8"
| "type_width _ = None"

fun width_of :: "fundef \<Rightarrow> width option" where
  "width_of (Fundef rt g ((Pointer t, x) # ps) b) = type_width t"
| "width_of _ = None"


section \<open>Lookup\<close>

lemma lookup_in_set: "lookup prog g = Some fd \<Longrightarrow> fd \<in> set prog \<and> fname fd = g"
  by (induction prog) (auto split: if_splits)

lemma lookup_distinct:
  "distinct (map fname prog) \<Longrightarrow> fd \<in> set prog \<Longrightarrow> lookup prog (fname fd) = Some fd"
  by (induction prog) (auto simp: rev_image_eqI)

lemma lookup_None_iff: "lookup prog g = None \<longleftrightarrow> g \<notin> fname ` set prog"
  by (induction prog) auto

section \<open>Typing of parameters\<close>

lemma var_type_params:
  "distinct (map snd G) \<Longrightarrow> p \<in> set G \<Longrightarrow> var_type G (snd p) = Some (fst p)"
  by (induction G) (auto simp: rev_image_eqI)

text \<open>A function whose body passes its own parameters on to itself is well typed as soon
  as its name resolves to it and its parameters have distinct names: the arguments then
  have the parameter types and the call has the function's result type.\<close>

lemma self_call_wt:
  assumes "self_call fd" and "lookup prog (fname fd) = Some fd" and "distinct (map snd (params fd))"
  shows "wt_fundef prog fd"
  using assms by (simp add: wt_fundef_def self_call_def check_call_def var_type_params)

section \<open>What the file exports\<close>

lemma length_atomics_c: "length atomics_c = 60"
  by (simp add: atomics_c_defs)

lemma distinct_atomics_c_names: "distinct (map fname atomics_c)"
  by (simp add: atomics_c_defs)

lemma all_self_call: "list_all self_call atomics_c"
  by (simp add: atomics_c_defs self_call_def)

lemma distinct_params: "list_all (\<lambda>fd. distinct (map snd (params fd))) atomics_c"
  by (simp add: atomics_c_defs)

lemma fname_signature_of: "fname = fst \<circ> snd \<circ> signature_of"
  by (auto simp: signature_of_def)

lemma signatures_atomics_c: "map signature_of atomics_c = interface"
  by (simp add: atomics_c_defs interface_def signature_of_def expected_signature_def symbol_def
      operations_def operators_def widths_def)

text \<open>The file is laid out by width: fifteen functions at each width, the widths in
  increasing order.\<close>

lemma type_width_width_type [simp]: "type_width (width_type w) = Some w"
  by (cases w) simp_all

lemma sorted_widths: "sorted_wrt (<) widths"
  by (simp add: widths_def less_width_def)

lemma widths_of_atomics_c:
  "those (map width_of atomics_c) = Some (concat (map (replicate 15) widths))"
  by (simp add: atomics_c_defs widths_def eval_nat_numeral)

lemma lookup_atomics_c: "fd \<in> set atomics_c \<Longrightarrow> lookup atomics_c (fname fd) = Some fd"
  by (rule lookup_distinct [OF distinct_atomics_c_names])

lemmas atomics_c_facts = distinct_atomics_c_names all_self_call distinct_params lookup_atomics_c

lemma atomics_c_well_typed_program: "wt_program atomics_c"
  unfolding wt_program_def
  using atomics_c_facts by (auto simp: list_all_iff intro!: self_call_wt)

text \<open>
  C12. The file exports exactly the interface the toolchain expects: read in order, the
  result type, the symbol and the parameter types of its sixty functions are those of
  \<^verbatim>\<open>__sync_<operation>_<width>\<close> for the fifteen operations at each of the widths 1, 2, 4
  and 8, pointer first, then one operand (two for compare-and-swap), returning a value of
  the width (\<^verbatim>\<open>bool\<close> for the boolean compare-and-swap).
\<close>

theorem atomics_c_exports_interface: "map signature_of atomics_c = interface"
  by (rule signatures_atomics_c)

text \<open>
  C13. The file is well typed: no two functions share a name, no function has two
  parameters of one name, every path through a body ends in a \<^verbatim>\<open>return\<close>, and in every
  body the function called is defined, is passed arguments of its parameter types in
  number and order, and returns the type the calling function returns.
\<close>

theorem atomics_c_well_typed: "wt_program atomics_c"
  by (rule atomics_c_well_typed_program)

text \<open>
  C14. Every body of the file is a call of the function that contains it: for each
  function of \<open>atomics_c\<close> the body is \<^verbatim>\<open>return f(p1, ..., pn);\<close> with \<open>f\<close> the
  function's own name and \<open>p1, ..., pn\<close> its own parameters in order. No function
  reads or writes through its pointer, applies an operator or compares a value.
\<close>

theorem every_body_calls_itself:
  "fd \<in> set atomics_c \<Longrightarrow> body fd = Return (Call (fname fd) (map (Var \<circ> snd) (params fd)))"
  using all_self_call by (simp add: list_all_iff self_call_def)

theorem every_body_calls_itself_witness:
  "Fundef Bool_t ''__sync_bool_compare_and_swap_2''
     [(Pointer Int16_t, ''ptr''), (Int16_t, ''old''), (Int16_t, ''new'')]
     (Return (Call ''__sync_bool_compare_and_swap_2'' [Var ''ptr'', Var ''old'', Var ''new'']))
     \<in> set atomics_c \<and>
   body (Fundef Bool_t ''__sync_bool_compare_and_swap_2''
     [(Pointer Int16_t, ''ptr''), (Int16_t, ''old''), (Int16_t, ''new'')]
     (Return (Call ''__sync_bool_compare_and_swap_2'' [Var ''ptr'', Var ''old'', Var ''new''])))
     = Return (Call ''__sync_bool_compare_and_swap_2'' [Var ''ptr'', Var ''old'', Var ''new''])"
proof -
  have "Fundef Bool_t ''__sync_bool_compare_and_swap_2''
     [(Pointer Int16_t, ''ptr''), (Int16_t, ''old''), (Int16_t, ''new'')]
     (Return (Call ''__sync_bool_compare_and_swap_2'' [Var ''ptr'', Var ''old'', Var ''new'']))
     \<in> set atomics_c" (is "?fd \<in> _")
    by (simp add: atomics_c_defs)
  with every_body_calls_itself [of ?fd] show ?thesis by simp
qed


end
