(* ===== verification/Call_Machine.thy ===== *)
theory Call_Machine
  imports Atomics_Syntax
begin

text \<open>
  A machine that runs programs of the syntax of \<open>Atomics_Syntax\<close>. A configuration is
  the stack of frames (the frame on top first), each with its variables and the
  statement left to execute, and the memory; or a value on its way down the stack; or a
  fault. \<open>step\<close> is one step of the top frame; \<open>run M n\<close> makes \<open>n\<close> steps and so is
  the fuel-indexed execution; \<open>reaches\<close> is the reachability relation of \<open>step\<close>.

  Two choices of the compiler are parameters of the machine: \<open>stack_limit\<close>, the number
  of frames the stack holds (\<open>None\<close> for no bound), and \<open>tail_calls\<close>, whether a call in
  \<^verbatim>\<open>return f(...)\<close> reuses the caller's frame. Calls are supported where the file has
  them, as the operand of \<^verbatim>\<open>return\<close>; a call elsewhere in an expression is the fault
  \<open>Bad_expression\<close>.

  The lemmas of this theory hold for every program: values written to memory and read
  back, final configurations, fuel (a result, once produced, stays), and the stack limit
  as an invariant of the reachable configurations. What the machine does on the
  functions of \<^verbatim>\<open>atomics.c\<close> is the subject of \<open>Builtin_Calls\<close>.
\<close>

section \<open>Values and expressions\<close>

type_synonym env = "(string \<times> val) list"

fun has_type :: "val \<Rightarrow> ctype \<Rightarrow> bool" where
  "has_type (I8 _) t = (t = Int8_t)"
| "has_type (I16 _) t = (t = Int16_t)"
| "has_type (I32 _) t = (t = Int32_t)"
| "has_type (I64 _) t = (t = Int64_t)"
| "has_type (B _) t = (t = Bool_t)"
| "has_type (P _) t = (case t of Pointer _ \<Rightarrow> True | _ \<Rightarrow> False)"

fun load_val :: "memory \<Rightarrow> addr \<Rightarrow> ctype \<Rightarrow> val" where
  "load_val m q Int8_t = I8 (load m q)"
| "load_val m q Int16_t = I16 (load m q)"
| "load_val m q Int32_t = I32 (load m q)"
| "load_val m q Int64_t = I64 (load m q)"
| "load_val m q Bool_t = B (load m q \<noteq> (0 :: byte))"
| "load_val m q (Pointer _) = P (load m q)"

fun store_val :: "memory \<Rightarrow> addr \<Rightarrow> val \<Rightarrow> memory" where
  "store_val m q (I8 w) = store m q w"
| "store_val m q (I16 w) = store m q w"
| "store_val m q (I32 w) = store m q w"
| "store_val m q (I64 w) = store m q w"
| "store_val m q (B b) = store m q (if b then 1 else 0 :: byte)"
| "store_val m q (P a) = store m q a"

fun eval_binop :: "rmw_op \<Rightarrow> val \<Rightarrow> val \<Rightarrow> val option" where
  "eval_binop f (I8 a) (I8 b) = Some (I8 (apply_op f a b))"
| "eval_binop f (I16 a) (I16 b) = Some (I16 (apply_op f a b))"
| "eval_binop f (I32 a) (I32 b) = Some (I32 (apply_op f a b))"
| "eval_binop f (I64 a) (I64 b) = Some (I64 (apply_op f a b))"
| "eval_binop f _ _ = None"

fun eval :: "env \<Rightarrow> memory \<Rightarrow> expr \<Rightarrow> val option" where
  "eval e m (Var x) = map_of e x"
| "eval e m (Const v) = Some v"
| "eval e m (Deref t a) = (case eval e m a of Some (P q) \<Rightarrow> Some (load_val m q t) | _ \<Rightarrow> None)"
| "eval e m (Binop f a b) =
     (case (eval e m a, eval e m b) of (Some x, Some y) \<Rightarrow> eval_binop f x y | _ \<Rightarrow> None)"
| "eval e m (Equal a b) =
     (case (eval e m a, eval e m b) of (Some x, Some y) \<Rightarrow> Some (B (x = y)) | _ \<Rightarrow> None)"
| "eval e m (Call g args) = None"

section \<open>Statements\<close>

datatype fault =
    Stack_overflow | Unknown_function string | Bad_arguments string | Bad_expression
  | Missing_return | Bad_frame

datatype outcome =
    Continue stmt env memory
  | Do_return val
  | Do_call string "val list"
  | Do_fault fault

fun exec_stmt :: "stmt \<Rightarrow> env \<Rightarrow> memory \<Rightarrow> outcome" where
  "exec_stmt Skip e m = Do_fault Missing_return"
| "exec_stmt (Return (Call g args)) e m =
     (case those (map (eval e m) args) of
        None \<Rightarrow> Do_fault Bad_expression
      | Some vs \<Rightarrow> Do_call g vs)"
| "exec_stmt (Return x) e m =
     (case eval e m x of None \<Rightarrow> Do_fault Bad_expression | Some v \<Rightarrow> Do_return v)"
| "exec_stmt (Decl t x a) e m =
     (case eval e m a of
        None \<Rightarrow> Do_fault Bad_expression
      | Some v \<Rightarrow> if has_type v t then Continue Skip ((x, v) # e) m else Do_fault Bad_expression)"
| "exec_stmt (Store p a) e m =
     (case (eval e m p, eval e m a) of
        (Some (P q), Some v) \<Rightarrow> Continue Skip e (store_val m q v)
      | _ \<Rightarrow> Do_fault Bad_expression)"
| "exec_stmt (If c s1 s2) e m =
     (case eval e m c of
        Some (B b) \<Rightarrow> Continue (if b then s1 else s2) e m
      | _ \<Rightarrow> Do_fault Bad_expression)"
| "exec_stmt (Seq Skip s2) e m = Continue s2 e m"
| "exec_stmt (Seq s1 s2) e m =
     (case exec_stmt s1 e m of
        Continue s1' e' m' \<Rightarrow> Continue (Seq s1' s2) e' m'
      | other \<Rightarrow> other)"

fun pending_call :: "stmt \<Rightarrow> bool" where
  "pending_call (Return (Call g args)) = True"
| "pending_call (Seq s1 s2) = pending_call s1"
| "pending_call _ = False"

section \<open>Frames and configurations\<close>

datatype frame = Frame (env: env) (code: stmt)

datatype config =
    Exec frame "frame list" memory
  | Value val "frame list" memory
  | Fault fault

record machine =
  program :: program
  stack_limit :: "nat option"
  tail_calls :: bool

definition enter :: "fundef \<Rightarrow> val list \<Rightarrow> frame option" where
  "enter fd vs =
     (if list_all2 has_type vs (map fst (params fd))
      then Some (Frame (zip (map snd (params fd)) vs) (body fd))
      else None)"

definition stack_full :: "machine \<Rightarrow> nat \<Rightarrow> bool" where
  "stack_full M depth \<longleftrightarrow> (case stack_limit M of None \<Rightarrow> False | Some l \<Rightarrow> l \<le> depth)"

definition do_call :: "machine \<Rightarrow> string \<Rightarrow> val list \<Rightarrow> frame list \<Rightarrow> memory \<Rightarrow> config" where
  "do_call M g vs frs m =
     (case lookup (program M) g of
        None \<Rightarrow> Fault (Unknown_function g)
      | Some fd \<Rightarrow>
          (case enter fd vs of
             None \<Rightarrow> Fault (Bad_arguments g)
           | Some fr \<Rightarrow> if stack_full M (length frs) then Fault Stack_overflow else Exec fr frs m))"

fun step :: "machine \<Rightarrow> config \<Rightarrow> config option" where
  "step M (Exec fr frs m) =
     Some (case exec_stmt (code fr) (env fr) m of
        Continue s e m' \<Rightarrow> Exec (Frame e s) frs m'
      | Do_return v \<Rightarrow> Value v frs m
      | Do_call g vs \<Rightarrow> do_call M g vs (if tail_calls M then frs else fr # frs) m
      | Do_fault x \<Rightarrow> Fault x)"
| "step M (Value v (fr # frs) m) =
     Some (if pending_call (code fr) then Value v frs m else Fault Bad_frame)"
| "step M (Value v [] m) = None"
| "step M (Fault x) = None"

fun run :: "machine \<Rightarrow> nat \<Rightarrow> config \<Rightarrow> config" where
  "run M 0 c = c"
| "run M (Suc n) c = (case step M c of None \<Rightarrow> c | Some c' \<Rightarrow> run M n c')"

fun result :: "config \<Rightarrow> (val \<times> memory) option" where
  "result (Value v [] m) = Some (v, m)"
| "result _ = None"

definition call_config :: "machine \<Rightarrow> string \<Rightarrow> val list \<Rightarrow> memory \<Rightarrow> config" where
  "call_config M g vs m = do_call M g vs [] m"

definition call_fuel :: "machine \<Rightarrow> nat \<Rightarrow> string \<Rightarrow> val list \<Rightarrow> memory \<Rightarrow> (val \<times> memory) option" where
  "call_fuel M n g vs m = result (run M n (call_config M g vs m))"


text \<open>The bytes a value occupies in memory.\<close>

fun size_of_val :: "val \<Rightarrow> nat" where
  "size_of_val (I8 _) = 1"
| "size_of_val (I16 _) = 2"
| "size_of_val (I32 _) = 4"
| "size_of_val (I64 _) = 8"
| "size_of_val (B _) = 1"
| "size_of_val (P _) = 4"

fun memory_of :: "config \<Rightarrow> memory option" where
  "memory_of (Exec fr frs m) = Some m"
| "memory_of (Value v frs m) = Some m"
| "memory_of (Fault x) = None"

fun depth :: "config \<Rightarrow> nat" where
  "depth (Exec fr frs m) = Suc (length frs)"
| "depth (Value v frs m) = length frs"
| "depth (Fault x) = 0"

text \<open>A configuration respects the stack limit.\<close>

definition within_limit :: "machine \<Rightarrow> config \<Rightarrow> bool" where
  "within_limit M c \<longleftrightarrow> (case stack_limit M of None \<Rightarrow> True | Some l \<Rightarrow> depth c \<le> l)"

inductive reaches :: "machine \<Rightarrow> config \<Rightarrow> config \<Rightarrow> bool" for M c where
  here: "reaches M c c"
| after: "reaches M c c' \<Longrightarrow> step M c' = Some c'' \<Longrightarrow> reaches M c c''"

section \<open>Values in memory\<close>

text \<open>The number of bytes a value occupies; a value written and read back at its type
  is the value, and a write changes no byte outside the value's range.\<close>

lemma has_type_load_val [simp]: "has_type (load_val m q t) t"
  by (cases t) simp_all

lemma load_val_store_val: "has_type v t \<Longrightarrow> load_val (store_val m q v) q t = v"
  by (cases v; cases t) (simp_all add: load_store_same)

lemma store_val_frame: "\<not> in_range q (size_of_val v) a \<Longrightarrow> store_val m q v a = m a"
  by (cases v) (simp_all add: store_frame)

section \<open>Final configurations\<close>

fun_cases result_SomeE: "result c = Some r"
fun_cases step_NoneE: "step M c = None"

lemma step_None_iff: "step M c = None \<longleftrightarrow> (\<exists>v m. c = Value v [] m) \<or> (\<exists>x. c = Fault x)"
  by (auto elim: step_NoneE)

lemma result_call_config [simp]: "result (call_config M g vs m) = None"
  by (simp add: call_config_def do_call_def split: option.splits)

lemma result_final: "result c = Some r \<Longrightarrow> step M c = None"
  by (auto elim: result_SomeE)

section \<open>Runs\<close>

lemma run_final [simp]: "step M c = None \<Longrightarrow> run M n c = c"
  by (cases n) auto

lemma run_Fault [simp]: "run M n (Fault x) = Fault x"
  by simp

lemma run_add: "run M (a + b) c = run M b (run M a c)"
  by (induction a arbitrary: c) (auto split: option.splits)

lemma reaches_run: "reaches M c (run M n c)"
proof (induction n)
  case 0
  show ?case by (simp add: reaches.here)
next
  case (Suc n)
  have "run M (Suc n) c = run M 1 (run M n c)"
    using run_add [of M n 1 c] by simp
  with Suc show ?case
    by (cases "step M (run M n c)") (auto intro: reaches.after)
qed

lemma reaches_imp_run: "reaches M c c' \<Longrightarrow> \<exists>n. run M n c = c'"
proof (induction rule: reaches.induct)
  case here
  have "run M 0 c = c" by simp
  then show ?case by blast
next
  case (after c' c'')
  then obtain n where "run M n c = c'" by blast
  moreover have "run M (n + 1) c = run M 1 (run M n c)"
    by (rule run_add)
  ultimately have "run M (n + 1) c = c''"
    using after.hyps(2) by simp
  then show ?case by blast
qed

text \<open>A result, once produced, stays: more fuel never changes it.\<close>

lemma run_result_stable:
  assumes "result (run M a c) = Some r" and "a \<le> b"
  shows "result (run M b c) = Some r"
proof -
  from assms(2) have "run M b c = run M (b - a) (run M a c)"
    using run_add [of M a "b - a" c] by simp
  with assms(1) show ?thesis by (simp add: result_final)
qed

lemma call_fuel_stable:
  "call_fuel M a g vs m = Some r \<Longrightarrow> a \<le> b \<Longrightarrow> call_fuel M b g vs m = Some r"
  unfolding call_fuel_def by (rule run_result_stable)

lemma reaches_iff_run: "reaches M c c' \<longleftrightarrow> (\<exists>n. run M n c = c')"
  using reaches_run reaches_imp_run by blast

text \<open>The machine is deterministic: a run ends in at most one final configuration.\<close>

lemma run_final_le: "step M (run M a c) = None \<Longrightarrow> a \<le> b \<Longrightarrow> run M b c = run M a c"
  using run_add [of M a "b - a" c] by simp

lemma reaches_final_unique:
  assumes "reaches M c c1" and "reaches M c c2" and "step M c1 = None" and "step M c2 = None"
  shows "c1 = c2"
proof -
  from assms(1,2) obtain a b where a: "run M a c = c1" and b: "run M b c = c2"
    by (meson reaches_imp_run)
  show ?thesis
  proof (cases "a \<le> b")
    case True
    with run_final_le [of M a c b] assms(3) a b show ?thesis by simp
  next
    case False
    with run_final_le [of M b c a] assms(4) a b show ?thesis by simp
  qed
qed

text \<open>A call that returns is never stuck on the way: every configuration it reaches is
  its result or can make a step.\<close>

lemma returning_call_moves:
  assumes "reaches M (call_config M g as m) c" and "call_fuel M n g as m = Some r"
  shows "result c \<noteq> None \<or> step M c \<noteq> None"
proof (rule ccontr)
  assume "\<not> (result c \<noteq> None \<or> step M c \<noteq> None)"
  then have c: "result c = None" "step M c = None" by blast+
  from assms(2) obtain v m' where "run M n (call_config M g as m) = Value v [] m'"
    by (auto simp: call_fuel_def elim: result_SomeE)
  then have "reaches M (call_config M g as m) (Value v [] m')"
    by (metis reaches_run)
  from reaches_final_unique [OF assms(1) this c(2)] c(1) show False by simp
qed

section \<open>Entering a function\<close>

lemma stack_full_mono: "stack_full M a \<Longrightarrow> a \<le> b \<Longrightarrow> stack_full M b"
  by (auto simp: stack_full_def split: option.splits)

lemma those_map_Some [simp]: "those (map Some xs) = Some xs"
  by (induction xs) auto

lemma eval_params:
  assumes "distinct ns" and "length vs = length ns"
  shows "map (eval (zip ns vs) m) (map Var ns) = map Some vs"
  using assms by (intro nth_equalityI) (simp_all add: map_of_zip_nth)

lemma enter_SomeD:
  "enter fd vs = Some fr \<Longrightarrow>
     fr = Frame (zip (map snd (params fd)) vs) (body fd) \<and> length vs = length (params fd)"
  by (auto simp: enter_def list_all2_lengthD split: if_splits)

section \<open>The stack limit\<close>

text \<open>The stack never holds more frames than its limit, whatever the program: a call
  that would push the frame beyond the limit is the fault \<open>Stack_overflow\<close> instead.\<close>

lemma depth_do_call:
  "length frs \<le> l \<Longrightarrow> stack_limit M = Some l \<Longrightarrow> depth (do_call M g vs frs m) \<le> l"
  by (auto simp: do_call_def stack_full_def split: option.splits)

lemma within_limit_call_config: "within_limit M (call_config M g vs m)"
  by (simp add: within_limit_def call_config_def depth_do_call split: option.splits)

lemma within_limit_step:
  assumes "within_limit M c" and "step M c = Some c'"
  shows "within_limit M c'"
proof (cases "stack_limit M")
  case None
  then show ?thesis by (simp add: within_limit_def)
next
  case (Some l)
  show ?thesis
  proof (cases c)
    case (Exec fr frs m)
    with assms Some have "Suc (length frs) \<le> l" by (simp add: within_limit_def)
    with assms(2) Some show ?thesis
      by (auto simp: Exec depth_do_call within_limit_def split: outcome.splits)
  next
    case (Value v frs m)
    with assms Some show ?thesis
      by (cases frs) (auto simp: within_limit_def split: if_splits)
  next
    case (Fault x)
    with assms(2) show ?thesis by simp
  qed
qed

lemma reaches_within_limit: "reaches M (call_config M g vs m) c \<Longrightarrow> within_limit M c"
  by (induction rule: reaches.induct) (auto intro: within_limit_call_config within_limit_step)

end
