(* ===== verification/Symbol_Names.thy ===== *)
theory Symbol_Names
  imports Atomics_Syntax
begin

text \<open>
  The naming scheme of the interface, read backwards. \<open>symbol\<close> builds the name
  \<^verbatim>\<open>__sync_<operation>_<N>\<close> from an operation and a width; \<open>parse_symbol\<close> takes a name
  apart again: it strips the prefix, splits off the width after the last underscore and
  recognises the operation, a \<^verbatim>\<open>fetch_and_<op>\<close>, an \<^verbatim>\<open><op>_and_fetch\<close> or one of the
  three fixed names. The two are inverse to each other, so a name determines its
  operation and width, and the names the parser accepts are exactly the sixty names of
  the interface. Every name the file defines is one of them, and its function has the
  signature of the operation and the width its name says.
\<close>

section \<open>Taking a name apart\<close>

fun strip_prefix :: "string \<Rightarrow> string \<Rightarrow> string option" where
  "strip_prefix [] s = Some s"
| "strip_prefix (c # p) [] = None"
| "strip_prefix (c # p) (d # s) = (if c = d then strip_prefix p s else None)"

definition strip_suffix :: "string \<Rightarrow> string \<Rightarrow> string option" where
  "strip_suffix p s = map_option rev (strip_prefix (rev p) (rev s))"

definition parse_op :: "string \<Rightarrow> rmw_op option" where
  "parse_op = map_of (map (\<lambda>f. (op_name f, f)) operators)"

definition parse_width :: "string \<Rightarrow> width option" where
  "parse_width = map_of (map (\<lambda>w. (width_suffix w, w)) widths)"

definition parse_operation :: "string \<Rightarrow> sync_operation option" where
  "parse_operation s =
     (case strip_prefix ''fetch_and_'' s of
        Some r \<Rightarrow> map_option Fetch_and_op (parse_op r)
      | None \<Rightarrow>
          (case strip_suffix ''_and_fetch'' s of
             Some r \<Rightarrow> map_option Op_and_fetch (parse_op r)
           | None \<Rightarrow>
               map_of [(''lock_test_and_set'', Lock_test_and_set),
                       (''val_compare_and_swap'', Val_compare_and_swap),
                       (''bool_compare_and_swap'', Bool_compare_and_swap)] s))"

text \<open>The width is the part after the last underscore.\<close>

definition parse_symbol :: "string \<Rightarrow> (sync_operation \<times> width) option" where
  "parse_symbol g =
     (case strip_prefix ''__sync_'' g of
        None \<Rightarrow> None
      | Some r \<Rightarrow>
          (case strip_suffix ''_'' (butlast r) of
             None \<Rightarrow> None
           | Some b \<Rightarrow>
               (case (parse_operation b, parse_width [last r]) of
                  (Some operation, Some w) \<Rightarrow> if r = [] then None else Some (operation, w)
                | _ \<Rightarrow> None)))"

text \<open>A function of the file carries the name and the signature of one operation at one
  width.\<close>

definition named_for_its_signature :: "fundef \<Rightarrow> bool" where
  "named_for_its_signature fd \<longleftrightarrow>
     (case parse_symbol (fname fd) of
        None \<Rightarrow> False
      | Some (operation, w) \<Rightarrow>
          symbol operation w = fname fd \<and> signature_of fd = expected_signature operation w)"

section \<open>Prefixes and suffixes\<close>

lemma strip_prefix_append [simp]: "strip_prefix p (p @ s) = Some s"
  by (induction p) auto

lemma strip_prefix_SomeD: "strip_prefix p s = Some r \<Longrightarrow> s = p @ r"
  by (induction p s rule: strip_prefix.induct) (auto split: if_splits)

lemma strip_suffix_append [simp]: "strip_suffix p (s @ p) = Some s"
  by (simp add: strip_suffix_def)

lemma strip_suffix_SomeD: "strip_suffix p s = Some r \<Longrightarrow> s = r @ p"
  by (auto simp: strip_suffix_def dest!: strip_prefix_SomeD) (metis rev_append rev_rev_ident)

section \<open>Operators, widths and operations\<close>

lemma parse_op_op_name [simp]: "parse_op (op_name f) = Some f"
  by (cases f) (simp_all add: parse_op_def operators_def)

lemma parse_op_SomeD: "parse_op s = Some f \<Longrightarrow> s = op_name f"
  by (auto simp: parse_op_def operators_def split: if_splits)

lemma parse_width_width_suffix [simp]: "parse_width (width_suffix w) = Some w"
  by (cases w) (simp_all add: parse_width_def widths_def)

lemma parse_width_SomeD: "parse_width s = Some w \<Longrightarrow> s = width_suffix w"
  by (auto simp: parse_width_def widths_def split: if_splits)

lemma parse_operation_operation_name [simp]:
  "parse_operation (operation_name operation) = Some operation"
proof (cases operation)
  case (Op_and_fetch f)
  then show ?thesis by (cases f) (simp_all add: parse_operation_def strip_suffix_def parse_op_def
        operators_def)
qed (simp_all add: parse_operation_def strip_suffix_def)

lemma parse_operation_SomeD: "parse_operation s = Some operation \<Longrightarrow> s = operation_name operation"
  by (auto simp: parse_operation_def split: option.splits if_splits
      dest!: strip_prefix_SomeD strip_suffix_SomeD parse_op_SomeD)

section \<open>Names\<close>

lemma width_suffix_single: "\<exists>c. width_suffix w = [c]"
  by (cases w) simp_all

lemma parse_symbol_symbol: "parse_symbol (symbol operation w) = Some (operation, w)"
proof -
  obtain c where c: "width_suffix w = [c]"
    using width_suffix_single by blast
  then have "parse_width [c] = Some w"
    using parse_width_width_suffix [of w] by simp
  with c show ?thesis
    by (simp add: parse_symbol_def symbol_def butlast_append)
qed

lemma parse_symbol_SomeD:
  assumes "parse_symbol g = Some (operation, w)"
  shows "g = symbol operation w"
proof -
  from assms obtain r b where g: "g = ''__sync_'' @ r" and r: "r \<noteq> []"
    and b: "butlast r = b @ ''_''" and o: "parse_operation b = Some operation"
    and w: "parse_width [last r] = Some w"
    by (auto simp: parse_symbol_def split: option.splits if_splits
        dest!: strip_prefix_SomeD strip_suffix_SomeD)
  from r have "r = butlast r @ [last r]" by simp
  with b parse_operation_SomeD [OF o] parse_width_SomeD [OF w]
  have "r = operation_name operation @ ''_'' @ width_suffix w" by simp
  with g show ?thesis by (simp add: symbol_def)
qed

lemma parse_symbol_iff: "parse_symbol g = Some (operation, w) \<longleftrightarrow> g = symbol operation w"
  using parse_symbol_symbol parse_symbol_SomeD by blast

text \<open>Different operations or widths have different names.\<close>

lemma symbol_inject: "symbol operation w = symbol operation' w' \<longleftrightarrow> operation = operation' \<and> w = w'"
  by (metis parse_symbol_symbol option.inject prod.inject)

section \<open>The names of the file\<close>

lemma signature_in_interface:
  assumes "fd \<in> set atomics_c"
  shows "\<exists>operation w. signature_of fd = expected_signature operation w"
proof -
  from assms have "signature_of fd \<in> set (map signature_of atomics_c)" by simp
  then show ?thesis
    unfolding signatures_atomics_c by (auto simp: interface_def)
qed

lemma named_for_its_signatureI:
  "signature_of fd = expected_signature operation w \<Longrightarrow> named_for_its_signature fd"
  by (simp add: named_for_its_signature_def signature_of_def expected_signature_def
      parse_symbol_symbol)

lemma atomics_c_named: "list_all named_for_its_signature atomics_c"
  by (auto simp: list_all_iff dest!: signature_in_interface intro: named_for_its_signatureI)

lemma parse_names_atomics_c:
  "map (parse_symbol \<circ> fname) atomics_c =
     map Some (concat (map (\<lambda>w. map (\<lambda>operation. (operation, w)) operations) widths))"
proof -
  have "map (parse_symbol \<circ> fname) atomics_c = map (parse_symbol \<circ> fst \<circ> snd) interface"
    by (simp add: fname_signature_of flip: signatures_atomics_c)
  then show ?thesis
    by (simp add: interface_def expected_signature_def map_concat comp_def parse_symbol_symbol)
qed


end
