(* ===== verification/Type_Safety.thy ===== *)
theory Type_Safety
  imports Call_Machine
begin

text \<open>
  Well-typed programs do not go wrong on the machine. A configuration is well typed for
  a result type when the frame on top runs a statement the checker accepts under
  declarations that the environment of the frame has values for, every path of that
  statement ends in a \<^verbatim>\<open>return\<close>, and every frame below is waiting for a call in a
  \<^verbatim>\<open>return\<close>. Every step of a well-typed program keeps this, so a call with arguments of
  the parameter types faults with a stack overflow only, and a value it returns has the
  result type of the function called.
\<close>

section \<open>Environments and configurations\<close>

text \<open>The environment binds the declared names, in the order of the declarations, to
  values of the declared types.\<close>

definition env_ok :: "env \<Rightarrow> tenv \<Rightarrow> bool" where
  "env_ok e G \<longleftrightarrow> list_all2 (\<lambda>(x, v) (t, y). x = y \<and> has_type v t) e G"

fun wt_config :: "program \<Rightarrow> ctype \<Rightarrow> config \<Rightarrow> bool" where
  "wt_config prog rt (Exec fr frs m) \<longleftrightarrow>
     (\<exists>G. env_ok (env fr) G \<and> check_stmt prog rt G (code fr) \<noteq> None) \<and>
     returns (code fr) \<and> list_all (pending_call \<circ> code) frs"
| "wt_config prog rt (Value v frs m) \<longleftrightarrow>
     has_type v rt \<and> list_all (pending_call \<circ> code) frs"
| "wt_config prog rt (Fault x) \<longleftrightarrow> x = Stack_overflow"

text \<open>What the checker promises of one step of a statement.\<close>

fun wt_outcome :: "program \<Rightarrow> ctype \<Rightarrow> tenv \<Rightarrow> bool \<Rightarrow> outcome \<Rightarrow> bool" where
  "wt_outcome prog rt G' r (Continue s e m) \<longleftrightarrow>
     (\<exists>G. env_ok e G \<and> check_stmt prog rt G s = Some G') \<and> (r \<longrightarrow> returns s)"
| "wt_outcome prog rt G' r (Do_return v) \<longleftrightarrow> has_type v rt"
| "wt_outcome prog rt G' r (Do_call g vs) \<longleftrightarrow>
     (\<exists>fd. lookup prog g = Some fd \<and> list_all2 has_type vs (map fst (params fd)) \<and> ret fd = rt)"
| "wt_outcome prog rt G' r (Do_fault x) \<longleftrightarrow> False"

section \<open>Values\<close>

lemma has_type_cases:
  "has_type v Int8_t \<longleftrightarrow> (\<exists>w. v = I8 w)"
  "has_type v Int16_t \<longleftrightarrow> (\<exists>w. v = I16 w)"
  "has_type v Int32_t \<longleftrightarrow> (\<exists>w. v = I32 w)"
  "has_type v Int64_t \<longleftrightarrow> (\<exists>w. v = I64 w)"
  "has_type v Bool_t \<longleftrightarrow> (\<exists>b. v = B b)"
  "has_type v (Pointer t) \<longleftrightarrow> (\<exists>q. v = P q)"
  by (cases v; simp)+

lemma has_type_const: "const_type v = Some t \<Longrightarrow> has_type v t"
  by (cases v) auto

lemma eval_binop_typed:
  assumes "has_type x t" and "has_type y t" and "is_integer t"
  shows "\<exists>z. eval_binop f x y = Some z \<and> has_type z t"
  using assms by (cases t) (auto simp: has_type_cases)

section \<open>Expressions\<close>

lemma env_ok_var:
  "env_ok e G \<Longrightarrow> var_type G x = Some t \<Longrightarrow> \<exists>v. map_of e x = Some v \<and> has_type v t"
  unfolding env_ok_def
  by (induction e G rule: list_all2_induct) (auto split: if_splits)

text \<open>An expression that has a type has a value of that type.\<close>

lemma eval_typed:
  "env_ok e G \<Longrightarrow> type_of G a = Some t \<Longrightarrow> \<exists>v. eval e m a = Some v \<and> has_type v t"
proof (induction a arbitrary: t)
  case (Var x)
  then show ?case by (simp add: env_ok_var)
next
  case (Const v)
  then show ?case by (simp add: has_type_const)
next
  case (Deref t' a)
  from Deref.prems have "type_of G a = Some (Pointer t)" and "t' = t"
    by (simp_all split: if_splits)
  with Deref.IH [OF Deref.prems(1)] show ?case
    by (auto simp: has_type_cases)
next
  case (Binop f a b)
  from Binop.prems(2) have "type_of G a = Some t" and "type_of G b = Some t" and "is_integer t"
    by (auto split: option.splits if_splits)
  with Binop.IH Binop.prems(1) obtain x y where "eval e m a = Some x" "has_type x t"
    "eval e m b = Some y" "has_type y t"
    by blast
  with eval_binop_typed [of x t y f] \<open>is_integer t\<close> show ?case by auto
next
  case (Equal a b)
  from Equal.prems(2) obtain t' where "type_of G a = Some t'" and "type_of G b = Some t'"
    and "t = Bool_t"
    by (auto split: option.splits if_splits)
  with Equal.IH Equal.prems(1) show ?case by fastforce
next
  case (Call g args)
  then show ?case by simp
qed

lemma eval_args_typed:
  assumes "env_ok e G"
  shows "map (type_of G) args = map Some ts \<Longrightarrow>
     \<exists>vs. those (map (eval e m) args) = Some vs \<and> list_all2 has_type vs ts"
proof (induction args arbitrary: ts)
  case Nil
  then show ?case by simp
next
  case (Cons a args)
  then obtain t ts' where ts: "ts = t # ts'" and a: "type_of G a = Some t"
    and rest: "map (type_of G) args = map Some ts'"
    by (cases ts) auto
  from eval_typed [OF assms a, of m] Cons.IH [OF rest] show ?case
    by (auto simp: ts)
qed

section \<open>Statements\<close>

lemma exec_stmt_Seq:
  "s1 \<noteq> Skip \<Longrightarrow> exec_stmt (Seq s1 s2) e m =
     (case exec_stmt s1 e m of
        Continue s1' e' m' \<Rightarrow> Continue (Seq s1' s2) e' m'
      | other \<Rightarrow> other)"
  by (cases s1) simp_all

lemma exec_stmt_Return:
  "exec_stmt (Return a) e m =
     (case a of
        Call g args \<Rightarrow>
          (case those (map (eval e m) args) of
             None \<Rightarrow> Do_fault Bad_expression
           | Some vs \<Rightarrow> Do_call g vs)
      | _ \<Rightarrow> (case eval e m a of None \<Rightarrow> Do_fault Bad_expression | Some v \<Rightarrow> Do_return v))"
  by (cases a) simp_all

lemma check_stmt_Return:
  "check_stmt prog rt G (Return a) =
     (case a of
        Call g args \<Rightarrow> if check_call prog rt G g args then Some G else None
      | _ \<Rightarrow> if type_of G a = Some rt then Some G else None)"
  by (cases a) simp_all

text \<open>The two statements that evaluate an expression and bind or return its value.\<close>

lemma exec_Decl_typed:
  assumes "env_ok e G" and "check_stmt prog rt G (Decl t x a) = Some G'"
  shows "wt_outcome prog rt G' (returns (Decl t x a)) (exec_stmt (Decl t x a) e m)"
proof -
  from assms(2) have a: "type_of G a = Some t" and G': "G' = (t, x) # G"
    by (simp_all split: if_splits)
  from eval_typed [OF assms(1) a, of m] obtain v where v: "eval e m a = Some v" "has_type v t"
    by blast
  with assms(1) have "env_ok ((x, v) # e) G'"
    by (simp add: env_ok_def G')
  with v show ?thesis by auto
qed

lemma exec_Return_typed:
  assumes "env_ok e G" and "check_stmt prog rt G (Return a) = Some G'"
  shows "wt_outcome prog rt G' (returns (Return a)) (exec_stmt (Return a) e m)"
proof (cases "\<exists>g args. a = Call g args")
  case True
  then obtain g args where a: "a = Call g args" by blast
  with assms(2) obtain fd where fd: "lookup prog g = Some fd" "ret fd = rt"
    and ts: "map (type_of G) args = map Some (map fst (params fd))"
    by (auto simp: check_call_def split: option.splits if_splits)
  from eval_args_typed [OF assms(1) ts, of m] fd show ?thesis
    by (auto simp: a)
next
  case False
  with assms(2) have "type_of G a = Some rt"
    by (cases a) (simp_all split: if_splits)
  from eval_typed [OF assms(1) this, of m] False show ?thesis
    by (cases a) auto
qed

text \<open>A statement the checker accepts makes a step the checker accepts, unless it is
  the empty statement.\<close>

lemma exec_stmt_typed:
  assumes "env_ok e G" and "check_stmt prog rt G s = Some G'" and "s \<noteq> Skip"
  shows "wt_outcome prog rt G' (returns s) (exec_stmt s e m)"
  using assms
proof (induction s arbitrary: e G G')
  case Skip
  then show ?case by simp
next
  case (Decl t x a)
  then show ?case by (simp only: exec_Decl_typed)
next
  case (Store p a)
  then obtain t where p: "type_of G p = Some (Pointer t)" and a: "type_of G a = Some t"
    and G': "G' = G"
    by (auto split: option.splits ctype.splits if_splits)
  from eval_typed [OF Store.prems(1) p, of m] eval_typed [OF Store.prems(1) a, of m] Store.prems(1)
  show ?case by (auto simp: has_type_cases G')
next
  case (Seq s1 s2)
  show ?case
  proof (cases "s1 = Skip")
    case True
    with Seq.prems show ?thesis by auto
  next
    case False
    from Seq.prems(2) obtain G1 where s1: "check_stmt prog rt G s1 = Some G1"
      and s2: "check_stmt prog rt G1 s2 = Some G'"
      by (auto split: option.splits)
    from Seq.IH(1) [OF Seq.prems(1) s1 False] s2 show ?thesis
      by (cases "exec_stmt s1 e m") (auto simp: exec_stmt_Seq [OF False])
  qed
next
  case (If c s1 s2)
  then have c: "type_of G c = Some Bool_t" and b: "check_stmt prog rt G s1 = Some G"
    "check_stmt prog rt G s2 = Some G" and G': "G' = G"
    by (simp_all split: if_splits)
  from eval_typed [OF If.prems(1) c, of m] If.prems(1) b show ?case
    by (auto simp: has_type_cases G')
next
  case (Return a)
  then show ?case by (simp only: exec_Return_typed)
qed

text \<open>A frame is left for a call only by a statement that waits for it.\<close>

lemma exec_stmt_pending: "exec_stmt s e m = Do_call g vs \<Longrightarrow> pending_call s"
proof (induction s)
  case (Seq s1 s2)
  then show ?case
    by (cases "s1 = Skip") (auto simp: exec_stmt_Seq split: outcome.splits)
next
  case (Return a)
  then show ?case
    by (cases a) (auto split: option.splits)
qed (auto split: option.splits val.splits if_splits prod.splits)

section \<open>Configurations\<close>

lemma wt_fundef_lookup:
  "wt_program prog \<Longrightarrow> lookup prog g = Some fd \<Longrightarrow> wt_fundef prog fd"
  by (auto simp: wt_program_def list_all_iff dest: lookup_in_set)

lemma env_ok_enter:
  assumes "list_all2 has_type vs (map fst ps)"
  shows "env_ok (zip (map snd ps) vs) ps"
  using assms unfolding env_ok_def
  by (induction vs ps rule: list_induct2') auto

text \<open>Calling a function of a well-typed program with arguments of the parameter types
  gives a well-typed configuration, for the result type of the function.\<close>

lemma wt_config_do_call:
  assumes "wt_program (program M)" and "lookup (program M) g = Some fd"
    and "list_all2 has_type vs (map fst (params fd))"
    and "list_all (pending_call \<circ> code) frs"
  shows "wt_config (program M) (ret fd) (do_call M g vs frs m)"
proof -
  from wt_fundef_lookup [OF assms(1,2)]
  have "returns (body fd)" and "check_stmt (program M) (ret fd) (params fd) (body fd) \<noteq> None"
    by (simp_all add: wt_fundef_def)
  with assms(2-4) env_ok_enter [OF assms(3)] show ?thesis
    by (auto simp: do_call_def enter_def)
qed

lemma wt_config_step:
  assumes "wt_program (program M)" and "wt_config (program M) rt c" and "step M c = Some c'"
  shows "wt_config (program M) rt c'"
proof (cases c)
  case (Exec fr frs m)
  with assms(2) obtain G G' where G: "env_ok (env fr) G"
    "check_stmt (program M) rt G (code fr) = Some G'"
    and r: "returns (code fr)" and frs: "list_all (pending_call \<circ> code) frs"
    by auto
  from r have "code fr \<noteq> Skip" by auto
  note o = exec_stmt_typed [OF G this, of m]
  show ?thesis
  proof (cases "exec_stmt (code fr) (env fr) m")
    case (Continue s e m')
    with o r assms(3) frs show ?thesis by (fastforce simp: Exec)
  next
    case (Do_return v)
    with o assms(3) frs show ?thesis by (auto simp: Exec)
  next
    case (Do_call g vs)
    with o obtain fd where fd: "lookup (program M) g = Some fd"
      "list_all2 has_type vs (map fst (params fd))" "ret fd = rt"
      by auto
    from exec_stmt_pending [OF Do_call] frs
    have "list_all (pending_call \<circ> code) (if tail_calls M then frs else fr # frs)"
      by simp
    from wt_config_do_call [OF assms(1) fd(1,2) this, of m] Do_call assms(3) fd(3) show ?thesis
      by (simp add: Exec)
  next
    case (Do_fault x)
    with o show ?thesis by simp
  qed
next
  case (Value v frs m)
  with assms(2,3) show ?thesis
    by (cases frs) auto
next
  case (Fault x)
  with assms(3) show ?thesis by simp
qed

section \<open>Type safety\<close>

lemma reaches_wt_config:
  assumes "wt_program (program M)" and "wt_config (program M) rt c" and "reaches M c c'"
  shows "wt_config (program M) rt c'"
  using assms(3,1,2) by (induction rule: reaches.induct) (auto intro: wt_config_step)

text \<open>A call of a function of a well-typed program with arguments of the parameter
  types reaches no fault but the stack overflow, makes a step from every configuration
  that is neither that fault nor a result, and returns a value of the result type of the
  function if it returns.\<close>

lemma type_safety:
  assumes "wt_program (program M)" and "lookup (program M) g = Some fd"
    and "list_all2 has_type vs (map fst (params fd))"
    and "reaches M (call_config M g vs m) c"
  shows "c \<in> range Fault \<longrightarrow> c = Fault Stack_overflow"
    and "result c = Some (v, m') \<longrightarrow> has_type v (ret fd)"
    and "step M c = None \<longrightarrow> c = Fault Stack_overflow \<or> result c \<noteq> None"
proof -
  have "wt_config (program M) (ret fd) (call_config M g vs m)"
    unfolding call_config_def by (rule wt_config_do_call [OF assms(1-3)]) simp
  from reaches_wt_config [OF assms(1) this assms(4)]
  have c: "wt_config (program M) (ret fd) c" .
  from c show "c \<in> range Fault \<longrightarrow> c = Fault Stack_overflow"
    by auto
  from c show "result c = Some (v, m') \<longrightarrow> has_type v (ret fd)"
    by (auto elim!: result_SomeE)
  from c show "step M c = None \<longrightarrow> c = Fault Stack_overflow \<or> result c \<noteq> None"
    by (auto simp: step_None_iff)
qed

text \<open>The checker rejects what the machine faults on: a body that falls off its end, a
  result of another type than the function returns, a call with an argument missing. The
  first and the last of these programs do fault when called.\<close>

lemma checker_rejects:
  "\<not> wt_fundef prog (Fundef Int8_t ''f'' [(Int8_t, ''x'')] (Decl Int8_t ''y'' (Var ''x'')))"
  "\<not> wt_fundef prog (Fundef Bool_t ''f'' [(Int8_t, ''x'')] (Return (Var ''x'')))"
  "\<not> wt_fundef [Fundef Int8_t ''f'' [(Int8_t, ''x'')] (Return (Call ''f'' []))]
       (Fundef Int8_t ''f'' [(Int8_t, ''x'')] (Return (Call ''f'' [])))"
  by (simp_all add: wt_fundef_def check_call_def)

lemma ill_typed_calls_fault:
  "run \<lparr>program = [Fundef Int8_t ''f'' [(Int8_t, ''x'')] (Decl Int8_t ''y'' (Var ''x''))],
         stack_limit = None, tail_calls = False\<rparr> 2
     (call_config \<lparr>program = [Fundef Int8_t ''f'' [(Int8_t, ''x'')] (Decl Int8_t ''y'' (Var ''x''))],
         stack_limit = None, tail_calls = False\<rparr> ''f'' [I8 1] m) = Fault Missing_return"
  "run \<lparr>program = [Fundef Int8_t ''f'' [(Int8_t, ''x'')] (Return (Call ''f'' []))],
         stack_limit = None, tail_calls = False\<rparr> 1
     (call_config \<lparr>program = [Fundef Int8_t ''f'' [(Int8_t, ''x'')] (Return (Call ''f'' []))],
         stack_limit = None, tail_calls = False\<rparr> ''f'' [I8 1] m) = Fault (Bad_arguments ''f'')"
  by (simp_all add: call_config_def do_call_def enter_def stack_full_def eval_nat_numeral)

end
