(* ===== verification/Builtin_Calls.thy ===== *)
theory Builtin_Calls
  imports Call_Machine
begin

text \<open>
  What the machine of \<open>Call_Machine\<close> does when a function of \<^verbatim>\<open>atomics.c\<close> is called.
  \<open>links M fd\<close> says that the machine resolves the name of \<open>fd\<close>, a function of the
  file, to \<open>fd\<close>; \<open>machine_of\<close> is the machine that has only the file loaded.

  The lemmas give the run of such a call in closed form. Without frame reuse the stack
  after \<open>n\<close> steps holds \<open>n + 1\<close> copies of the entry frame until the limit is hit; with
  frame reuse the configuration never changes. Either way no result is produced for any
  amount of fuel, and the memory is never written: \<open>spinning\<close> is the invariant of the
  configurations a call reaches.
\<close>

section \<open>The file on the machine\<close>

definition links :: "machine \<Rightarrow> fundef \<Rightarrow> bool" where
  "links M fd \<longleftrightarrow> fd \<in> set atomics_c \<and> lookup (program M) (fname fd) = Some fd"

definition spinning :: "fundef \<Rightarrow> val list \<Rightarrow> memory \<Rightarrow> config \<Rightarrow> bool" where
  "spinning fd vs m c \<longleftrightarrow>
     (case c of
        Exec fr frs m' \<Rightarrow> enter fd vs = Some fr \<and> m' = m \<and> set frs \<subseteq> {fr}
      | Value v frs m' \<Rightarrow> False
      | Fault x \<Rightarrow>
          x = (if enter fd vs = None then Bad_arguments (fname fd) else Stack_overflow))"

text \<open>The machine that has only the file loaded.\<close>

definition machine_of :: "nat option \<Rightarrow> bool \<Rightarrow> machine" where
  "machine_of l t = \<lparr>program = atomics_c, stack_limit = l, tail_calls = t\<rparr>"

section \<open>One step of a call\<close>

lemma builtin_exec:
  assumes "fd \<in> set atomics_c" and "enter fd vs = Some fr"
  shows "exec_stmt (code fr) (env fr) m = Do_call (fname fd) vs"
proof -
  from assms(1) have b: "body fd = Return (Call (fname fd) (map (Var \<circ> snd) (params fd)))"
    and d: "distinct (map snd (params fd))"
    using all_self_call distinct_params by (auto simp: list_all_iff self_call_def)
  from enter_SomeD [OF assms(2)] have fr: "fr = Frame (zip (map snd (params fd)) vs) (body fd)"
    and l: "length vs = length (map snd (params fd))" by simp_all
  have "map (eval (env fr) m) (map (Var \<circ> snd) (params fd)) = map Some vs"
    using eval_params [OF d l, of m] by (simp add: fr)
  then show ?thesis by (simp add: fr b)
qed

lemma builtin_do_call:
  assumes "links M fd" and "enter fd vs = Some fr"
  shows "do_call M (fname fd) vs frs m =
     (if stack_full M (length frs) then Fault Stack_overflow else Exec fr frs m)"
  using assms by (simp add: do_call_def links_def)

lemma builtin_step:
  assumes "links M fd" and "enter fd vs = Some fr"
  shows "step M (Exec fr frs m) =
     Some (if tail_calls M
           then (if stack_full M (length frs) then Fault Stack_overflow else Exec fr frs m)
           else (if stack_full M (Suc (length frs)) then Fault Stack_overflow else Exec fr (fr # frs) m))"
  using assms builtin_exec [of fd vs fr m] by (simp add: builtin_do_call links_def)

lemma run_builtin:
  assumes "links M fd" and "enter fd vs = Some fr" and "\<not> tail_calls M"
  shows "run M n (Exec fr frs m) =
     (if stack_full M (length frs + n) \<and> 0 < n then Fault Stack_overflow
      else Exec fr (replicate n fr @ frs) m)"
proof (induction n arbitrary: frs)
  case 0
  show ?case by simp
next
  case (Suc n)
  show ?case
  proof (cases "stack_full M (Suc (length frs))")
    case True
    then have "stack_full M (length frs + Suc n)"
      by (rule stack_full_mono) simp
    with True assms show ?thesis by (simp add: builtin_step del: step.simps)
  next
    case False
    with assms Suc [of "fr # frs"] show ?thesis
      by (cases n) (auto simp: builtin_step replicate_app_Cons_same simp del: step.simps)
  qed
qed

lemma run_builtin_tail:
  assumes "links M fd" and "enter fd vs = Some fr" and "tail_calls M" and "\<not> stack_full M (length frs)"
  shows "run M n (Exec fr frs m) = Exec fr frs m"
  using assms by (induction n) (simp_all add: builtin_step del: step.simps)

lemma call_config_builtin:
  assumes "links M fd" and "enter fd vs = Some fr"
  shows "call_config M (fname fd) vs m =
     (if stack_full M 0 then Fault Stack_overflow else Exec fr [] m)"
  using assms by (simp add: call_config_def builtin_do_call)

lemma call_config_bad_arguments:
  assumes "links M fd" and "enter fd vs = None"
  shows "call_config M (fname fd) vs m = Fault (Bad_arguments (fname fd))"
  using assms by (simp add: call_config_def do_call_def links_def)

lemma program_machine_of [simp]: "program (machine_of l t) = atomics_c"
  by (simp add: machine_of_def)

lemma machine_of_simps [simp]:
  "stack_limit (machine_of l t) = l" "tail_calls (machine_of l t) = t"
  by (simp_all add: machine_of_def)

lemma links_machine_of: "fd \<in> set atomics_c \<Longrightarrow> links (machine_of l t) fd"
  by (simp add: links_def machine_of_def lookup_atomics_c)

lemma nth_atomics_c: "i < 60 \<Longrightarrow> atomics_c ! i \<in> set atomics_c"
  by (simp add: length_atomics_c)

section \<open>The run of a call, in closed form\<close>

lemma run_call:
  assumes "links M fd" and "enter fd vs = Some fr"
  shows "run M n (call_config M (fname fd) vs m) =
     (if tail_calls M
      then (if stack_full M 0 then Fault Stack_overflow else Exec fr [] m)
      else (if stack_full M n then Fault Stack_overflow else Exec fr (replicate n fr) m))"
proof (cases "stack_full M 0")
  case True
  then have "stack_full M n" by (rule stack_full_mono) simp
  with True assms show ?thesis by (simp add: call_config_builtin)
next
  case False
  show ?thesis
  proof (cases "tail_calls M")
    case True
    with False assms show ?thesis by (simp add: call_config_builtin run_builtin_tail)
  next
    case nt: False
    with False run_builtin [OF assms nt, of n "[]" m] assms show ?thesis
      by (cases n) (simp_all add: call_config_builtin)
  qed
qed

lemma call_fuel_builtin: "links M fd \<Longrightarrow> call_fuel M n (fname fd) vs m = None"
  by (cases "enter fd vs")
    (simp_all add: call_fuel_def call_config_bad_arguments run_call)

text \<open>On the machine that has only the file loaded, no call of any name returns: a name
  the file does not define is the fault \<open>Unknown_function\<close>.\<close>

lemma call_fuel_atomics_c:
  assumes "program M = atomics_c"
  shows "call_fuel M n g vs m = None"
proof (cases "lookup atomics_c g")
  case None
  with assms show ?thesis by (simp add: call_fuel_def call_config_def do_call_def)
next
  case (Some fd)
  with assms have "links M fd" and "fname fd = g"
    using lookup_in_set [OF Some] by (simp_all add: links_def)
  then show ?thesis using call_fuel_builtin [of M fd n vs m] by simp
qed

text \<open>
  C8. The run of a call of a function of the file, when a call pushes a frame. Let the
  machine resolve the function's name to its definition in the file, let \<open>fr\<close> be the
  frame the arguments enter it with. Then after \<open>n\<close> steps the stack consists of
  \<open>n + 1\<close> copies of \<open>fr\<close> over the unchanged memory, unless the stack limit is at most
  \<open>n\<close>, in which case the machine has stopped with a stack overflow.
\<close>

theorem run_builtin_call:
  assumes "links M fd" and "enter fd vs = Some fr" and "\<not> tail_calls M"
  shows "run M n (call_config M (fname fd) vs m) =
     (if stack_full M n then Fault Stack_overflow else Exec fr (replicate n fr) m)"
  using assms by (simp add: run_call)

theorem run_builtin_call_witness:
  "links (machine_of (Some 2) False) (atomics_c ! 0) \<and>
   enter (atomics_c ! 0) [P 16, I8 1]
     = Some (Frame [(''ptr'', P 16), (''arg'', I8 1)]
         (Return (Call ''__sync_fetch_and_add_1'' [Var ''ptr'', Var ''arg'']))) \<and>
   \<not> tail_calls (machine_of (Some 2) False) \<and>
   run (machine_of (Some 2) False) 1 (call_config (machine_of (Some 2) False)
       (fname (atomics_c ! 0)) [P 16, I8 1] (\<lambda>_. 0))
     = Exec (Frame [(''ptr'', P 16), (''arg'', I8 1)]
         (Return (Call ''__sync_fetch_and_add_1'' [Var ''ptr'', Var ''arg''])))
       [Frame [(''ptr'', P 16), (''arg'', I8 1)]
         (Return (Call ''__sync_fetch_and_add_1'' [Var ''ptr'', Var ''arg'']))] (\<lambda>_. 0)"
proof -
  let ?M = "machine_of (Some 2) False"
  let ?fr = "Frame [(''ptr'', P 16), (''arg'', I8 1)]
         (Return (Call ''__sync_fetch_and_add_1'' [Var ''ptr'', Var ''arg'']))"
  have l: "links ?M (atomics_c ! 0)"
    by (rule links_machine_of, rule nth_atomics_c) simp
  have e: "enter (atomics_c ! 0) [P 16, I8 1] = Some ?fr"
    by (simp add: enter_def atomics_c_defs)
  have t: "\<not> tail_calls ?M" by (simp add: machine_of_def)
  have "\<not> stack_full ?M 1" by (simp add: stack_full_def machine_of_def)
  with run_builtin_call [OF l e t, of 1 "\<lambda>_. 0"] l e t show ?thesis by simp
qed

text \<open>
  C11. The run of a call when the compiler turns the call in \<^verbatim>\<open>return f(...)\<close> into a
  jump: the frame is reused, the configuration after any number of steps is the one the
  call started in, and the stack never grows. The call spins in place instead of
  overflowing the stack.
\<close>

theorem run_builtin_tail_call:
  assumes "links M fd" and "enter fd vs = Some fr" and "tail_calls M"
  shows "run M n (call_config M (fname fd) vs m) = call_config M (fname fd) vs m"
  using assms by (simp add: run_call) (simp add: call_config_builtin)

theorem run_builtin_tail_call_witness:
  "links (machine_of (Some 1) True) (atomics_c ! 12) \<and>
   enter (atomics_c ! 12) [P 16, I8 1]
     = Some (Frame [(''ptr'', P 16), (''arg'', I8 1)]
         (Return (Call ''__sync_lock_test_and_set_1'' [Var ''ptr'', Var ''arg'']))) \<and>
   tail_calls (machine_of (Some 1) True) \<and>
   run (machine_of (Some 1) True) 5 (call_config (machine_of (Some 1) True)
       (fname (atomics_c ! 12)) [P 16, I8 1] (\<lambda>_. 0))
     = Exec (Frame [(''ptr'', P 16), (''arg'', I8 1)]
         (Return (Call ''__sync_lock_test_and_set_1'' [Var ''ptr'', Var ''arg'']))) [] (\<lambda>_. 0)"
proof -
  let ?M = "machine_of (Some 1) True"
  let ?fr = "Frame [(''ptr'', P 16), (''arg'', I8 1)]
         (Return (Call ''__sync_lock_test_and_set_1'' [Var ''ptr'', Var ''arg'']))"
  have l: "links ?M (atomics_c ! 12)"
    by (rule links_machine_of, rule nth_atomics_c) simp
  have e: "enter (atomics_c ! 12) [P 16, I8 1] = Some ?fr"
    by (simp add: enter_def atomics_c_defs)
  have t: "tail_calls ?M" by (simp add: machine_of_def)
  have "\<not> stack_full ?M 0" by (simp add: stack_full_def machine_of_def)
  with run_builtin_tail_call [OF l e t, of 5 "\<lambda>_. 0"] l e t show ?thesis
    by (simp add: call_config_builtin)
qed

section \<open>No result, whatever the fuel\<close>

text \<open>
  C7. A call of a function of the file produces no result on the machine, for any
  amount of fuel, any arguments (of the parameter types or not), any memory, any stack
  limit and either treatment of tail calls: \<open>call_fuel\<close> is \<open>None\<close>. Enough fuel never
  gives a result.
\<close>

theorem builtin_call_never_returns:
  assumes "links M fd"
  shows "call_fuel M n (fname fd) vs m = None"
  using assms by (rule call_fuel_builtin)

theorem builtin_call_never_returns_witness:
  "links (machine_of None False) (atomics_c ! 44) \<and>
   fname (atomics_c ! 44) = ''__sync_bool_compare_and_swap_4'' \<and>
   call_fuel (machine_of None False) 1000 ''__sync_bool_compare_and_swap_4''
     [P 16, I32 7, I32 9] (\<lambda>_. 0) = None"
proof -
  have l: "links (machine_of None False) (atomics_c ! 44)"
    by (rule links_machine_of, rule nth_atomics_c) simp
  have n: "fname (atomics_c ! 44) = ''__sync_bool_compare_and_swap_4''"
    by (simp add: atomics_c_defs)
  from builtin_call_never_returns [OF l, of 1000 "[P 16, I32 7, I32 9]" "\<lambda>_. 0"] l n
  show ?thesis by simp
qed

section \<open>The memory is never written\<close>

lemma spinning_call_config:
  "links M fd \<Longrightarrow> spinning fd vs m (call_config M (fname fd) vs m)"
  by (cases "enter fd vs")
    (simp_all add: spinning_def call_config_builtin call_config_bad_arguments)

lemma spinning_step:
  assumes "links M fd" and "spinning fd vs m c" and "step M c = Some c'"
  shows "spinning fd vs m c'"
proof (cases c)
  case (Exec fr frs m')
  with assms(2) have e: "enter fd vs = Some fr" and m: "m' = m" and f: "set frs \<subseteq> {fr}"
    by (simp_all add: spinning_def)
  from assms(3) builtin_step [OF assms(1) e, of frs m] e f show ?thesis
    by (auto simp: Exec m spinning_def simp del: step.simps split: if_splits)
next
  case (Value v frs m')
  with assms(2) show ?thesis by (simp add: spinning_def)
next
  case (Fault x)
  with assms(3) show ?thesis by simp
qed

lemma reaches_spinning:
  assumes "links M fd" and "reaches M (call_config M (fname fd) vs m) c"
  shows "spinning fd vs m c"
  using assms(2)
proof (induction rule: reaches.induct)
  case here
  from assms(1) show ?case by (rule spinning_call_config)
next
  case (after c' c'')
  with assms(1) show ?case by (blast intro: spinning_step)
qed

text \<open>
  C9. A call of a function of the file never writes the memory and never comes back:
  every configuration the machine reaches from the call is a fault or has the memory the
  call started with, and none is a result.
\<close>

theorem builtin_call_keeps_memory:
  assumes "links M fd" and "reaches M (call_config M (fname fd) vs m) c"
  shows "memory_of c \<in> {None, Some m} \<and> result c = None"
  using reaches_spinning [OF assms] by (cases c) (auto simp: spinning_def)

theorem builtin_call_keeps_memory_witness:
  "links (machine_of None False) (atomics_c ! 0) \<and>
   reaches (machine_of None False)
     (call_config (machine_of None False) (fname (atomics_c ! 0)) [P 16, I8 1] (\<lambda>_. 7))
     (run (machine_of None False) 3
       (call_config (machine_of None False) (fname (atomics_c ! 0)) [P 16, I8 1] (\<lambda>_. 7))) \<and>
   memory_of (run (machine_of None False) 3
       (call_config (machine_of None False) (fname (atomics_c ! 0)) [P 16, I8 1] (\<lambda>_. 7)))
     \<in> {None, Some (\<lambda>_. 7)}"
proof -
  have l: "links (machine_of None False) (atomics_c ! 0)"
    by (rule links_machine_of, rule nth_atomics_c) simp
  note r = reaches_run [of "machine_of None False" _ 3]
  from builtin_call_keeps_memory [OF l r] l r show ?thesis by blast
qed

text \<open>
  C29. Every configuration a call of a function of the file reaches, when the arguments
  have the parameter types: the entry frame of the call on top of copies of itself, over
  the memory the call started on, or the fault \<open>Stack_overflow\<close>. No other frame, no
  other memory, no value and no other fault is ever reached: a call of the file can only
  go on calling itself or run out of stack.
\<close>

theorem builtin_call_reaches_only:
  assumes "links M fd" and "enter fd vs = Some fr"
    and "reaches M (call_config M (fname fd) vs m) c"
  shows "(\<exists>n. c = Exec fr (replicate n fr) m) \<or> c = Fault Stack_overflow"
proof (cases c)
  case (Exec fr' frs m')
  with reaches_spinning [OF assms(1,3)] assms(2)
  have "fr' = fr" and "m' = m" and "set frs \<subseteq> {fr}"
    by (simp_all add: spinning_def)
  then have "c = Exec fr (replicate (length frs) fr) m"
    by (simp add: Exec replicate_length_same subset_eq)
  then show ?thesis by blast
qed (use reaches_spinning [OF assms(1,3)] assms(2) in \<open>simp_all add: spinning_def\<close>)

theorem builtin_call_reaches_only_witness:
  "links (machine_of (Some 1) False) (atomics_c ! 0) \<and>
   enter (atomics_c ! 0) [P 16, I8 1]
     = Some (Frame [(''ptr'', P 16), (''arg'', I8 1)]
         (Return (Call ''__sync_fetch_and_add_1'' [Var ''ptr'', Var ''arg'']))) \<and>
   reaches (machine_of (Some 1) False)
     (call_config (machine_of (Some 1) False) (fname (atomics_c ! 0)) [P 16, I8 1] (\<lambda>_. 7))
     (run (machine_of (Some 1) False) 2
       (call_config (machine_of (Some 1) False) (fname (atomics_c ! 0)) [P 16, I8 1] (\<lambda>_. 7))) \<and>
   ((\<exists>n. run (machine_of (Some 1) False) 2
       (call_config (machine_of (Some 1) False) (fname (atomics_c ! 0)) [P 16, I8 1] (\<lambda>_. 7))
      = Exec (Frame [(''ptr'', P 16), (''arg'', I8 1)]
         (Return (Call ''__sync_fetch_and_add_1'' [Var ''ptr'', Var ''arg''])))
        (replicate n (Frame [(''ptr'', P 16), (''arg'', I8 1)]
         (Return (Call ''__sync_fetch_and_add_1'' [Var ''ptr'', Var ''arg''])))) (\<lambda>_. 7)) \<or>
    run (machine_of (Some 1) False) 2
       (call_config (machine_of (Some 1) False) (fname (atomics_c ! 0)) [P 16, I8 1] (\<lambda>_. 7))
      = Fault Stack_overflow)"
proof -
  have l: "links (machine_of (Some 1) False) (atomics_c ! 0)"
    by (rule links_machine_of, rule nth_atomics_c) simp
  have e: "enter (atomics_c ! 0) [P 16, I8 1]
     = Some (Frame [(''ptr'', P 16), (''arg'', I8 1)]
         (Return (Call ''__sync_fetch_and_add_1'' [Var ''ptr'', Var ''arg''])))"
    by (simp add: enter_def atomics_c_defs)
  note r = reaches_run [of "machine_of (Some 1) False" _ 2]
  from builtin_call_reaches_only [OF l e r] l e r show ?thesis by blast
qed

section \<open>The stack\<close>



text \<open>Without a stack limit the stack grows by one frame per step, for ever.\<close>

lemma builtin_call_stack_grows:
  assumes "links M fd" and "enter fd vs = Some fr" and "\<not> tail_calls M"
    and "stack_limit M = None"
  shows "depth (run M n (call_config M (fname fd) vs m)) = Suc n"
  using assms by (simp add: run_call stack_full_def)

text \<open>With frame reuse the call never holds more than its own frame.\<close>

lemma builtin_call_one_frame:
  assumes "links M fd" and "tail_calls M" and "reaches M (call_config M (fname fd) vs m) c"
  shows "depth c \<le> 1"
proof -
  from assms(3) obtain n where n: "run M n (call_config M (fname fd) vs m) = c"
    by (auto dest: reaches_imp_run)
  show ?thesis
  proof (cases "enter fd vs")
    case None
    with assms(1) n show ?thesis by (auto simp: call_config_bad_arguments)
  next
    case (Some fr)
    with assms(1,2) n show ?thesis by (auto simp: run_call split: if_splits)
  qed
qed



end
