(* ===== verification/Thread_Pool.thy ===== *)
theory Thread_Pool
  imports Builtin_Calls
begin

text \<open>
  Concurrent callers of the builtins. A pool is a list of threads, each with its own
  stack, and one memory they share. A step of the pool is a step of one thread on the
  shared memory; which thread moves is not determined, so the steps of the pool are a
  relation, and a schedule (the list of the threads that move, in order) picks one
  execution. Steps of different threads interleave at the granularity of the machine's
  steps: nothing here makes a builtin atomic.

  The theorems are about pools whose threads call functions of \<^verbatim>\<open>atomics.c\<close>: whatever
  the schedule, the shared memory stays what it was and no thread ever gets a result. The
  two concurrent tests of the interface are instances: the counter of the stress test
  never moves, and no thread ever acquires the spin lock.
\<close>

section \<open>Pools and their steps\<close>

record pool =
  threads :: "config list"
  shared :: memory

fun with_memory :: "config \<Rightarrow> memory \<Rightarrow> config" where
  "with_memory (Exec fr frs m) m' = Exec fr frs m'"
| "with_memory (Value v frs m) m' = Value v frs m'"
| "with_memory (Fault x) m' = Fault x"

definition spawn :: "machine \<Rightarrow> (string \<times> val list) list \<Rightarrow> memory \<Rightarrow> pool" where
  "spawn M calls m = \<lparr>threads = map (\<lambda>(g, vs). call_config M g vs m) calls, shared = m\<rparr>"

definition schedule :: "machine \<Rightarrow> nat \<Rightarrow> pool \<Rightarrow> pool option" where
  "schedule M i s =
     (if i < length (threads s)
      then (case step M (with_memory (threads s ! i) (shared s)) of
              None \<Rightarrow> None
            | Some c' \<Rightarrow>
                Some \<lparr>threads = (threads s)[i := c'],
                      shared = (case memory_of c' of None \<Rightarrow> shared s | Some m' \<Rightarrow> m')\<rparr>)
      else None)"

inductive par_step :: "machine \<Rightarrow> pool \<Rightarrow> pool \<Rightarrow> bool" for M where
  thread: "schedule M i s = Some s' \<Longrightarrow> par_step M s s'"

inductive par_reaches :: "machine \<Rightarrow> pool \<Rightarrow> pool \<Rightarrow> bool" for M s where
  initial: "par_reaches M s s"
| later: "par_reaches M s s' \<Longrightarrow> par_step M s' s'' \<Longrightarrow> par_reaches M s s''"

text \<open>The execution a schedule picks; a thread that cannot move is skipped.\<close>

fun run_schedule :: "machine \<Rightarrow> nat list \<Rightarrow> pool \<Rightarrow> pool" where
  "run_schedule M [] s = s"
| "run_schedule M (i # is) s =
     (case schedule M i s of None \<Rightarrow> run_schedule M is s | Some s' \<Rightarrow> run_schedule M is s')"

text \<open>What a thread has to show for itself: the result of its call, once it has one.\<close>

definition outcome_of :: "pool \<Rightarrow> nat \<Rightarrow> val option" where
  "outcome_of s i = map_option fst (result (threads s ! i))"

text \<open>The invariant of a pool of callers of the file: the shared memory is the initial
  one, and every thread, seen with the shared memory, is in a configuration that its own
  call reaches on the sequential machine.\<close>

definition pool_inv :: "machine \<Rightarrow> (string \<times> val list) list \<Rightarrow> memory \<Rightarrow> pool \<Rightarrow> bool" where
  "pool_inv M calls m s \<longleftrightarrow>
     shared s = m \<and> length (threads s) = length calls \<and>
     (\<forall>i < length calls.
        reaches M (call_config M (fst (calls ! i)) (snd (calls ! i)) m) (threads s ! i)
        \<and> with_memory (threads s ! i) m = threads s ! i)"

inductive_cases par_stepE: "par_step M s s'"

inductive_simps par_step_iff: "par_step M s s'"

section \<open>Schedules\<close>

lemma with_memory_idem [simp]: "with_memory (with_memory c m) m' = with_memory c m'"
  by (cases c) simp_all

lemma with_memory_call_config [simp]:
  "with_memory (call_config M g vs m) m' = call_config M g vs m'"
  by (simp add: call_config_def do_call_def split: option.splits)

lemma result_with_memory [simp]: "result (with_memory c m) = None \<longleftrightarrow> result c = None"
  by (cases c rule: result.cases) simp_all

text \<open>A step of thread \<open>j\<close> leaves the other threads where they are, and threads are
  neither created nor lost.\<close>

lemma schedule_other:
  "schedule M j s = Some s' \<Longrightarrow> i \<noteq> j \<Longrightarrow> threads s' ! i = threads s ! i"
  by (auto simp: schedule_def split: if_splits option.splits)

lemma schedule_length: "schedule M j s = Some s' \<Longrightarrow> length (threads s') = length (threads s)"
  by (auto simp: schedule_def split: if_splits option.splits)

lemma par_step_length: "par_step M s s' \<Longrightarrow> length (threads s') = length (threads s)"
  by (auto simp: par_step_iff schedule_length)

lemma par_reaches_length: "par_reaches M s s' \<Longrightarrow> length (threads s') = length (threads s)"
  by (induction rule: par_reaches.induct) (simp_all add: par_step_length)

lemma run_schedule_other:
  "i \<notin> set sched \<Longrightarrow> threads (run_schedule M sched s) ! i = threads s ! i"
  by (induction sched arbitrary: s) (auto split: option.splits dest: schedule_other)

lemma run_schedule_length [simp]: "length (threads (run_schedule M sched s)) = length (threads s)"
  by (induction sched arbitrary: s) (auto split: option.splits dest: schedule_length)

lemma run_schedule_append:
  "run_schedule M (a @ b) s = run_schedule M b (run_schedule M a s)"
  by (induction a arbitrary: s) (auto split: option.splits)

section \<open>Sequential facts the pool needs\<close>

lemma with_memory_memory_of: "memory_of c \<in> {None, Some m} \<Longrightarrow> with_memory c m = c"
  by (cases c) auto

lemma reaches_atomics_c:
  assumes "program M = atomics_c" and "reaches M (call_config M g vs m) c"
  shows "memory_of c \<in> {None, Some m} \<and> result c = None"
proof (cases "lookup atomics_c g")
  case None
  with assms(1) have f: "call_config M g vs m = Fault (Unknown_function g)"
    by (simp add: call_config_def do_call_def)
  from assms(2) have "c = Fault (Unknown_function g)"
    unfolding f by (induction rule: reaches.induct) simp_all
  then show ?thesis by simp
next
  case (Some fd)
  with assms(1) have "links M fd" and "fname fd = g"
    using lookup_in_set [OF Some] by (simp_all add: links_def)
  with assms(2) reaches_spinning [of M fd vs m c] show ?thesis
    by (cases c) (auto simp: spinning_def)
qed

section \<open>The invariant\<close>

lemma pool_inv_spawn:
  assumes "program M = atomics_c"
  shows "pool_inv M calls m (spawn M calls m)"
proof -
  have "with_memory (call_config M g vs m) m = call_config M g vs m" for g vs
    using reaches_atomics_c [OF assms reaches.here, of g vs m]
    by (intro with_memory_memory_of) simp
  then show ?thesis
    by (simp add: pool_inv_def spawn_def case_prod_unfold reaches.here)
qed

lemma pool_inv_step:
  assumes M: "program M = atomics_c" and inv: "pool_inv M calls m s" and st: "par_step M s s'"
  shows "pool_inv M calls m s'"
  using st
proof (rule par_stepE)
  fix i
  assume thread: "schedule M i s = Some s'"
  from thread obtain c' where i: "i < length (threads s)"
    and c': "step M (with_memory (threads s ! i) (shared s)) = Some c'"
    and s': "s' = \<lparr>threads = (threads s)[i := c'],
               shared = (case memory_of c' of None \<Rightarrow> shared s | Some m' \<Rightarrow> m')\<rparr>"
    by (auto simp: schedule_def split: if_splits option.splits)
  from inv have sh: "shared s = m" and len: "length (threads s) = length calls"
    and all: "\<And>j. j < length calls \<Longrightarrow>
        reaches M (call_config M (fst (calls ! j)) (snd (calls ! j)) m) (threads s ! j)
        \<and> with_memory (threads s ! j) m = threads s ! j"
    by (simp_all add: pool_inv_def)
  from all [of i] i len sh c'
  have r': "reaches M (call_config M (fst (calls ! i)) (snd (calls ! i)) m) c'"
    by (auto intro: reaches.after)
  from reaches_atomics_c [OF M r'] have mem: "memory_of c' \<in> {None, Some m}" by simp
  then have w': "with_memory c' m = c'" by (rule with_memory_memory_of)
  from mem sh have "shared s' = m" by (auto simp: s')
  moreover from len have "length (threads s') = length calls" by (simp add: s')
  moreover have "reaches M (call_config M (fst (calls ! j)) (snd (calls ! j)) m) (threads s' ! j)
        \<and> with_memory (threads s' ! j) m = threads s' ! j" if "j < length calls" for j
    using that all [of j] r' w' len by (cases "j = i") (simp_all add: s')
  ultimately show ?thesis by (simp add: pool_inv_def)
qed

lemma par_reaches_pool_inv:
  assumes "program M = atomics_c" and "par_reaches M (spawn M calls m) s"
  shows "pool_inv M calls m s"
  using assms(2)
proof (induction rule: par_reaches.induct)
  case initial
  from assms(1) show ?case by (rule pool_inv_spawn)
next
  case (later s' s'')
  with assms(1) show ?case by (blast intro: pool_inv_step)
qed

lemma pool_inv_outcome:
  assumes "program M = atomics_c" and "pool_inv M calls m s" and "i < length calls"
  shows "outcome_of s i = None"
  using assms reaches_atomics_c [OF assms(1)]
  by (auto simp: pool_inv_def outcome_of_def)

lemma par_reaches_run_schedule_from:
  "par_reaches M s0 s \<Longrightarrow> par_reaches M s0 (run_schedule M is s)"
proof (induction "is" arbitrary: s)
  case Nil
  then show ?case by simp
next
  case (Cons i "is")
  show ?case
  proof (cases "schedule M i s")
    case None
    with Cons show ?thesis by simp
  next
    case (Some s')
    with Cons.prems have "par_reaches M s0 s'"
      by (blast intro: par_reaches.later par_step.thread)
    with Some Cons.IH show ?thesis by simp
  qed
qed

lemma par_reaches_run_schedule: "par_reaches M s (run_schedule M is s)"
  by (rule par_reaches_run_schedule_from) (rule par_reaches.initial)

text \<open>On the file, \<open>n\<close> consecutive steps of a thread are \<open>n\<close> steps of its call on the
  sequential machine, also when they end in a fault.\<close>

lemma file_turn:
  assumes "program M = atomics_c" and "pool_inv M calls m s" and "i < length calls"
  shows "run_schedule M (replicate n i) s = s\<lparr>threads := (threads s)[i := run M n (threads s ! i)]\<rparr>"
  using assms(2)
proof (induction n arbitrary: s)
  case 0
  then show ?case by simp
next
  case (Suc n)
  from Suc.prems assms(3) have i: "i < length (threads s)"
    and w: "with_memory (threads s ! i) (shared s) = threads s ! i"
    by (simp_all add: pool_inv_def)
  show ?case
  proof (cases "step M (threads s ! i)")
    case None
    with Suc.IH [OF Suc.prems] w i show ?thesis
      by (simp add: schedule_def)
  next
    case (Some c')
    let ?s' = "\<lparr>threads = (threads s)[i := c'],
      shared = (case memory_of c' of None \<Rightarrow> shared s | Some m' \<Rightarrow> m')\<rparr>"
    from Some w i have sch: "schedule M i s = Some ?s'"
      by (simp add: schedule_def)
    then have inv': "pool_inv M calls m ?s'"
      by (intro pool_inv_step [OF assms(1) Suc.prems]) (rule par_step.thread)
    with Suc.prems have "shared ?s' = shared s"
      by (simp add: pool_inv_def)
    with Suc.IH [OF inv'] sch Some i show ?thesis
      by simp
  qed
qed


lemma pool_summary:
  assumes "program M = atomics_c" and "par_reaches M (spawn M calls m) s"
  shows "shared s = m \<and> length (threads s) = length calls \<and>
     (\<forall>i < length calls. outcome_of s i = None)"
proof -
  note inv = par_reaches_pool_inv [OF assms]
  then have "outcome_of s i = None" if "i < length calls" for i
    using that by (rule pool_inv_outcome [OF assms(1)])
  with inv show ?thesis by (simp add: pool_inv_def)
qed

section \<open>Concurrent calls of the builtins\<close>

text \<open>
  C19. Threads that call functions of the file, under any schedule: in every state the
  pool reaches, the shared memory is the memory the threads were started on, no thread
  has been added or lost, and no thread has a result. This holds for any number of
  threads, any functions called and any arguments, on the machine that has the file
  loaded.
\<close>

theorem concurrent_calls_never_return:
  assumes "program M = atomics_c" and "par_reaches M (spawn M calls m) s"
  shows "shared s = m \<and> length (threads s) = length calls \<and>
     (\<forall>i < length calls. outcome_of s i = None)"
  using pool_summary [OF assms] by simp

theorem concurrent_calls_never_return_witness:
  "program (machine_of None False) = atomics_c \<and>
   par_reaches (machine_of None False)
     (spawn (machine_of None False)
        [(''__sync_fetch_and_add_4'', [P 16, I32 1]), (''__sync_lock_test_and_set_1'', [P 32, I8 1])]
        (\<lambda>_. 0))
     (run_schedule (machine_of None False) [0, 1, 1, 0]
        (spawn (machine_of None False)
           [(''__sync_fetch_and_add_4'', [P 16, I32 1]), (''__sync_lock_test_and_set_1'', [P 32, I8 1])]
           (\<lambda>_. 0))) \<and>
   shared (run_schedule (machine_of None False) [0, 1, 1, 0]
        (spawn (machine_of None False)
           [(''__sync_fetch_and_add_4'', [P 16, I32 1]), (''__sync_lock_test_and_set_1'', [P 32, I8 1])]
           (\<lambda>_. 0))) = (\<lambda>_. 0) \<and>
   outcome_of (run_schedule (machine_of None False) [0, 1, 1, 0]
        (spawn (machine_of None False)
           [(''__sync_fetch_and_add_4'', [P 16, I32 1]), (''__sync_lock_test_and_set_1'', [P 32, I8 1])]
           (\<lambda>_. 0))) 1 = None"
proof -
  note r = par_reaches_run_schedule [of "machine_of None False" _ "[0, 1, 1, 0]"]
  from concurrent_calls_never_return [OF program_machine_of r] r show ?thesis by simp
qed





end
