(* ===== verification/Sync_Reference.thy ===== *)
theory Sync_Reference
  imports Builtin_Calls Type_Safety
begin

text \<open>
  A reference implementation of the interface of \<^verbatim>\<open>atomics.c\<close>, in the syntax the file
  is transcribed in: for every operation and width the function with the signature the
  file declares and the body the description of the operation asks for (read the
  location, write the new value, return the old or the new one). It is not code of the
  repository. It serves two purposes. It shows that the machine of \<open>Call_Machine\<close> runs
  calls that return, so that the divergence of the functions of the file is a property
  of their bodies and not of the machine; and it is the program the file is compared
  with: same signatures, same calls, and the result the contract of \<open>Sync_Contract\<close>
  gives, where the file gives none.

  The bodies run without interruption here; what the interface asks of concurrent
  callers is the subject of \<open>Thread_Pool\<close>.
\<close>

section \<open>The reference program\<close>

fun operand_names :: "sync_operation \<Rightarrow> string list" where
  "operand_names Val_compare_and_swap = [''old'', ''new'']"
| "operand_names Bool_compare_and_swap = [''old'', ''new'']"
| "operand_names _ = [''arg'']"

definition reference_params :: "sync_operation \<Rightarrow> ctype \<Rightarrow> (ctype \<times> string) list" where
  "reference_params operation t =
     (Pointer t, ''ptr'') # zip (operand_types operation t) (operand_names operation)"

fun reference_body :: "sync_operation \<Rightarrow> ctype \<Rightarrow> stmt" where
  "reference_body (Fetch_and_op f) t =
     Seq (Decl t ''cur'' (Deref t (Var ''ptr'')))
       (Seq (Store (Var ''ptr'') (Binop f (Var ''cur'') (Var ''arg'')))
         (Return (Var ''cur'')))"
| "reference_body (Op_and_fetch f) t =
     Seq (Decl t ''cur'' (Binop f (Deref t (Var ''ptr'')) (Var ''arg'')))
       (Seq (Store (Var ''ptr'') (Var ''cur''))
         (Return (Var ''cur'')))"
| "reference_body Lock_test_and_set t =
     Seq (Decl t ''cur'' (Deref t (Var ''ptr'')))
       (Seq (Store (Var ''ptr'') (Var ''arg''))
         (Return (Var ''cur'')))"
| "reference_body Val_compare_and_swap t =
     Seq (Decl t ''cur'' (Deref t (Var ''ptr'')))
       (Seq (If (Equal (Var ''cur'') (Var ''old'')) (Store (Var ''ptr'') (Var ''new'')) Skip)
         (Return (Var ''cur'')))"
| "reference_body Bool_compare_and_swap t =
     Seq (Decl t ''cur'' (Deref t (Var ''ptr'')))
       (Seq (If (Equal (Var ''cur'') (Var ''old'')) (Store (Var ''ptr'') (Var ''new'')) Skip)
         (Return (Equal (Var ''cur'') (Var ''old''))))"

definition reference_fundef :: "sync_operation \<Rightarrow> width \<Rightarrow> fundef" where
  "reference_fundef operation w =
     Fundef (result_type operation w) (symbol operation w)
       (reference_params operation (width_type w)) (reference_body operation (width_type w))"

definition reference_c :: program where
  "reference_c =
     concat (map (\<lambda>w. map (\<lambda>operation. reference_fundef operation w) operations) widths)"

definition reference_machine :: "nat option \<Rightarrow> bool \<Rightarrow> machine" where
  "reference_machine l t = \<lparr>program = reference_c, stack_limit = l, tail_calls = t\<rparr>"

text \<open>The file and the reference program, linked in turn into the same machine and called
  with the same arguments on the same memory: what each call returns with \<open>n\<close> steps of
  fuel, the file first.\<close>

definition file_and_reference ::
  "nat option \<Rightarrow> bool \<Rightarrow> nat \<Rightarrow> string \<Rightarrow> val list \<Rightarrow> memory
     \<Rightarrow> (val \<times> memory) option \<times> (val \<times> memory) option" where
  "file_and_reference l t n g vs m =
     (call_fuel (machine_of l t) n g vs m, call_fuel (reference_machine l t) n g vs m)"

text \<open>The number of steps the longest body takes: declaration, two steps for each of
  the two sequencing points, the store, the return.\<close>

definition reference_fuel :: nat where
  "reference_fuel = 6"

section \<open>What the reference program exports\<close>

lemma all_operations [simp]: "operation \<in> set operations"
proof (cases operation)
  case (Fetch_and_op f)
  then show ?thesis by (cases f) (simp_all add: operations_def operators_def)
next
  case (Op_and_fetch f)
  then show ?thesis by (cases f) (simp_all add: operations_def operators_def)
qed (simp_all add: operations_def)

lemma all_widths [simp]: "w \<in> set widths"
  by (cases w) (simp_all add: widths_def)

lemma reference_fundef_in_reference_c [simp]: "reference_fundef operation w \<in> set reference_c"
  using all_widths [of w] all_operations [of operation] by (fastforce simp: reference_c_def)

lemma in_reference_cD: "fd \<in> set reference_c \<Longrightarrow> \<exists>operation w. fd = reference_fundef operation w"
  by (auto simp: reference_c_def)

lemma length_operand_types [simp]:
  "length (operand_types operation t) = length (operand_names operation)"
  by (cases operation) simp_all

lemma signature_of_reference_fundef [simp]:
  "signature_of (reference_fundef operation w) = expected_signature operation w"
  by (simp add: signature_of_def reference_fundef_def reference_params_def expected_signature_def
      map_fst_zip)

lemma signatures_reference_c: "map signature_of reference_c = interface"
  by (simp add: reference_c_def interface_def map_concat comp_def)

lemma names_reference_c: "map fname reference_c = map fname atomics_c"
  using signatures_reference_c signatures_atomics_c
  by (simp add: fname_signature_of flip: map_map)

lemma lookup_reference_c [simp]:
  "lookup reference_c (symbol operation w) = Some (reference_fundef operation w)"
  using lookup_distinct [of reference_c "reference_fundef operation w"] distinct_atomics_c_names
  by (simp add: names_reference_c) (simp add: reference_fundef_def)

lemmas reference_c_defs =
  reference_c_def reference_fundef_def reference_params_def operations_def operators_def widths_def

section \<open>Typing\<close>

lemma wt_reference_fundef: "wt_fundef prog (reference_fundef operation w)"
  by (cases operation; cases w)
    (simp_all add: wt_fundef_def reference_fundef_def reference_params_def)

lemma wt_reference_c: "wt_program reference_c"
proof -
  have "list_all (wt_fundef reference_c) reference_c"
    by (auto simp: list_all_iff wt_reference_fundef dest: in_reference_cD)
  with distinct_atomics_c_names show ?thesis
    by (simp add: wt_program_def names_reference_c)
qed

text \<open>Both programs are well typed, so on either a call with arguments of the parameter
  types faults with a stack overflow only, and a value it returns has the result type of
  the function called.\<close>

lemma interface_calls_type_safe:
  assumes "program M = atomics_c \<or> program M = reference_c"
    and "lookup (program M) g = Some fd" and "list_all2 has_type vs (map fst (params fd))"
    and "reaches M (call_config M g vs m) c"
  shows "c \<in> range Fault \<longrightarrow> c = Fault Stack_overflow"
    and "result c = Some (v, m') \<longrightarrow> has_type v (ret fd)"
proof -
  from assms(1) have "wt_program (program M)"
    using atomics_c_well_typed_program wt_reference_c by auto
  from type_safety(1,2) [OF this assms(2-4)]
  show "c \<in> range Fault \<longrightarrow> c = Fault Stack_overflow"
    and "result c = Some (v, m') \<longrightarrow> has_type v (ret fd)"
    by blast+
qed

section \<open>Calls of the reference program\<close>

text \<open>A call enters the body with the parameters bound to the arguments, provided the
  arguments have the parameter types and the stack has room for one frame.\<close>

lemma call_config_reference:
  assumes "program M = reference_c" and "\<not> stack_full M 0"
    and "list_all2 has_type vs (Pointer (width_type w) # operand_types operation (width_type w))"
  shows "call_config M (symbol operation w) vs m =
     Exec (Frame (zip (''ptr'' # operand_names operation) vs)
            (reference_body operation (width_type w))) [] m"
  using assms
  by (simp add: call_config_def do_call_def enter_def reference_fundef_def reference_params_def
      map_fst_zip map_snd_zip)

lemmas reference_run_simps =
  call_fuel_def call_config_reference reference_fuel_def eval_nat_numeral contract_simps Let_def

lemma reference_call_fetch_and_op:
  assumes "program M = reference_c" and "\<not> stack_full M 0"
  shows "call_fuel M reference_fuel (symbol (Fetch_and_op f) W1) [P p, I8 a1] m
           = Some (apfst I8 (fetch_and_op f p a1 m))"
    and "call_fuel M reference_fuel (symbol (Fetch_and_op f) W2) [P p, I16 a2] m
           = Some (apfst I16 (fetch_and_op f p a2 m))"
    and "call_fuel M reference_fuel (symbol (Fetch_and_op f) W4) [P p, I32 a4] m
           = Some (apfst I32 (fetch_and_op f p a4 m))"
    and "call_fuel M reference_fuel (symbol (Fetch_and_op f) W8) [P p, I64 a8] m
           = Some (apfst I64 (fetch_and_op f p a8 m))"
  using assms by (simp_all add: reference_run_simps)

lemma reference_call_op_and_fetch:
  assumes "program M = reference_c" and "\<not> stack_full M 0"
  shows "call_fuel M reference_fuel (symbol (Op_and_fetch f) W1) [P p, I8 a1] m
           = Some (apfst I8 (op_and_fetch f p a1 m))"
    and "call_fuel M reference_fuel (symbol (Op_and_fetch f) W2) [P p, I16 a2] m
           = Some (apfst I16 (op_and_fetch f p a2 m))"
    and "call_fuel M reference_fuel (symbol (Op_and_fetch f) W4) [P p, I32 a4] m
           = Some (apfst I32 (op_and_fetch f p a4 m))"
    and "call_fuel M reference_fuel (symbol (Op_and_fetch f) W8) [P p, I64 a8] m
           = Some (apfst I64 (op_and_fetch f p a8 m))"
  using assms by (simp_all add: reference_run_simps)

lemma reference_call_lock_test_and_set:
  assumes "program M = reference_c" and "\<not> stack_full M 0"
  shows "call_fuel M reference_fuel (symbol Lock_test_and_set W1) [P p, I8 a1] m
           = Some (apfst I8 (lock_test_and_set p a1 m))"
    and "call_fuel M reference_fuel (symbol Lock_test_and_set W2) [P p, I16 a2] m
           = Some (apfst I16 (lock_test_and_set p a2 m))"
    and "call_fuel M reference_fuel (symbol Lock_test_and_set W4) [P p, I32 a4] m
           = Some (apfst I32 (lock_test_and_set p a4 m))"
    and "call_fuel M reference_fuel (symbol Lock_test_and_set W8) [P p, I64 a8] m
           = Some (apfst I64 (lock_test_and_set p a8 m))"
  using assms by (simp_all add: reference_run_simps)

lemma reference_call_val_compare_and_swap:
  assumes "program M = reference_c" and "\<not> stack_full M 0"
  shows "call_fuel M reference_fuel (symbol Val_compare_and_swap W1) [P p, I8 old1, I8 new1] m
           = Some (apfst I8 (val_compare_and_swap p old1 new1 m))"
    and "call_fuel M reference_fuel (symbol Val_compare_and_swap W2) [P p, I16 old2, I16 new2] m
           = Some (apfst I16 (val_compare_and_swap p old2 new2 m))"
    and "call_fuel M reference_fuel (symbol Val_compare_and_swap W4) [P p, I32 old4, I32 new4] m
           = Some (apfst I32 (val_compare_and_swap p old4 new4 m))"
    and "call_fuel M reference_fuel (symbol Val_compare_and_swap W8) [P p, I64 old8, I64 new8] m
           = Some (apfst I64 (val_compare_and_swap p old8 new8 m))"
  using assms by (simp_all add: reference_run_simps)

lemma reference_call_bool_compare_and_swap:
  assumes "program M = reference_c" and "\<not> stack_full M 0"
  shows "call_fuel M reference_fuel (symbol Bool_compare_and_swap W1) [P p, I8 old1, I8 new1] m
           = Some (apfst B (bool_compare_and_swap p old1 new1 m))"
    and "call_fuel M reference_fuel (symbol Bool_compare_and_swap W2) [P p, I16 old2, I16 new2] m
           = Some (apfst B (bool_compare_and_swap p old2 new2 m))"
    and "call_fuel M reference_fuel (symbol Bool_compare_and_swap W4) [P p, I32 old4, I32 new4] m
           = Some (apfst B (bool_compare_and_swap p old4 new4 m))"
    and "call_fuel M reference_fuel (symbol Bool_compare_and_swap W8) [P p, I64 old8, I64 new8] m
           = Some (apfst B (bool_compare_and_swap p old8 new8 m))"
  using assms by (simp_all add: reference_run_simps)

lemmas reference_calls =
  reference_call_fetch_and_op reference_call_op_and_fetch reference_call_lock_test_and_set
  reference_call_val_compare_and_swap reference_call_bool_compare_and_swap

section \<open>The file against the reference program\<close>

lemma reference_machine_simps [simp]:
  "program (reference_machine l t) = reference_c"
  "stack_full (reference_machine l t) 0 \<longleftrightarrow> l = Some 0"
  by (auto simp: reference_machine_def stack_full_def split: option.splits)

text \<open>With at least \<open>reference_fuel\<close> steps every call of the reference program has
  returned; the file's half of the comparison is \<open>call_fuel_atomics_c\<close>.\<close>

lemmas reference_returns = reference_calls [THEN call_fuel_stable]

lemmas file_and_reference_simps =
  file_and_reference_def call_fuel_atomics_c reference_returns

text \<open>
  C22. Fetch-and-op, the file against the reference program. The file and the reference
  program are linked in turn into the same machine (any stack limit other than 0, with
  or without frame reuse) and called with the same arguments on the same memory, with at
  least \<open>reference_fuel\<close> steps of fuel. For each of the six operators and
  each width, the call of \<^verbatim>\<open>__sync_fetch_and_<op>_<N>\<close> has
  returned from the reference program with the value the location held before the call,
  in the memory where the location holds that value combined with the operand: the
  result of the contract \<open>fetch_and_op\<close>. The call of the function of the
  file has returned nothing.
\<close>

theorem fetch_and_op_file_and_reference:
  assumes "reference_fuel \<le> n" and "l \<noteq> Some 0"
  shows "file_and_reference l t n (symbol (Fetch_and_op f) W1) [P p, I8 a1] m
       = (None, Some (apfst I8 (fetch_and_op f p a1 m))) \<and>
     file_and_reference l t n (symbol (Fetch_and_op f) W2) [P p, I16 a2] m
       = (None, Some (apfst I16 (fetch_and_op f p a2 m))) \<and>
     file_and_reference l t n (symbol (Fetch_and_op f) W4) [P p, I32 a4] m
       = (None, Some (apfst I32 (fetch_and_op f p a4 m))) \<and>
     file_and_reference l t n (symbol (Fetch_and_op f) W8) [P p, I64 a8] m
       = (None, Some (apfst I64 (fetch_and_op f p a8 m)))"
  using assms by (simp add: file_and_reference_simps)

theorem fetch_and_op_file_and_reference_witness:
  "reference_fuel \<le> 6 \<and> None \<noteq> Some (0 :: nat) \<and>
   file_and_reference None False 6 (symbol (Fetch_and_op Op_add) W4) [P 16, I32 5]
       (store (\<lambda>_. 0) 16 (10 :: int32_t))
     = (None, Some (I32 10, store (\<lambda>_. 0) 16 (15 :: int32_t)))"
  using fetch_and_op_file_and_reference
    [where n = 6 and l = None and t = False and p = 16
       and m = "store (\<lambda>_. 0) 16 (10 :: int32_t)" and f = Op_add and ?a4.0 = 5]
  by (simp add: reference_fuel_def contract_simps Let_def mem_simps)

text \<open>
  C23. Op-and-fetch, the file against the reference program. The file and the reference
  program are linked in turn into the same machine (any stack limit other than 0, with
  or without frame reuse) and called with the same arguments on the same memory, with at
  least \<open>reference_fuel\<close> steps of fuel. For each of the six operators and
  each width, the call of \<^verbatim>\<open>__sync_<op>_and_fetch_<N>\<close> has
  returned from the reference program with the value the location holds after the
  update: the result of the contract \<open>op_and_fetch\<close>. The call of the
  function of the file has returned nothing.
\<close>

theorem op_and_fetch_file_and_reference:
  assumes "reference_fuel \<le> n" and "l \<noteq> Some 0"
  shows "file_and_reference l t n (symbol (Op_and_fetch f) W1) [P p, I8 a1] m
       = (None, Some (apfst I8 (op_and_fetch f p a1 m))) \<and>
     file_and_reference l t n (symbol (Op_and_fetch f) W2) [P p, I16 a2] m
       = (None, Some (apfst I16 (op_and_fetch f p a2 m))) \<and>
     file_and_reference l t n (symbol (Op_and_fetch f) W4) [P p, I32 a4] m
       = (None, Some (apfst I32 (op_and_fetch f p a4 m))) \<and>
     file_and_reference l t n (symbol (Op_and_fetch f) W8) [P p, I64 a8] m
       = (None, Some (apfst I64 (op_and_fetch f p a8 m)))"
  using assms by (simp add: file_and_reference_simps)

theorem op_and_fetch_file_and_reference_witness:
  "reference_fuel \<le> 6 \<and> None \<noteq> Some (0 :: nat) \<and>
   file_and_reference None False 6 (symbol (Op_and_fetch Op_sub) W2) [P 16, I16 20]
       (store (\<lambda>_. 0) 16 (15 :: int16_t))
     = (None, Some (I16 (- 5), store (\<lambda>_. 0) 16 (- 5 :: int16_t)))"
  using op_and_fetch_file_and_reference
    [where n = 6 and l = None and t = False and p = 16
       and m = "store (\<lambda>_. 0) 16 (15 :: int16_t)" and f = Op_sub and ?a2.0 = 20]
  by (simp add: reference_fuel_def contract_simps Let_def mem_simps)

text \<open>
  C24. Test-and-set, the file against the reference program. The file and the reference
  program are linked in turn into the same machine (any stack limit other than 0, with
  or without frame reuse) and called with the same arguments on the same memory, with at
  least \<open>reference_fuel\<close> steps of fuel. At each width the call of
  \<^verbatim>\<open>__sync_lock_test_and_set_<N>\<close> has returned from the
  reference program with the previous value of the location, the operand stored: the
  result of the contract \<open>lock_test_and_set\<close>. The call of the function of
  the file has returned nothing.
\<close>

theorem lock_test_and_set_file_and_reference:
  assumes "reference_fuel \<le> n" and "l \<noteq> Some 0"
  shows "file_and_reference l t n (symbol Lock_test_and_set W1) [P p, I8 a1] m
       = (None, Some (apfst I8 (lock_test_and_set p a1 m))) \<and>
     file_and_reference l t n (symbol Lock_test_and_set W2) [P p, I16 a2] m
       = (None, Some (apfst I16 (lock_test_and_set p a2 m))) \<and>
     file_and_reference l t n (symbol Lock_test_and_set W4) [P p, I32 a4] m
       = (None, Some (apfst I32 (lock_test_and_set p a4 m))) \<and>
     file_and_reference l t n (symbol Lock_test_and_set W8) [P p, I64 a8] m
       = (None, Some (apfst I64 (lock_test_and_set p a8 m)))"
  using assms by (simp add: file_and_reference_simps)

theorem lock_test_and_set_file_and_reference_witness:
  "reference_fuel \<le> 6 \<and> None \<noteq> Some (0 :: nat) \<and>
   file_and_reference None False 6 (symbol Lock_test_and_set W1) [P 16, I8 1]
       (store (\<lambda>_. 0) 16 (0 :: int8_t))
     = (None, Some (I8 0, store (\<lambda>_. 0) 16 (1 :: int8_t)))"
  using lock_test_and_set_file_and_reference
    [where n = 6 and l = None and t = False and p = 16
       and m = "store (\<lambda>_. 0) 16 (0 :: int8_t)" and ?a1.0 = 1]
  by (simp add: reference_fuel_def contract_simps Let_def mem_simps)

text \<open>
  C25. Compare-and-swap returning the value, the file against the reference program. The
  file and the reference program are linked in turn into the same machine (any stack
  limit other than 0, with or without frame reuse) and called with the same arguments on
  the same memory, with at least \<open>reference_fuel\<close> steps of fuel. At each
  width the call of \<^verbatim>\<open>__sync_val_compare_and_swap_<N>\<close> has
  returned from the reference program with the value the location held, the new value
  stored exactly when that value was the expected one: the result of the contract
  \<open>val_compare_and_swap\<close>. The call of the function of the file has returned
  nothing.
\<close>

theorem val_compare_and_swap_file_and_reference:
  assumes "reference_fuel \<le> n" and "l \<noteq> Some 0"
  shows "file_and_reference l t n (symbol Val_compare_and_swap W1) [P p, I8 old1, I8 new1] m
       = (None, Some (apfst I8 (val_compare_and_swap p old1 new1 m))) \<and>
     file_and_reference l t n (symbol Val_compare_and_swap W2) [P p, I16 old2, I16 new2] m
       = (None, Some (apfst I16 (val_compare_and_swap p old2 new2 m))) \<and>
     file_and_reference l t n (symbol Val_compare_and_swap W4) [P p, I32 old4, I32 new4] m
       = (None, Some (apfst I32 (val_compare_and_swap p old4 new4 m))) \<and>
     file_and_reference l t n (symbol Val_compare_and_swap W8) [P p, I64 old8, I64 new8] m
       = (None, Some (apfst I64 (val_compare_and_swap p old8 new8 m)))"
  using assms by (simp add: file_and_reference_simps)

theorem val_compare_and_swap_file_and_reference_witness:
  "reference_fuel \<le> 6 \<and> None \<noteq> Some (0 :: nat) \<and>
   file_and_reference None False 6 (symbol Val_compare_and_swap W8) [P 16, I64 20, I64 99]
       (store (\<lambda>_. 0) 16 (20 :: int64_t))
     = (None, Some (I64 20, store (\<lambda>_. 0) 16 (99 :: int64_t)))"
  using val_compare_and_swap_file_and_reference
    [where n = 6 and l = None and t = False and p = 16
       and m = "store (\<lambda>_. 0) 16 (20 :: int64_t)" and ?old8.0 = 20 and ?new8.0 = 99]
  by (simp add: reference_fuel_def contract_simps Let_def mem_simps)

text \<open>
  C26. Compare-and-swap returning success, the file against the reference program. The
  file and the reference program are linked in turn into the same machine (any stack
  limit other than 0, with or without frame reuse) and called with the same arguments on
  the same memory, with at least \<open>reference_fuel\<close> steps of fuel. At each
  width the call of \<^verbatim>\<open>__sync_bool_compare_and_swap_<N>\<close> has
  returned from the reference program with whether the location held the expected value,
  the new value stored exactly in that case: the result of the contract
  \<open>bool_compare_and_swap\<close>. The call of the function of the file has
  returned nothing.
\<close>

theorem bool_compare_and_swap_file_and_reference:
  assumes "reference_fuel \<le> n" and "l \<noteq> Some 0"
  shows "file_and_reference l t n (symbol Bool_compare_and_swap W1) [P p, I8 old1, I8 new1] m
       = (None, Some (apfst B (bool_compare_and_swap p old1 new1 m))) \<and>
     file_and_reference l t n (symbol Bool_compare_and_swap W2) [P p, I16 old2, I16 new2] m
       = (None, Some (apfst B (bool_compare_and_swap p old2 new2 m))) \<and>
     file_and_reference l t n (symbol Bool_compare_and_swap W4) [P p, I32 old4, I32 new4] m
       = (None, Some (apfst B (bool_compare_and_swap p old4 new4 m))) \<and>
     file_and_reference l t n (symbol Bool_compare_and_swap W8) [P p, I64 old8, I64 new8] m
       = (None, Some (apfst B (bool_compare_and_swap p old8 new8 m)))"
  using assms by (simp add: file_and_reference_simps)

theorem bool_compare_and_swap_file_and_reference_witness:
  "reference_fuel \<le> 6 \<and> None \<noteq> Some (0 :: nat) \<and>
   file_and_reference None False 6 (symbol Bool_compare_and_swap W4) [P 16, I32 20, I32 1]
       (store (\<lambda>_. 0) 16 (99 :: int32_t))
     = (None, Some (B False, store (\<lambda>_. 0) 16 (99 :: int32_t)))"
  using bool_compare_and_swap_file_and_reference
    [where n = 6 and l = None and t = False and p = 16
       and m = "store (\<lambda>_. 0) 16 (99 :: int32_t)" and ?old4.0 = 20 and ?new4.0 = 1]
  by (simp add: reference_fuel_def contract_simps Let_def mem_simps)


section \<open>Type safety of both programs\<close>

text \<open>
  C30. Type safety of the interface. The file and the reference program are well typed,
  and the checker is sound for the machine. Let a function of either program be called
  with arguments of its parameter types, on any memory, with any stack limit and either
  treatment of tail calls. Then every configuration the call reaches is well formed: if
  it is a fault, the fault is the stack overflow; if it is a result, the value has the
  result type of the function; and if it cannot step, it is one of these two. No call
  gets stuck on an unbound variable, a value of the wrong type, an unknown function,
  arguments that do not fit, or a body that falls off its end.
\<close>

theorem interface_type_safety:
  assumes "program M = atomics_c \<or> program M = reference_c"
    and "lookup (program M) g = Some fd" and "list_all2 has_type vs (map fst (params fd))"
    and "reaches M (call_config M g vs m) c"
  shows "(c \<in> range Fault \<longrightarrow> c = Fault Stack_overflow) \<and>
     (result c = Some (v, m') \<longrightarrow> has_type v (ret fd)) \<and>
     (step M c = None \<longrightarrow> c = Fault Stack_overflow \<or> result c \<noteq> None)"
proof -
  from assms(1) have "wt_program (program M)"
    using atomics_c_well_typed_program wt_reference_c by auto
  from type_safety [OF this assms(2-4)] show ?thesis
    by blast
qed

theorem interface_type_safety_witness:
  "(program (reference_machine None False) = atomics_c \<or>
      program (reference_machine None False) = reference_c) \<and>
   lookup (program (reference_machine None False)) (symbol (Fetch_and_op Op_add) W4)
     = Some (reference_fundef (Fetch_and_op Op_add) W4) \<and>
   list_all2 has_type [P 16, I32 1]
     (map fst (params (reference_fundef (Fetch_and_op Op_add) W4))) \<and>
   reaches (reference_machine None False)
     (call_config (reference_machine None False) (symbol (Fetch_and_op Op_add) W4)
       [P 16, I32 1] (\<lambda>_. 0))
     (run (reference_machine None False) 6
       (call_config (reference_machine None False) (symbol (Fetch_and_op Op_add) W4)
         [P 16, I32 1] (\<lambda>_. 0))) \<and>
   result (run (reference_machine None False) 6
       (call_config (reference_machine None False) (symbol (Fetch_and_op Op_add) W4)
         [P 16, I32 1] (\<lambda>_. 0)))
     = Some (I32 (load (\<lambda>_. 0) 16), store (\<lambda>_. 0) 16 (load (\<lambda>_. 0) 16 + 1 :: int32_t)) \<and>
   has_type (I32 (load (\<lambda>_. 0) 16)) (ret (reference_fundef (Fetch_and_op Op_add) W4))"
proof -
  let ?M = "reference_machine None False"
  let ?c = "call_config ?M (symbol (Fetch_and_op Op_add) W4) [P 16, I32 1] (\<lambda>_. 0)"
  have a: "program ?M = atomics_c \<or> program ?M = reference_c"
    and b: "lookup (program ?M) (symbol (Fetch_and_op Op_add) W4)
      = Some (reference_fundef (Fetch_and_op Op_add) W4)"
    and c: "list_all2 has_type [P 16, I32 1]
      (map fst (params (reference_fundef (Fetch_and_op Op_add) W4)))"
    by (simp_all add: reference_fundef_def reference_params_def)
  note r = reaches_run [of ?M ?c 6]
  have d: "result (run ?M 6 ?c)
      = Some (I32 (load (\<lambda>_. 0) 16), store (\<lambda>_. 0) 16 (load (\<lambda>_. 0) 16 + 1 :: int32_t))"
    using reference_call_fetch_and_op(3) [of ?M Op_add 16 1 "\<lambda>_. 0"]
    by (simp add: call_fuel_def reference_fuel_def contract_simps Let_def)
  from interface_type_safety [OF a b c r,
      of "I32 (load (\<lambda>_. 0) 16)" "store (\<lambda>_. 0) 16 (load (\<lambda>_. 0) 16 + 1 :: int32_t)"] a b c r d
  show ?thesis by blast
qed

end
