(* ===== verification/Lost_Update.thy ===== *)
theory Lost_Update
  imports Thread_Pool Sync_Reference
begin

text \<open>
  Why the interface asks for more than the right body. Two threads increment one 32-bit
  counter through \<^verbatim>\<open>__sync_fetch_and_add_4\<close>. With the reference program, whose body reads
  the location, writes the sum and returns what it read, the two calls add two when they
  run one after the other; interleaved so that the second thread runs between the first
  thread's read and its write, both calls return the same value and the counter has
  moved by one: an update is lost. Bodies that meet the contract call by call are
  therefore not enough for concurrent callers; the read and the write have to be one
  indivisible step. With the file, the counter does not move under any schedule.
\<close>

section \<open>Two incrementing threads\<close>

definition increment_calls :: "addr \<Rightarrow> (string \<times> val list) list" where
  "increment_calls p = replicate 2 (symbol (Fetch_and_op Op_add) W4, [P p, I32 1])"

text \<open>The counter after the pool of the two calls on \<open>M\<close> has run the schedule.\<close>

definition counter_after :: "machine \<Rightarrow> nat list \<Rightarrow> addr \<Rightarrow> memory \<Rightarrow> int32_t" where
  "counter_after M sched p m = load (shared (run_schedule M sched (spawn M (increment_calls p) m))) p"

definition outcomes_after :: "machine \<Rightarrow> nat list \<Rightarrow> addr \<Rightarrow> memory \<Rightarrow> val option list" where
  "outcomes_after M sched p m =
     map (outcome_of (run_schedule M sched (spawn M (increment_calls p) m))) [0, 1]"

definition one_after_the_other :: "nat list" where
  "one_after_the_other = [0, 0, 0, 0, 0, 1, 1, 1, 1, 1]"

definition interleaved :: "nat list" where
  "interleaved = [0, 1, 1, 1, 1, 1, 0, 0, 0, 0]"

section \<open>The reference program under the two schedules\<close>

lemma spawn_increments:
  assumes "program M = reference_c" and "\<not> stack_full M 0"
  shows "spawn M (increment_calls p) m =
     \<lparr>threads = replicate 2 (Exec (Frame [(''ptr'', P p), (''arg'', I32 1)]
          (reference_body (Fetch_and_op Op_add) Int32_t)) [] m), shared = m\<rparr>"
  using assms by (simp add: increment_calls_def spawn_def call_config_reference)

lemmas pool_run_simps =
  counter_after_def outcomes_after_def spawn_increments schedule_def outcome_of_def numeral_2_eq_2

lemma sequential_increments:
  "counter_after (reference_machine None t) one_after_the_other p m = load m p + 2"
  "outcomes_after (reference_machine None t) one_after_the_other p m
     = [Some (I32 (load m p)), Some (I32 (load m p + 1))]"
  by (simp_all add: one_after_the_other_def pool_run_simps) (simp_all add: load_store_same)

lemma interleaved_increments:
  "counter_after (reference_machine None t) interleaved p m = load m p + 1"
  "outcomes_after (reference_machine None t) interleaved p m
     = [Some (I32 (load m p)), Some (I32 (load m p))]"
  by (simp_all add: interleaved_def pool_run_simps) (simp_all add: load_store_same)

section \<open>The file under every schedule\<close>

lemma file_increments:
  "counter_after (machine_of l t) sched p m = load m p"
  "outcomes_after (machine_of l t) sched p m = [None, None]"
proof -
  note r = par_reaches_run_schedule
    [of "machine_of l t" "spawn (machine_of l t) (increment_calls p) m" sched]
  from pool_summary [OF program_machine_of r]
  show "counter_after (machine_of l t) sched p m = load m p"
    and "outcomes_after (machine_of l t) sched p m = [None, None]"
    by (simp_all add: counter_after_def outcomes_after_def increment_calls_def)
qed


end
