(* ===== verification/Critical_Section.thy ===== *)
theory Critical_Section
  imports Thread_Pool Sync_Reference
begin

text \<open>
  What the interface asks of concurrent callers, and a discipline that provides it. A
  thread that is given \<open>n\<close> consecutive steps, enough for its call to return, executes
  its call as a critical section: no step of another thread falls between its read and
  its write. \<open>uninterrupted n is\<close> is the schedule in which the threads \<open>is\<close> take such
  turns in the order of the list.

  The theorem of this theory is that turns are linearizable, for any program: the pool
  ends in the memory, and every thread with the result, that the calls give when they
  are made one after the other on the sequential machine, in the order of the turns
  (\<open>in_sequence\<close>). For the reference program this yields what the stress test and
  the spin-lock test of the interface expect. For the file the hypothesis that the calls
  return is never met, with or without critical sections.
\<close>

section \<open>Turns and sequences of calls\<close>

definition uninterrupted :: "nat \<Rightarrow> nat list \<Rightarrow> nat list" where
  "uninterrupted n is = concat (map (replicate n) is)"

text \<open>The calls made one after the other on the sequential machine, each on the memory
  the previous one left: the results in order and the final memory, or \<open>None\<close> when a
  call has no result after \<open>n\<close> steps.\<close>

primrec in_sequence ::
  "machine \<Rightarrow> nat \<Rightarrow> (string \<times> val list) list \<Rightarrow> memory \<Rightarrow> (val list \<times> memory) option" where
  "in_sequence M n [] m = Some ([], m)"
| "in_sequence M n (c # cs) m =
     (case call_fuel M n (fst c) (snd c) m of
        None \<Rightarrow> None
      | Some (v, m') \<Rightarrow> map_option (apfst ((#) v)) (in_sequence M n cs m'))"

text \<open>The pool of the calls after a schedule, and the two tests of the interface: \<open>N\<close>
  threads that each add 1 to a 32-bit counter, and \<open>N\<close> threads that each try to take
  a 32-bit lock with the token 1.\<close>

definition pool_after :: "machine \<Rightarrow> nat list \<Rightarrow> (string \<times> val list) list \<Rightarrow> memory \<Rightarrow> pool" where
  "pool_after M sched calls m = run_schedule M sched (spawn M calls m)"

definition increments :: "nat \<Rightarrow> addr \<Rightarrow> (string \<times> val list) list" where
  "increments N p = replicate N (symbol (Fetch_and_op Op_add) W4, [P p, I32 1])"

definition acquisitions :: "nat \<Rightarrow> addr \<Rightarrow> (string \<times> val list) list" where
  "acquisitions N lock = replicate N (symbol Lock_test_and_set W4, [P lock, I32 1])"

section \<open>One turn\<close>

lemma uninterrupted_Cons: "uninterrupted n (i # is) = replicate n i @ uninterrupted n is"
  by (simp add: uninterrupted_def)

text \<open>A fault is final and has no memory, so a run that ends with a memory has had one
  all along.\<close>

lemma memory_of_step:
  assumes "step M c = Some c'" and "memory_of (run M n c') = Some m'"
  shows "memory_of c' \<noteq> None"
  using assms by (cases c') auto

text \<open>\<open>n\<close> consecutive steps of thread \<open>i\<close> are \<open>n\<close> steps of the sequential machine on
  the shared memory, provided they do not end in a fault.\<close>

lemma turn_in_sync:
  assumes "i < length (threads s)" and "memory_of (threads s ! i) = Some (shared s)"
    and "memory_of (run M n (threads s ! i)) = Some m'"
  shows "run_schedule M (replicate n i) s =
     \<lparr>threads = (threads s)[i := run M n (threads s ! i)], shared = m'\<rparr>"
  using assms
proof (induction n arbitrary: s)
  case 0
  then show ?case by simp
next
  case (Suc n)
  let ?c = "threads s ! i"
  from Suc.prems(2) have w: "with_memory ?c (shared s) = ?c"
    by (intro with_memory_memory_of) simp
  show ?case
  proof (cases "step M ?c")
    case None
    with Suc.IH [of s] Suc.prems w show ?thesis
      by (simp add: schedule_def)
  next
    case (Some c')
    with Suc.prems(3) have "memory_of (run M n c') = Some m'" by simp
    from memory_of_step [OF Some this] obtain m1 where m1: "memory_of c' = Some m1"
      by auto
    let ?s' = "\<lparr>threads = (threads s)[i := c'], shared = m1\<rparr>"
    from Some w Suc.prems(1) m1 have sch: "schedule M i s = Some ?s'"
      by (simp add: schedule_def)
    from Suc.prems Some m1 have "run_schedule M (replicate n i) ?s' =
        \<lparr>threads = (threads ?s')[i := run M n (threads ?s' ! i)], shared = m'\<rparr>"
      by (intro Suc.IH) simp_all
    with sch Some Suc.prems(1) show ?thesis by simp
  qed
qed

text \<open>The same for a thread whose configuration carries an older memory, as that of a
  thread that has not moved yet does: its first step takes the shared memory.\<close>

lemma turn:
  assumes "i < length (threads s)" and "c = with_memory (threads s ! i) (shared s)"
    and "step M c \<noteq> None" and "memory_of (run M n c) = Some m'" and "0 < n"
  shows "run_schedule M (replicate n i) s = \<lparr>threads = (threads s)[i := run M n c], shared = m'\<rparr>"
proof -
  from assms(5) obtain k where n: "n = Suc k" by (cases n) auto
  from assms(3) obtain c' where c': "step M c = Some c'" by blast
  with assms(4) have r: "memory_of (run M k c') = Some m'" by (simp add: n)
  from memory_of_step [OF c' r] obtain m1 where m1: "memory_of c' = Some m1" by auto
  let ?s' = "\<lparr>threads = (threads s)[i := c'], shared = m1\<rparr>"
  from assms(1,2) c' m1 have "schedule M i s = Some ?s'"
    by (simp add: schedule_def)
  moreover from assms(1) m1 r have "run_schedule M (replicate k i) ?s' =
      \<lparr>threads = (threads ?s')[i := run M k (threads ?s' ! i)], shared = m'\<rparr>"
    by (intro turn_in_sync) simp_all
  ultimately show ?thesis using assms(1) c' by (simp add: n)
qed

text \<open>The turn of a thread that has not moved yet is its call on the shared memory.\<close>

lemma turn_of_call:
  assumes "i < length (threads s)"
    and "with_memory (threads s ! i) (shared s) = call_config M g vs (shared s)"
    and "call_fuel M n g vs (shared s) = Some (v, m')"
  shows "run_schedule M (replicate n i) s = \<lparr>threads = (threads s)[i := Value v [] m'], shared = m'\<rparr>"
proof -
  let ?c = "call_config M g vs (shared s)"
  from assms(3) have v: "run M n ?c = Value v [] m'"
    by (auto simp: call_fuel_def elim: result_SomeE)
  have nr: "result ?c = None" by simp
  have n: "0 < n"
    using v nr by (cases n) auto
  have "step M ?c \<noteq> None"
  proof
    assume "step M ?c = None"
    then have "run M n ?c = ?c" by simp
    with v nr show False by simp
  qed
  with turn [of i s ?c M n m'] assms(1,2) v n show ?thesis by simp
qed

section \<open>Turns are linearizable\<close>

text \<open>The threads \<open>is\<close>, none of which has moved yet, take their turns in the order of
  the list. If the calls of these threads, made in that order on the sequential machine,
  return \<open>vs\<close> and leave \<open>m'\<close>, then the pool ends with the shared memory \<open>m'\<close>, the
  \<open>k\<close>-th thread of the list has the \<open>k\<close>-th result, and the other threads are where
  they were.\<close>

lemma turns_in_sequence:
  assumes "distinct is" and "\<forall>i \<in> set is. i < length (threads s)"
    and "\<forall>i \<in> set is. \<forall>m. with_memory (threads s ! i) m
           = call_config M (fst (calls ! i)) (snd (calls ! i)) m"
    and "in_sequence M n (map ((!) calls) is) (shared s) = Some (vs, m')"
  shows "shared (run_schedule M (uninterrupted n is) s) = m' \<and>
     (\<forall>k < length is. outcome_of (run_schedule M (uninterrupted n is) s) (is ! k) = Some (vs ! k)) \<and>
     (\<forall>j. j \<notin> set is \<longrightarrow> threads (run_schedule M (uninterrupted n is) s) ! j = threads s ! j)"
  using assms
proof (induction "is" arbitrary: s vs)
  case Nil
  then show ?case by (simp add: uninterrupted_def)
next
  case (Cons i "is")
  let ?g = "fst (calls ! i)" and ?as = "snd (calls ! i)"
  from Cons.prems(4) obtain v m1 vs' where c: "call_fuel M n ?g ?as (shared s) = Some (v, m1)"
    and rest: "in_sequence M n (map ((!) calls) is) m1 = Some (vs', m')" and vs: "vs = v # vs'"
    by (auto split: option.splits)
  let ?s1 = "\<lparr>threads = (threads s)[i := Value v [] m1], shared = m1\<rparr>"
  let ?end = "run_schedule M (uninterrupted n is) ?s1"
  from Cons.prems(2,3) c have t: "run_schedule M (replicate n i) s = ?s1"
    by (intro turn_of_call) simp_all
  then have e: "run_schedule M (uninterrupted n (i # is)) s = ?end"
    by (simp add: uninterrupted_Cons run_schedule_append)
  from Cons.prems(1) have i: "i \<notin> set is" and d: "distinct is" by simp_all
  with Cons.prems(2,3) rest
  have IH: "shared ?end = m' \<and>
     (\<forall>k < length is. outcome_of ?end (is ! k) = Some (vs' ! k)) \<and>
     (\<forall>j. j \<notin> set is \<longrightarrow> threads ?end ! j = threads ?s1 ! j)"
    by (intro Cons.IH) (auto simp: nth_list_update)
  with i Cons.prems(2) have "outcome_of ?end i = Some v"
    by (simp add: outcome_of_def)
  with IH have "outcome_of ?end ((i # is) ! k) = Some (vs ! k)" if "k < length (i # is)" for k
    using that by (cases k) (simp_all add: vs)
  moreover from IH have "threads ?end ! j = threads s ! j" if "j \<notin> set (i # is)" for j
    using that by simp
  ultimately show ?case using IH unfolding e by blast
qed

text \<open>For the threads of a pool that has just been started.\<close>

lemma turns_linearizable:
  assumes "distinct is" and "\<forall>i \<in> set is. i < length calls"
    and "in_sequence M n (map ((!) calls) is) m = Some (vs, m')"
  shows "shared (pool_after M (uninterrupted n is) calls m) = m' \<and>
     (\<forall>k < length is. outcome_of (pool_after M (uninterrupted n is) calls m) (is ! k) = Some (vs ! k))"
  using turns_in_sequence [of "is" "spawn M calls m" M calls n vs m'] assms
  by (simp add: pool_after_def spawn_def case_prod_unfold)

text \<open>On the file no thread gets anywhere, whatever the schedule.\<close>

lemma pool_after_file:
  "shared (pool_after (machine_of l t) sched calls m) = m"
  "i < length calls \<Longrightarrow> outcome_of (pool_after (machine_of l t) sched calls m) i = None"
proof -
  note r = par_reaches_run_schedule [of "machine_of l t" "spawn (machine_of l t) calls m" sched]
  from pool_summary [OF program_machine_of r]
  show "shared (pool_after (machine_of l t) sched calls m) = m"
    and "i < length calls \<Longrightarrow> outcome_of (pool_after (machine_of l t) sched calls m) i = None"
    by (simp_all add: pool_after_def)
qed

lemma file_pool_after_turn:
  assumes "i < length calls"
  shows "threads (pool_after (machine_of l t) (replicate n i) calls m) ! i
     = run (machine_of l t) n (call_config (machine_of l t) (fst (calls ! i)) (snd (calls ! i)) m)"
  using file_turn [OF program_machine_of pool_inv_spawn [OF program_machine_of] assms] assms
  by (simp add: pool_after_def) (simp add: spawn_def case_prod_unfold)

section \<open>The two tests of the interface\<close>

lemma length_increments [simp]: "length (increments N p) = N"
  by (simp add: increments_def)

lemma length_acquisitions [simp]: "length (acquisitions N lock) = N"
  by (simp add: acquisitions_def)

lemma in_sequence_increments:
  assumes "program M = reference_c" and "\<not> stack_full M 0" and "reference_fuel \<le> n"
  shows "in_sequence M n (replicate k (symbol (Fetch_and_op Op_add) W4, [P p, I32 1])) m =
     Some (map (\<lambda>j. I32 (load m p + of_nat j)) [0..<k], repeated k (fetch_and_op Op_add p (1 :: int32_t)) m)"
proof (induction k arbitrary: m)
  case 0
  show ?case by (simp add: repeated_def)
next
  case (Suc k)
  let ?m1 = "snd (fetch_and_op Op_add p (1 :: int32_t) m)"
  have l: "load ?m1 p = (load m p :: int32_t) + 1"
    by (simp add: fetch_and_op_location)
  have "map (\<lambda>j. I32 (load m p + of_nat j)) [0..<Suc k] =
      I32 (load m p) # map (\<lambda>j. I32 (load ?m1 p + of_nat j)) [0..<k]"
    by (simp add: l upt_conv_Cons map_Suc_upt [symmetric] add.assoc del: upt_Suc)
  moreover have "repeated (Suc k) (fetch_and_op Op_add p (1 :: int32_t)) m =
      repeated k (fetch_and_op Op_add p (1 :: int32_t)) ?m1"
    by (simp add: repeated_def funpow_swap1)
  ultimately show ?case
    using assms Suc [of ?m1]
    by (simp add: reference_returns fetch_and_op_result case_prod_unfold del: upt_Suc)
qed

lemma in_sequence_acquisitions:
  assumes "program M = reference_c" and "\<not> stack_full M 0" and "reference_fuel \<le> n"
  shows "in_sequence M n (replicate k (symbol Lock_test_and_set W4, [P lock, I32 1])) m =
     Some (map (\<lambda>j. I32 (if j = 0 then load m lock else 1)) [0..<k],
           if k = 0 then m else store m lock (1 :: int32_t))"
proof (induction k arbitrary: m)
  case 0
  show ?case by simp
next
  case (Suc k)
  let ?m1 = "store m lock (1 :: int32_t)"
  have "map (\<lambda>j. I32 (if j = 0 then load m lock else 1)) [0..<Suc k] =
      I32 (load m lock) # map (\<lambda>j. I32 (if j = 0 then load ?m1 lock else 1)) [0..<k]"
    by (simp add: upt_conv_Cons map_Suc_upt [symmetric] load_store_same del: upt_Suc)
  then show ?case
    using assms Suc [of ?m1]
    by (simp add: reference_returns contract_simps store_store_same del: upt_Suc)
qed

lemma map_nth_replicate:
  "\<forall>i \<in> set is. i < N \<Longrightarrow> map ((!) (replicate N c)) is = replicate (length is) c"
  by (induction "is") auto

lemma length_permutation:
  assumes "distinct is" and "set is = {..<N}"
  shows "length is = N"
  using distinct_card [OF assms(1)] assms(2) by simp

lemma stress_test_reference:
  assumes "distinct is" and "set is = {..<N}" and "reference_fuel \<le> n" and "l \<noteq> Some 0"
  shows "load (shared (pool_after (reference_machine l t) (uninterrupted n is) (increments N p) m)) p
           = (load m p :: int32_t) + of_nat N"
    and "k < N \<Longrightarrow> outcome_of (pool_after (reference_machine l t) (uninterrupted n is)
           (increments N p) m) (is ! k) = Some (I32 (load m p + of_nat k))"
proof -
  note len = length_permutation [OF assms(1,2)]
  from assms(2) have lt: "\<forall>i \<in> set is. i < length (increments N p)"
    by simp
  from assms have "in_sequence (reference_machine l t) n (map ((!) (increments N p)) is) m =
      Some (map (\<lambda>j. I32 (load m p + of_nat j)) [0..<N],
            repeated N (fetch_and_op Op_add p (1 :: int32_t)) m)"
    by (simp add: increments_def map_nth_replicate len in_sequence_increments)
  note lin = turns_linearizable [OF assms(1) lt this]
  from lin show "load (shared (pool_after (reference_machine l t) (uninterrupted n is)
      (increments N p) m)) p = (load m p :: int32_t) + of_nat N"
    by (simp add: repeated_fetch_and_add)
  from lin show "outcome_of (pool_after (reference_machine l t) (uninterrupted n is)
      (increments N p) m) (is ! k) = Some (I32 (load m p + of_nat k))" if "k < N"
    using that by (simp add: len)
qed

lemma spin_lock_reference:
  assumes "distinct is" and "set is = {..<N}" and "reference_fuel \<le> n" and "l \<noteq> Some 0"
  shows "k < N \<Longrightarrow> outcome_of (pool_after (reference_machine l t) (uninterrupted n is)
           (acquisitions N lock) m) (is ! k) = Some (I32 (if k = 0 then load m lock else 1))"
    and "0 < N \<Longrightarrow> load (shared (pool_after (reference_machine l t) (uninterrupted n is)
           (acquisitions N lock) m)) lock = (1 :: int32_t)"
proof -
  note len = length_permutation [OF assms(1,2)]
  from assms(2) have lt: "\<forall>i \<in> set is. i < length (acquisitions N lock)"
    by simp
  from assms have "in_sequence (reference_machine l t) n (map ((!) (acquisitions N lock)) is) m =
      Some (map (\<lambda>j. I32 (if j = 0 then load m lock else 1)) [0..<N],
            if N = 0 then m else store m lock (1 :: int32_t))"
    by (simp add: acquisitions_def map_nth_replicate len in_sequence_acquisitions)
  note lin = turns_linearizable [OF assms(1) lt this]
  from lin show "outcome_of (pool_after (reference_machine l t) (uninterrupted n is)
      (acquisitions N lock) m) (is ! k) = Some (I32 (if k = 0 then load m lock else 1))" if "k < N"
    using that by (simp add: len)
  from lin show "load (shared (pool_after (reference_machine l t) (uninterrupted n is)
      (acquisitions N lock) m)) lock = (1 :: int32_t)" if "0 < N"
    using that by (simp add: load_store_same)
qed

lemma nth_permutation: "set is = {..<N} \<Longrightarrow> distinct is \<Longrightarrow> k < N \<Longrightarrow> is ! k < N"
  using length_permutation [of "is" N] nth_mem [of k "is"] by auto

text \<open>The stress test with critical sections. \<open>N\<close> threads each add 1 to a 32-bit
  counter through \<^verbatim>\<open>__sync_fetch_and_add_4\<close>, and each thread's call runs
  uninterrupted, the threads taking their turns in any order \<open>is\<close>. With the reference
  program no update is lost: the counter ends \<open>N\<close> higher, and the thread whose turn is
  the \<open>k\<close>-th gets the initial value plus \<open>k\<close>, so the results are \<open>N\<close> different
  values. With the file, under the same schedule, the counter has not moved and no thread
  has a result.\<close>

lemma stress_test_in_critical_sections:
  assumes "distinct is" and "set is = {..<N}" and "reference_fuel \<le> n" and "l \<noteq> Some 0"
  shows "load (shared (pool_after (reference_machine l t) (uninterrupted n is) (increments N p) m)) p
       = (load m p :: int32_t) + of_nat N \<and>
     (\<forall>k < N. outcome_of (pool_after (reference_machine l t) (uninterrupted n is)
        (increments N p) m) (is ! k) = Some (I32 (load m p + of_nat k))) \<and>
     load (shared (pool_after (machine_of l t) (uninterrupted n is) (increments N p) m)) p
       = (load m p :: int32_t) \<and>
     (\<forall>k < N. outcome_of (pool_after (machine_of l t) (uninterrupted n is)
        (increments N p) m) (is ! k) = None)"
  using assms
  by (simp add: stress_test_reference pool_after_file nth_permutation)

lemma stress_test_in_critical_sections_example:
  "distinct [1, 0 :: nat] \<and> set [1, 0] = {..<2 :: nat} \<and> reference_fuel \<le> 6 \<and>
   None \<noteq> Some (0 :: nat) \<and>
   load (shared (pool_after (reference_machine None False) (uninterrupted 6 [1, 0])
     (increments 2 16) (\<lambda>_. 0))) 16 = (load (\<lambda>_. 0) 16 :: int32_t) + 2 \<and>
   outcome_of (pool_after (reference_machine None False) (uninterrupted 6 [1, 0])
     (increments 2 16) (\<lambda>_. 0)) 1 = Some (I32 (load (\<lambda>_. 0) 16)) \<and>
   outcome_of (pool_after (reference_machine None False) (uninterrupted 6 [1, 0])
     (increments 2 16) (\<lambda>_. 0)) 0 = Some (I32 (load (\<lambda>_. 0) 16 + 1))"
proof -
  have s: "set [1, 0] = {..<2 :: nat}" by auto
  have "distinct [1, 0 :: nat]" and "reference_fuel \<le> 6" and "None \<noteq> Some (0 :: nat)"
    by (simp_all add: reference_fuel_def)
  note h = this s
  from stress_test_in_critical_sections [OF h(1) s h(2,3), of False 16 "\<lambda>_. 0"] h
  show ?thesis by (simp add: numeral_2_eq_2 All_less_Suc)
qed

text \<open>The spin-lock test with critical sections. \<open>N\<close> threads each try to take a free
  32-bit lock through \<^verbatim>\<open>__sync_lock_test_and_set_4\<close> with the token 1, each call
  uninterrupted, in any order \<open>is\<close>. With the reference program exactly one thread
  observes the lock free, the one whose turn is first; every later thread observes it
  held. With the file, under the same schedule, no thread observes anything and the
  lock word is never set.\<close>

lemma spin_lock_in_critical_sections:
  assumes "distinct is" and "set is = {..<N}" and "reference_fuel \<le> n" and "l \<noteq> Some 0"
    and "load m lock = (0 :: int32_t)"
  shows "(\<forall>k < N. outcome_of (pool_after (reference_machine l t) (uninterrupted n is)
        (acquisitions N lock) m) (is ! k) = Some (I32 (if k = 0 then 0 else 1))) \<and>
     (\<forall>k < N. outcome_of (pool_after (machine_of l t) (uninterrupted n is)
        (acquisitions N lock) m) (is ! k) = None) \<and>
     load (shared (pool_after (machine_of l t) (uninterrupted n is) (acquisitions N lock) m)) lock
       = (0 :: int32_t)"
  using assms
  by (simp add: spin_lock_reference pool_after_file nth_permutation)

lemma spin_lock_in_critical_sections_example:
  "distinct [1, 0 :: nat] \<and> set [1, 0] = {..<2 :: nat} \<and> reference_fuel \<le> 6 \<and>
   None \<noteq> Some (0 :: nat) \<and> load (store (\<lambda>_. 0) 64 (0 :: int32_t)) 64 = (0 :: int32_t) \<and>
   outcome_of (pool_after (reference_machine None True) (uninterrupted 6 [1, 0])
     (acquisitions 2 64) (store (\<lambda>_. 0) 64 (0 :: int32_t))) 1 = Some (I32 0) \<and>
   outcome_of (pool_after (reference_machine None True) (uninterrupted 6 [1, 0])
     (acquisitions 2 64) (store (\<lambda>_. 0) 64 (0 :: int32_t))) 0 = Some (I32 1)"
proof -
  have s: "set [1, 0] = {..<2 :: nat}" by auto
  have "distinct [1, 0 :: nat]" and "reference_fuel \<le> 6" and "None \<noteq> Some (0 :: nat)"
    and "load (store (\<lambda>_. 0) 64 (0 :: int32_t)) 64 = (0 :: int32_t)"
    by (simp_all add: reference_fuel_def load_store_same)
  note h = this s
  from spin_lock_in_critical_sections [OF h(1) s h(2,3,4), of True] h
  show ?thesis by (simp add: numeral_2_eq_2 All_less_Suc)
qed

end
