(* ===== verification/Lock_Discipline.thy ===== *)
theory Lock_Discipline
  imports Critical_Section "HOL-Library.Sublist"
begin

text \<open>
  The lock-based critical section the interface falls back to, as a discipline on the
  pool of \<open>Thread_Pool\<close>. One lock guards all calls. A thread takes the lock before its
  call makes its first step (\<open>Acquire\<close>), makes its steps while it holds the lock
  (\<open>Run\<close>), and gives the lock back when its call has returned (\<open>Release\<close>). The lock is
  the field \<open>holder\<close>, the thread that holds it if any; \<open>entered\<close> records the threads
  in the order in which they took it. Which thread acts next is not determined:
  \<open>lock_step\<close> says what an action does when it is enabled, \<open>lock_reaches\<close> is
  reachability under any sequence of enabled actions.

  The lemmas of this theory hold for every program. The discipline is linearizable:
  whenever the lock is free, the shared memory and the results of the threads that have
  entered are those of their calls made one after the other on the sequential machine,
  in the order in which the lock was taken (\<open>sequential\<close>). At most one thread is in the
  middle of its call. Threads served one after the other take the turns of
  \<open>Critical_Section\<close>. When every call returns, the discipline never deadlocks.
\<close>

section \<open>The discipline\<close>

datatype action = Acquire nat | Run nat | Release nat

record guarded =
  inner :: pool
  holder :: "nat option"
  entered :: "nat list"

definition guard :: "machine \<Rightarrow> (string \<times> val list) list \<Rightarrow> memory \<Rightarrow> guarded" where
  "guard M calls m = \<lparr>inner = spawn M calls m, holder = None, entered = []\<rparr>"

fun lock_step :: "machine \<Rightarrow> action \<Rightarrow> guarded \<Rightarrow> guarded option" where
  "lock_step M (Acquire i) s =
     (if holder s = None \<and> i < length (threads (inner s)) \<and> i \<notin> set (entered s)
      then Some (s\<lparr>holder := Some i, entered := entered s @ [i]\<rparr>)
      else None)"
| "lock_step M (Run i) s =
     (if holder s = Some i
      then map_option (\<lambda>p. s\<lparr>inner := p\<rparr>) (schedule M i (inner s))
      else None)"
| "lock_step M (Release i) s =
     (if holder s = Some i \<and> result (threads (inner s) ! i) \<noteq> None
      then Some (s\<lparr>holder := None\<rparr>)
      else None)"

inductive lock_reaches :: "machine \<Rightarrow> guarded \<Rightarrow> guarded \<Rightarrow> bool" for M s where
  start: "lock_reaches M s s"
| later: "lock_reaches M s s' \<Longrightarrow> lock_step M a s' = Some s'' \<Longrightarrow> lock_reaches M s s''"

text \<open>The execution a list of actions picks; an action that is not enabled is skipped.\<close>

fun run_actions :: "machine \<Rightarrow> action list \<Rightarrow> guarded \<Rightarrow> guarded" where
  "run_actions M [] s = s"
| "run_actions M (a # as) s =
     (case lock_step M a s of None \<Rightarrow> run_actions M as s | Some s' \<Rightarrow> run_actions M as s')"

text \<open>Thread \<open>i\<close> served from taking the lock to giving it back, with \<open>n\<close> steps in
  between.\<close>

definition serve :: "nat \<Rightarrow> nat \<Rightarrow> action list" where
  "serve n i = Acquire i # replicate n (Run i) @ [Release i]"

text \<open>The pool of the calls after the threads \<open>is\<close> have been served in that order.\<close>

definition served ::
  "machine \<Rightarrow> nat \<Rightarrow> nat list \<Rightarrow> (string \<times> val list) list \<Rightarrow> memory \<Rightarrow> guarded" where
  "served M n is calls m = run_actions M (concat (map (serve n) is)) (guard M calls m)"

text \<open>Calls made one after the other on the sequential machine, each on the memory the
  previous one left: the results in order and the final memory.\<close>

inductive sequential ::
  "machine \<Rightarrow> memory \<Rightarrow> (string \<times> val list) list \<Rightarrow> val list \<Rightarrow> memory \<Rightarrow> bool" for M m where
  none: "sequential M m [] [] m"
| more: "sequential M m cs vs m1 \<Longrightarrow> reaches M (call_config M g as m1) (Value v [] m2) \<Longrightarrow>
     sequential M m (cs @ [(g, as)]) (vs @ [v]) m2"

text \<open>The results the threads \<open>js\<close> have, in the order of the list; and the threads
  \<open>js\<close> being settled: all have returned, and their results and the memory \<open>m1\<close> are
  those of their calls made in that order from the memory \<open>m\<close>.\<close>

definition outcomes :: "pool \<Rightarrow> nat list \<Rightarrow> val list" where
  "outcomes p js = map (\<lambda>j. the (outcome_of p j)) js"

definition settled ::
  "machine \<Rightarrow> (string \<times> val list) list \<Rightarrow> memory \<Rightarrow> pool \<Rightarrow> nat list \<Rightarrow> memory \<Rightarrow> bool" where
  "settled M calls m p js m1 \<longleftrightarrow>
     sequential M m (map ((!) calls) js) (outcomes p js) m1 \<and>
     (\<forall>j \<in> set js. result (threads p ! j) \<noteq> None)"

text \<open>The invariant of the discipline. Threads that have not entered are where they
  started. When the lock is free, the threads that have entered are settled with the
  shared memory. When thread \<open>i\<close> holds the lock, it is the last that entered, the
  threads before it are settled with some memory \<open>m1\<close>, and \<open>i\<close> is where its call gets
  from \<open>m1\<close> on the sequential machine.\<close>

definition lock_inv :: "machine \<Rightarrow> (string \<times> val list) list \<Rightarrow> memory \<Rightarrow> guarded \<Rightarrow> bool" where
  "lock_inv M calls m s \<longleftrightarrow>
     length (threads (inner s)) = length calls \<and>
     distinct (entered s) \<and> (\<forall>i \<in> set (entered s). i < length calls) \<and>
     (\<forall>j < length calls. j \<notin> set (entered s) \<longrightarrow>
        threads (inner s) ! j = call_config M (fst (calls ! j)) (snd (calls ! j)) m) \<and>
     (case holder s of
        None \<Rightarrow> settled M calls m (inner s) (entered s) (shared (inner s))
      | Some i \<Rightarrow>
          entered s \<noteq> [] \<and> last (entered s) = i \<and>
          (\<exists>m1. settled M calls m (inner s) (butlast (entered s)) m1 \<and>
             reaches M (call_config M (fst (calls ! i)) (snd (calls ! i)) m1)
               (with_memory (threads (inner s) ! i) (shared (inner s)))))"

section \<open>Sequences of calls\<close>

inductive_cases sequential_NilE: "sequential M m [] vs m'"
inductive_cases sequential_snocE: "sequential M m (cs @ [c]) vs m'"

lemma sequential_Cons:
  assumes "sequential M m1 cs vs m'" and "reaches M (call_config M g as m) (Value v [] m1)"
  shows "sequential M m ((g, as) # cs) (v # vs) m'"
  using assms(1)
proof (induction rule: sequential.induct)
  case none
  from sequential.more [OF sequential.none assms(2)] show ?case by simp
next
  case (more cs vs m2 g' as' v' m3)
  from sequential.more [OF more.IH more.hyps(2)] show ?case by simp
qed

text \<open>The results are determined by the calls and the memory.\<close>

lemma sequential_unique:
  assumes "sequential M m cs vs m'" and "sequential M m cs vs2 m2"
  shows "vs2 = vs \<and> m2 = m'"
  using assms
proof (induction arbitrary: vs2 m2 rule: sequential.induct)
  case none
  then show ?case by (auto elim: sequential_NilE)
next
  case (more cs vs m1 g as v m3)
  from more.prems obtain vs' v' m1' where vs2: "vs2 = vs' @ [v']"
    and s: "sequential M m cs vs' m1'"
    and r: "reaches M (call_config M g as m1') (Value v' [] m2)"
    by (auto elim: sequential_snocE)
  from more.IH [OF s] have "vs' = vs" and "m1' = m1" by simp_all
  with r more.hyps(2) have "Value v' [] m2 = Value v [] m3"
    by (intro reaches_final_unique) simp_all
  with vs2 \<open>vs' = vs\<close> show ?case by simp
qed

text \<open>The fuel-indexed sequence of \<open>Critical_Section\<close> is a sequence in this sense.\<close>

lemma in_sequence_sequential:
  "in_sequence M n cs m = Some (vs, m') \<Longrightarrow> sequential M m cs vs m'"
proof (induction cs arbitrary: m vs)
  case Nil
  then show ?case by (simp add: sequential.none)
next
  case (Cons c cs)
  from Cons.prems obtain v m1 vs' where c: "call_fuel M n (fst c) (snd c) m = Some (v, m1)"
    and rest: "in_sequence M n cs m1 = Some (vs', m')" and vs: "vs = v # vs'"
    by (auto split: option.splits)
  from c have "run M n (call_config M (fst c) (snd c) m) = Value v [] m1"
    by (auto simp: call_fuel_def elim: result_SomeE)
  then have "reaches M (call_config M (fst c) (snd c) m) (Value v [] m1)"
    by (metis reaches_run)
  with Cons.IH [OF rest] show ?case
    by (cases c) (simp add: vs sequential_Cons)
qed

section \<open>Steps of the discipline are steps of the pool\<close>

fun_cases lock_step_AcquireE: "lock_step M (Acquire i) s = Some s'"
fun_cases lock_step_RunE: "lock_step M (Run i) s = Some s'"
fun_cases lock_step_ReleaseE: "lock_step M (Release i) s = Some s'"

lemma lock_step_cases [consumes 1, case_names Acquire Run Release]:
  assumes "lock_step M a s = Some s'"
  obtains i where "a = Acquire i" and "holder s = None" and "i < length (threads (inner s))"
      and "i \<notin> set (entered s)" and "s' = s\<lparr>holder := Some i, entered := entered s @ [i]\<rparr>"
  | i p where "a = Run i" and "holder s = Some i" and "schedule M i (inner s) = Some p"
      and "s' = s\<lparr>inner := p\<rparr>"
  | i where "a = Release i" and "holder s = Some i" and "result (threads (inner s) ! i) \<noteq> None"
      and "s' = s\<lparr>holder := None\<rparr>"
  using assms by (cases a) (auto split: if_splits)

lemma lock_step_par_reaches:
  assumes "lock_step M a s = Some s'" and "par_reaches M p0 (inner s)"
  shows "par_reaches M p0 (inner s')"
  using assms(1)
proof (cases rule: lock_step_cases)
  case (Run i p)
  with assms(2) show ?thesis
    by (auto intro: par_reaches.later par_step.thread)
qed (use assms(2) in simp_all)

lemma lock_reaches_par_reaches:
  "lock_reaches M (guard M calls m) s \<Longrightarrow> par_reaches M (spawn M calls m) (inner s)"
  by (induction rule: lock_reaches.induct)
    (auto simp: guard_def intro: par_reaches.initial lock_step_par_reaches)

lemma lock_reaches_run_actions_from:
  "lock_reaches M s0 s \<Longrightarrow> lock_reaches M s0 (run_actions M as s)"
  by (induction as arbitrary: s) (auto split: option.splits intro: lock_reaches.later)

lemma lock_reaches_run_actions: "lock_reaches M s (run_actions M as s)"
  by (rule lock_reaches_run_actions_from) (rule lock_reaches.start)

section \<open>The invariant\<close>

lemma settled_cong:
  "\<forall>j \<in> set js. threads p' ! j = threads p ! j \<Longrightarrow>
   settled M calls m p' js m1 \<longleftrightarrow> settled M calls m p js m1"
  by (simp add: settled_def outcomes_def outcome_of_def cong: map_cong)

lemma settled_snoc:
  assumes "settled M calls m p js m1" and "threads p ! i = Value v [] mm"
    and "reaches M (call_config M (fst (calls ! i)) (snd (calls ! i)) m1) (Value v [] m2)"
  shows "settled M calls m p (js @ [i]) m2"
  using assms sequential.more [of M m "map ((!) calls) js" "outcomes p js" m1
      "fst (calls ! i)" "snd (calls ! i)" v m2]
  by (simp add: settled_def outcomes_def outcome_of_def)

lemma with_memory_after_step:
  "with_memory c' (case memory_of c' of None \<Rightarrow> m | Some m' \<Rightarrow> m') = c'"
  by (cases c') simp_all

lemma schedule_SomeD:
  assumes "schedule M i p = Some p'"
  obtains c' where "i < length (threads p)"
    and "step M (with_memory (threads p ! i) (shared p)) = Some c'"
    and "threads p' = (threads p)[i := c']"
    and "with_memory c' (shared p') = c'"
proof -
  from assms obtain c' where a: "i < length (threads p)"
      "step M (with_memory (threads p ! i) (shared p)) = Some c'"
    and p': "p' = \<lparr>threads = (threads p)[i := c'],
               shared = (case memory_of c' of None \<Rightarrow> shared p | Some m' \<Rightarrow> m')\<rparr>"
    by (auto simp: schedule_def split: if_splits option.splits)
  from p' have "threads p' = (threads p)[i := c']" and "with_memory c' (shared p') = c'"
    by (simp_all add: with_memory_after_step)
  with a show ?thesis by (rule that)
qed

lemma lock_inv_guard: "lock_inv M calls m (guard M calls m)"
  by (simp add: lock_inv_def guard_def spawn_def settled_def outcomes_def case_prod_unfold
      sequential.none)

text \<open>Each action keeps the invariant.\<close>

lemma lock_inv_acquire:
  assumes inv: "lock_inv M calls m s" and "holder s = None"
    and "i < length (threads (inner s))" and "i \<notin> set (entered s)"
  shows "lock_inv M calls m (s\<lparr>holder := Some i, entered := entered s @ [i]\<rparr>)"
proof -
  from assms have "threads (inner s) ! i = call_config M (fst (calls ! i)) (snd (calls ! i)) m"
    by (simp add: lock_inv_def)
  then have "reaches M (call_config M (fst (calls ! i)) (snd (calls ! i)) (shared (inner s)))
      (with_memory (threads (inner s) ! i) (shared (inner s)))"
    by (simp add: reaches.here)
  with assms show ?thesis
    by (auto simp: lock_inv_def)
qed

lemma holder_last:
  assumes "lock_inv M calls m s" and "holder s = Some i"
  shows "i \<in> set (entered s)" and "i \<notin> set (butlast (entered s))"
    and "butlast (entered s) @ [i] = entered s"
proof -
  from assms have e: "entered s \<noteq> []" and l: "last (entered s) = i" and d: "distinct (entered s)"
    by (simp_all add: lock_inv_def)
  from e l show "i \<in> set (entered s)" by (metis last_in_set)
  from e l show b: "butlast (entered s) @ [i] = entered s" by (metis append_butlast_last_id)
  with d show "i \<notin> set (butlast (entered s))"
    by (metis distinct_append disjoint_iff list.set_intros(1))
qed

lemma lock_inv_run:
  assumes inv: "lock_inv M calls m s" and h: "holder s = Some i"
    and sch: "schedule M i (inner s) = Some p"
  shows "lock_inv M calls m (s\<lparr>inner := p\<rparr>)"
proof -
  from sch obtain c' where i: "i < length (threads (inner s))"
    and c': "step M (with_memory (threads (inner s) ! i) (shared (inner s))) = Some c'"
    and ts: "threads p = (threads (inner s))[i := c']" and w: "with_memory c' (shared p) = c'"
    by (rule schedule_SomeD)
  note last = holder_last [OF inv h]
  from last(2) have same: "\<forall>j \<in> set (butlast (entered s)). threads p ! j = threads (inner s) ! j"
    by (auto simp: ts intro!: nth_list_update_neq)
  from inv h obtain m1 where se: "settled M calls m (inner s) (butlast (entered s)) m1"
    and r: "reaches M (call_config M (fst (calls ! i)) (snd (calls ! i)) m1)
         (with_memory (threads (inner s) ! i) (shared (inner s)))"
    by (auto simp: lock_inv_def)
  from se settled_cong [OF same] have "settled M calls m p (butlast (entered s)) m1"
    by simp
  moreover from r c' i w
  have "reaches M (call_config M (fst (calls ! i)) (snd (calls ! i)) m1)
      (with_memory (threads p ! i) (shared p))"
    by (auto simp: ts intro: reaches.after)
  moreover have "threads p ! j = call_config M (fst (calls ! j)) (snd (calls ! j)) m"
    if "j < length calls" and "j \<notin> set (entered s)" for j
  proof -
    from that last(1) have "j \<noteq> i" by auto
    with inv that show ?thesis by (simp add: lock_inv_def ts)
  qed
  ultimately show ?thesis
    using inv h by (auto simp: lock_inv_def ts)
qed

lemma lock_inv_release:
  assumes inv: "lock_inv M calls m s" and h: "holder s = Some i"
    and res: "result (threads (inner s) ! i) \<noteq> None"
  shows "lock_inv M calls m (s\<lparr>holder := None\<rparr>)"
proof -
  from res obtain v mm where v: "threads (inner s) ! i = Value v [] mm"
    by (auto elim: result_SomeE)
  from inv h obtain m1 where "settled M calls m (inner s) (butlast (entered s)) m1"
    and "reaches M (call_config M (fst (calls ! i)) (snd (calls ! i)) m1)
         (with_memory (threads (inner s) ! i) (shared (inner s)))"
    by (auto simp: lock_inv_def)
  with v have "settled M calls m (inner s) (butlast (entered s) @ [i]) (shared (inner s))"
    by (intro settled_snoc) simp_all
  with inv show ?thesis
    by (simp add: lock_inv_def holder_last(3) [OF inv h])
qed

lemma lock_inv_step:
  assumes "lock_inv M calls m s" and "lock_step M a s = Some s'"
  shows "lock_inv M calls m s'"
  using assms(2,1)
  by (cases rule: lock_step_cases) (simp_all add: lock_inv_acquire lock_inv_run lock_inv_release)

lemma lock_reaches_inv:
  "lock_reaches M (guard M calls m) s \<Longrightarrow> lock_inv M calls m s"
  by (induction rule: lock_reaches.induct) (auto intro: lock_inv_guard lock_inv_step)

section \<open>Mutual exclusion and linearizability\<close>

text \<open>At most one thread is in the middle of its call: every thread but the holder of
  the lock is where it started or has returned.\<close>

lemma lock_exclusive:
  assumes "lock_reaches M (guard M calls m) s" and "j < length calls" and "holder s \<noteq> Some j"
  shows "threads (inner s) ! j = call_config M (fst (calls ! j)) (snd (calls ! j)) m
     \<or> result (threads (inner s) ! j) \<noteq> None"
proof (cases "j \<in> set (entered s)")
  case False
  with lock_reaches_inv [OF assms(1)] assms(2) show ?thesis by (simp add: lock_inv_def)
next
  case True
  note inv = lock_reaches_inv [OF assms(1)]
  show ?thesis
  proof (cases "holder s")
    case None
    with inv True show ?thesis by (simp add: lock_inv_def settled_def)
  next
    case (Some i)
    with inv have "entered s = butlast (entered s) @ [i]"
      by (simp add: lock_inv_def) (metis append_butlast_last_id)
    with True Some assms(3) have "j \<in> set (butlast (entered s))"
      by (metis Un_iff empty_iff empty_set insert_iff list.simps(15) set_append)
    with inv Some show ?thesis by (auto simp: lock_inv_def settled_def)
  qed
qed

text \<open>Whenever the lock is free, what the threads have done is what their calls do one
  after the other, in the order in which they took the lock.\<close>

lemma lock_linearizable:
  assumes "lock_reaches M (guard M calls m) s" and "holder s = None"
  shows "sequential M m (map ((!) calls) (entered s)) (outcomes (inner s) (entered s))
     (shared (inner s))"
  using lock_reaches_inv [OF assms(1)] assms(2) by (simp add: lock_inv_def settled_def)

lemma lock_settled:
  assumes "lock_reaches M (guard M calls m) s" and "holder s = None"
  shows "distinct (entered s)" and "\<forall>j \<in> set (entered s). outcome_of (inner s) j \<noteq> None"
  using lock_reaches_inv [OF assms(1)] assms(2)
  by (auto simp: lock_inv_def settled_def outcome_of_def)

section \<open>The same call by every thread\<close>

text \<open>When all threads make the same call and all have entered, the memory and the
  results are those of the call made \<open>N\<close> times in a row; the \<open>k\<close>-th thread to take
  the lock has the \<open>k\<close>-th result.\<close>

lemma lock_replicated:
  assumes r: "lock_reaches M (guard M (replicate N c) m) s"
    and h: "holder s = None" and e: "set (entered s) = {..<N}"
    and q: "in_sequence M n (replicate N c) m = Some (vs, m')"
  shows "shared (inner s) = m'"
    and "k < N \<Longrightarrow> outcome_of (inner s) (entered s ! k) = Some (vs ! k)"
proof -
  note d = lock_settled [OF r h]
  note len = length_permutation [OF d(1) e]
  from e have "map ((!) (replicate N c)) (entered s) = replicate N c"
    by (simp add: map_nth_replicate len)
  with lock_linearizable [OF r h]
  have "sequential M m (replicate N c) (outcomes (inner s) (entered s)) (shared (inner s))"
    by simp
  with in_sequence_sequential [OF q]
  have o: "outcomes (inner s) (entered s) = vs" and m': "shared (inner s) = m'"
    by (auto dest: sequential_unique)
  from m' show "shared (inner s) = m'" .
  show "outcome_of (inner s) (entered s ! k) = Some (vs ! k)" if "k < N"
  proof -
    from that len d(2) obtain v where v: "outcome_of (inner s) (entered s ! k) = Some v"
      by (metis nth_mem not_None_eq)
    with o that len show ?thesis by (auto simp: outcomes_def)
  qed
qed

section \<open>Serving the threads in turn\<close>

lemma run_actions_append:
  "run_actions M (as @ bs) s = run_actions M bs (run_actions M as s)"
  by (induction as arbitrary: s) (auto split: option.splits)

text \<open>The steps of the holder of the lock are the steps of its thread in the pool.\<close>

lemma run_actions_skip:
  "\<forall>a \<in> set as. lock_step M a s = None \<Longrightarrow> run_actions M as s = s"
  by (induction as) simp_all

lemma run_actions_Run:
  "holder s = Some i \<Longrightarrow>
   run_actions M (replicate n (Run i)) s = s\<lparr>inner := run_schedule M (replicate n i) (inner s)\<rparr>"
  by (induction n arbitrary: s) (auto split: option.splits)

text \<open>A thread that has not moved and is served when the lock is free takes the lock,
  makes its call on the shared memory and gives the lock back, provided \<open>n\<close> steps are
  enough for the call.\<close>

lemma serve_call:
  assumes "holder s = None" and "i < length (threads (inner s))" and "i \<notin> set (entered s)"
    and "with_memory (threads (inner s) ! i) (shared (inner s))
           = call_config M g as (shared (inner s))"
    and "call_fuel M n g as (shared (inner s)) = Some (v, m')"
  shows "run_actions M (serve n i) s =
     s\<lparr>inner := \<lparr>threads = (threads (inner s))[i := Value v [] m'], shared = m'\<rparr>,
       entered := entered s @ [i]\<rparr>"
proof -
  let ?s1 = "s\<lparr>holder := Some i, entered := entered s @ [i]\<rparr>"
  from assms(2,4,5) have "run_schedule M (replicate n i) (inner ?s1) =
      \<lparr>threads = (threads (inner s))[i := Value v [] m'], shared = m'\<rparr>"
    by (simp add: turn_of_call)
  with assms(1-3) show ?thesis
    by (simp add: serve_def run_actions_append run_actions_Run)
qed

lemma serve_all:
  assumes "distinct is" and "holder s = None"
    and "\<forall>i \<in> set is. i < length (threads (inner s)) \<and> i \<notin> set (entered s)"
    and "\<forall>i \<in> set is. \<forall>mm. with_memory (threads (inner s) ! i) mm
           = call_config M (fst (calls ! i)) (snd (calls ! i)) mm"
    and "in_sequence M n (map ((!) calls) is) (shared (inner s)) = Some (vs, m')"
  shows "holder (run_actions M (concat (map (serve n) is)) s) = None \<and>
     entered (run_actions M (concat (map (serve n) is)) s) = entered s @ is \<and>
     inner (run_actions M (concat (map (serve n) is)) s)
       = run_schedule M (uninterrupted n is) (inner s)"
  using assms
proof (induction "is" arbitrary: s vs)
  case Nil
  then show ?case by (simp add: uninterrupted_def)
next
  case (Cons i "is")
  from Cons.prems(5) obtain v m1 vs' where
    c: "call_fuel M n (fst (calls ! i)) (snd (calls ! i)) (shared (inner s)) = Some (v, m1)"
    and rest: "in_sequence M n (map ((!) calls) is) m1 = Some (vs', m')"
    by (auto split: option.splits)
  let ?s1 = "s\<lparr>inner := \<lparr>threads = (threads (inner s))[i := Value v [] m1], shared = m1\<rparr>,
       entered := entered s @ [i]\<rparr>"
  from Cons.prems(2-4) c have s1: "run_actions M (serve n i) s = ?s1"
    by (intro serve_call) simp_all
  from Cons.prems(3,4) c have t: "run_schedule M (replicate n i) (inner s) = inner ?s1"
    by (simp add: turn_of_call)
  from Cons.prems rest
  have "holder (run_actions M (concat (map (serve n) is)) ?s1) = None \<and>
     entered (run_actions M (concat (map (serve n) is)) ?s1) = entered ?s1 @ is \<and>
     inner (run_actions M (concat (map (serve n) is)) ?s1)
       = run_schedule M (uninterrupted n is) (inner ?s1)"
    by (intro Cons.IH) (auto simp: nth_list_update)
  with s1 t show ?case
    by (simp add: run_actions_append uninterrupted_Cons run_schedule_append)
qed

text \<open>Served in the order \<open>is\<close>, the threads have taken the turns of
  \<open>Critical_Section\<close> in that order.\<close>

lemma served_turns:
  assumes "distinct is" and "\<forall>i \<in> set is. i < length calls"
    and "in_sequence M n (map ((!) calls) is) m = Some (vs, m')"
  shows "holder (served M n is calls m) = None"
    and "entered (served M n is calls m) = is"
    and "inner (served M n is calls m) = pool_after M (uninterrupted n is) calls m"
  using serve_all [of "is" "guard M calls m" M calls n vs m'] assms
  by (simp_all add: served_def pool_after_def guard_def spawn_def case_prod_unfold)

text \<open>While a thread holds the lock, serving other threads does nothing.\<close>

lemma serve_others:
  assumes "holder s = Some i" and "i \<notin> set js"
  shows "run_actions M (concat (map (serve n) js)) s = s"
  using assms(2)
proof (induction js)
  case Nil
  show ?case by simp
next
  case (Cons j js)
  with assms(1) have "run_actions M (serve n j) s = s"
    by (simp add: serve_def run_actions_append run_actions_skip)
  with Cons show ?case by (simp add: run_actions_append)
qed

text \<open>The order in which threads have entered only grows at its end.\<close>

lemma lock_step_prefix: "lock_step M a s = Some s' \<Longrightarrow> prefix (entered s) (entered s')"
  by (cases rule: lock_step_cases) auto

lemma lock_reaches_prefix: "lock_reaches M s s' \<Longrightarrow> prefix (entered s) (entered s')"
  by (induction rule: lock_reaches.induct) (auto dest: lock_step_prefix intro: prefix_order.trans)

lemma lock_reaches_served: "lock_reaches M (guard M calls m) (served M n is calls m)"
  unfolding served_def by (rule lock_reaches_run_actions)

text \<open>Threads that make the same call are all served when \<open>n\<close> steps are enough
  for every call of the sequence; with the reference program they are.\<close>

lemma serve_replicated:
  assumes "distinct is" and "set is = {..<N}"
    and "in_sequence M n (replicate N c) m = Some (vs, m')"
  shows "holder (served M n is (replicate N c) m) = None"
    and "entered (served M n is (replicate N c) m) = is"
  using assms
  by (simp_all add: served_turns [where vs = vs and m' = m'] map_nth_replicate length_permutation)

section \<open>Progress\<close>

text \<open>When every call returns from every memory, some action is enabled in every
  reachable state but the one in which all threads have entered and the lock is free:
  a thread that has not entered can take the free lock, and the holder of the lock can
  step or give it back.\<close>

lemma lock_progress:
  assumes r: "lock_reaches M (guard M calls m) s"
    and ret: "\<forall>j < length calls. \<forall>m1. call_fuel M n (fst (calls ! j)) (snd (calls ! j)) m1 \<noteq> None"
  shows "(holder s = None \<and> set (entered s) = {..<length calls}) \<or> (\<exists>a. lock_step M a s \<noteq> None)"
proof (cases "holder s")
  case None
  note inv = lock_reaches_inv [OF r]
  show ?thesis
  proof (cases "set (entered s) = {..<length calls}")
    case True
    with None show ?thesis by simp
  next
    case False
    with inv obtain j where "j < length calls" "j \<notin> set (entered s)"
      by (auto simp: lock_inv_def)
    with None inv have "lock_step M (Acquire j) s \<noteq> None"
      by (simp add: lock_inv_def)
    then show ?thesis by blast
  qed
next
  case (Some i)
  note inv = lock_reaches_inv [OF r]
  from inv Some have "i \<in> set (entered s)"
    by (auto simp: lock_inv_def dest: last_in_set)
  with inv Some obtain m1 where i: "i < length (threads (inner s))" "i < length calls"
    and reach: "reaches M (call_config M (fst (calls ! i)) (snd (calls ! i)) m1)
      (with_memory (threads (inner s) ! i) (shared (inner s)))"
    by (auto simp: lock_inv_def)
  from ret i(2) have "call_fuel M n (fst (calls ! i)) (snd (calls ! i)) m1 \<noteq> None"
    by blast
  then obtain r' where "call_fuel M n (fst (calls ! i)) (snd (calls ! i)) m1 = Some r'"
    by blast
  from returning_call_moves [OF reach this]
  have "lock_step M (Release i) s \<noteq> None \<or> lock_step M (Run i) s \<noteq> None"
    using Some i(1) by (auto simp: schedule_def split: option.splits)
  then show ?thesis by blast
qed

end
