(* ===== verification/Locked_Calls.thy ===== *)
theory Locked_Calls
  imports Lock_Discipline
begin

text \<open>
  The file and the reference program under the lock of \<open>Lock_Discipline\<close>.

  With the file the discipline deadlocks. The first thread that takes the lock never
  gives it back, since its call does not return, and no other thread ever enters
  (\<open>stuck\<close>). What the holder of the lock does then depends on the machine: when calls
  push frames its stack overflows and no action is enabled any more; when the compiler
  reuses the frame it steps for ever.

  With the reference program the two tests of the interface give what they should, in
  every execution: the stress test loses no update, and the spin-lock test has exactly
  one thread observe the lock word as it was. Threads served in any order are all
  served, and the discipline never deadlocks.
\<close>

section \<open>The file never gives the lock back\<close>

text \<open>Who holds the lock and who has entered, for a program none of whose calls
  return: nobody, or one thread that holds the lock for good.\<close>

definition stuck :: "guarded \<Rightarrow> bool" where
  "stuck s \<longleftrightarrow>
     (case holder s of
        None \<Rightarrow> entered s = []
      | Some i \<Rightarrow> entered s = [i] \<and> i < length (threads (inner s)))"

lemma file_stuck:
  assumes "program M = atomics_c" and "lock_reaches M (guard M calls m) s"
  shows "stuck s"
  using assms(2)
proof (induction rule: lock_reaches.induct)
  case start
  show ?case by (simp add: stuck_def guard_def)
next
  case (later s' a s'')
  from later.hyps(2) show ?case
  proof (cases rule: lock_step_cases)
    case (Acquire i)
    with later.IH show ?thesis by (simp add: stuck_def)
  next
    case (Run i p)
    with later.IH show ?thesis by (auto simp: stuck_def dest: schedule_length)
  next
    case (Release i)
    note pool = pool_summary [OF assms(1) lock_reaches_par_reaches [OF later.hyps(1)]]
    from later.IH Release(2) pool have "i < length calls"
      by (simp add: stuck_def)
    with pool have "outcome_of (inner s') i = None" by simp
    with Release(3) show ?thesis by (auto simp: outcome_of_def)
  qed
qed

lemma file_release_disabled:
  assumes "program M = atomics_c" and "lock_reaches M (guard M calls m) s"
  shows "lock_step M (Release i) s = None"
proof (cases "holder s = Some i")
  case True
  note pool = pool_summary [OF assms(1) lock_reaches_par_reaches [OF assms(2)]]
  from file_stuck [OF assms] True pool have "i < length calls"
    by (simp add: stuck_def)
  with pool have "outcome_of (inner s) i = None" by simp
  then show ?thesis by (simp add: outcome_of_def)
qed simp

text \<open>With the file the holder of the lock is the only thread that can act, and it
  can only step.\<close>

lemma file_only_runs:
  assumes "program M = atomics_c" and "lock_reaches M (guard M calls m) s"
    and "holder s = Some i" and "lock_step M a s = Some s'"
  shows "a = Run i \<and> holder s' = Some i \<and> entered s' = entered s"
proof -
  from assms(4) file_release_disabled [OF assms(1,2)] have "a \<noteq> Release j" for j
    by (metis option.distinct(1))
  with assms(4,3) show ?thesis
    by (cases rule: lock_step_cases) auto
qed

text \<open>Served in any order, only the first thread enters when no call returns.\<close>

lemma file_serve:
  assumes "program M = atomics_c" and "\<forall>i \<in> set is. i < length calls"
  shows "entered (served M n is calls m) = take 1 is"
proof (cases "is")
  case Nil
  then show ?thesis by (simp add: served_def guard_def)
next
  case (Cons i js)
  let ?s0 = "guard M calls m"
  let ?s1 = "?s0\<lparr>holder := Some i, entered := [i]\<rparr>"
  let ?rest = "replicate n (Run i) @ [Release i] @ concat (map (serve n) js)"
  let ?end = "run_actions M ?rest ?s1"
  from assms(2) Cons have e: "run_actions M (concat (map (serve n) is)) ?s0 = ?end"
    by (simp add: serve_def guard_def spawn_def)
  have "prefix (entered ?s1) (entered ?end)"
    by (rule lock_reaches_prefix [of M]) (rule lock_reaches_run_actions)
  moreover have "stuck ?end"
    unfolding e [symmetric]
    by (rule file_stuck [OF assms(1), of calls m]) (rule lock_reaches_run_actions)
  ultimately have "entered ?end = [i]"
    by (auto simp: stuck_def split: option.splits)
  with e Cons show ?thesis by (simp add: served_def)
qed

lemma file_served:
  assumes "program M = atomics_c" and "distinct is" and "\<forall>i \<in> set is. i < length calls"
  shows "inner (served M n is calls m) = pool_after M (uninterrupted n (take 1 is)) calls m"
proof (cases "is")
  case Nil
  then show ?thesis by (simp add: served_def guard_def pool_after_def uninterrupted_def)
next
  case (Cons i js)
  define s2 where "s2 = run_actions M (Acquire i # replicate n (Run i)) (guard M calls m)"
  have r: "lock_reaches M (guard M calls m) s2"
    unfolding s2_def by (rule lock_reaches_run_actions)
  from assms(3) Cons have s2: "holder s2 = Some i"
    "inner s2 = run_schedule M (replicate n i) (spawn M calls m)"
    by (simp_all add: s2_def run_actions_Run guard_def spawn_def)
  have "run_actions M (serve n i) (guard M calls m) = run_actions M [Release i] s2"
    using run_actions_append [of M "Acquire i # replicate n (Run i)" "[Release i]"]
    by (simp add: serve_def s2_def del: run_actions.simps)
  with file_release_disabled [OF assms(1) r]
  have "run_actions M (serve n i) (guard M calls m) = s2"
    by simp
  moreover from assms(2) Cons have "run_actions M (concat (map (serve n) js)) s2 = s2"
    by (intro serve_others [OF s2(1)]) simp
  ultimately show ?thesis
    using Cons s2(2)
    by (simp add: served_def run_actions_append pool_after_def uninterrupted_def)
qed

section \<open>The holder of the lock\<close>

text \<open>Served first, a thread that calls the file holds the lock at the end of its
  turn and is where \<open>n\<close> steps of its call get.\<close>

lemma file_served_first:
  assumes "distinct (i # js)" and "\<forall>j \<in> set (i # js). j < length calls"
  shows "holder (served (machine_of l t) n (i # js) calls m) = Some i"
    and "i < length (threads (inner (served (machine_of l t) n (i # js) calls m)))"
    and "threads (inner (served (machine_of l t) n (i # js) calls m)) ! i
     = run (machine_of l t) n (call_config (machine_of l t) (fst (calls ! i)) (snd (calls ! i)) m)"
proof -
  let ?M = "machine_of l t"
  let ?s = "served ?M n (i # js) calls m"
  from assms(2) have e: "entered ?s = [i]"
    by (simp add: file_serve)
  from file_stuck [OF program_machine_of lock_reaches_served [of "machine_of l t" calls m n "i # js"]] e
  show "holder ?s = Some i" and "i < length (threads (inner ?s))"
    by (auto simp: stuck_def split: option.splits)
  from assms show "threads (inner ?s) ! i
     = run ?M n (call_config ?M (fst (calls ! i)) (snd (calls ! i)) m)"
    by (simp add: file_served uninterrupted_def file_pool_after_turn)
qed

lemma file_deadlock:
  assumes "fd \<in> set atomics_c" and "calls ! i = (fname fd, vs)"
    and "distinct (i # js)" and "\<forall>j \<in> set (i # js). j < length calls" and "l \<le> n"
  shows "lock_step (machine_of (Some l) False) a
     (served (machine_of (Some l) False) n (i # js) calls m) = None"
proof -
  let ?M = "machine_of (Some l) False"
  note s = file_served_first [OF assms(3,4), of "Some l" False n m]
  from assms(5) have "run ?M n (call_config ?M (fname fd) vs m) \<in> range Fault"
    using links_machine_of [OF assms(1), of "Some l" False]
    by (cases "enter fd vs")
      (simp_all add: run_call call_config_bad_arguments stack_full_def)
  with s(3) assms(2) obtain x where
    "threads (inner (served ?M n (i # js) calls m)) ! i = Fault x"
    by auto
  with s(1,2) show ?thesis
    by (cases a) (auto simp: schedule_def)
qed

lemma file_livelock:
  assumes "fd \<in> set atomics_c" and "calls ! i = (fname fd, vs)" and "enter fd vs = Some fr"
    and "distinct (i # js)" and "\<forall>j \<in> set (i # js). j < length calls" and "l \<noteq> Some 0"
  shows "lock_step (machine_of l True) (Run i)
     (served (machine_of l True) n (i # js) calls m) \<noteq> None"
proof -
  let ?M = "machine_of l True"
  note s = file_served_first [OF assms(4,5), of l True n m]
  note k = links_machine_of [OF assms(1), of l True]
  from assms(6) have "\<not> stack_full ?M 0"
    by (cases l) (simp_all add: stack_full_def)
  with s(3) assms(2) have "threads (inner (served ?M n (i # js) calls m)) ! i = Exec fr [] m"
    by (simp add: run_call [OF k assms(3)])
  with s(1,2) show ?thesis
    by (simp add: schedule_def builtin_step [OF k assms(3)] del: step.simps)
qed

section \<open>The reference program\<close>

lemma lock_counts_increments:
  assumes "lock_reaches (reference_machine l t)
      (guard (reference_machine l t) (increments N p) m) s"
    and "holder s = None" and "set (entered s) = {..<N}" and "l \<noteq> Some 0"
  shows "load (shared (inner s)) p = (load m p :: int32_t) + of_nat N"
    and "k < N \<Longrightarrow> outcome_of (inner s) (entered s ! k) = Some (I32 (load m p + of_nat k))"
  using lock_replicated [OF assms(1) [unfolded increments_def] assms(2,3)
      in_sequence_increments [where n = reference_fuel]] assms(4)
  by (simp_all add: repeated_fetch_and_add)

lemma lock_acquisitions:
  assumes "lock_reaches (reference_machine l t)
      (guard (reference_machine l t) (acquisitions N lock) m) s"
    and "holder s = None" and "set (entered s) = {..<N}" and "l \<noteq> Some 0"
  shows "0 < N \<Longrightarrow> load (shared (inner s)) lock = (1 :: int32_t)"
    and "k < N \<Longrightarrow>
      outcome_of (inner s) (entered s ! k) = Some (I32 (if k = 0 then load m lock else 1))"
  using lock_replicated [OF assms(1) [unfolded acquisitions_def] assms(2,3)
      in_sequence_acquisitions [where n = reference_fuel]] assms(4)
  by (simp_all add: load_store_same)

text \<open>Every call of the stress test returns, from every memory.\<close>

lemma increments_return:
  assumes "l \<noteq> Some 0"
  shows "\<forall>j < length (increments N p). \<forall>m1.
      call_fuel (reference_machine l t) reference_fuel
        (fst (increments N p ! j)) (snd (increments N p ! j)) m1 \<noteq> None"
  using assms by (simp add: increments_def reference_calls)

lemma serve_increments:
  assumes "distinct is" and "set is = {..<N}" and "reference_fuel \<le> n" and "l \<noteq> Some 0"
  shows "holder (served (reference_machine l t) n is (increments N p) m) = None"
    and "entered (served (reference_machine l t) n is (increments N p) m) = is"
  unfolding increments_def
  by (rule serve_replicated [OF assms(1,2) in_sequence_increments]; simp add: assms)+

lemma serve_acquisitions:
  assumes "distinct is" and "set is = {..<N}" and "reference_fuel \<le> n" and "l \<noteq> Some 0"
  shows "holder (served (reference_machine l t) n is (acquisitions N lock) m) = None"
    and "entered (served (reference_machine l t) n is (acquisitions N lock) m) = is"
  unfolding acquisitions_def
  by (rule serve_replicated [OF assms(1,2) in_sequence_acquisitions]; simp add: assms)+

section \<open>The file and the reference program under the discipline\<close>

text \<open>
  C34. The lock-based critical section around the functions of the file deadlocks. Let
  threads call functions of the file under the discipline, in any execution. Then at
  most one thread has ever entered; if one has, it holds the lock, and no \<open>Release\<close> is
  ever enabled, so it holds the lock for good and no other thread ever takes it. The
  shared memory is the initial one and no thread has a result.
\<close>

theorem file_holds_lock_forever:
  assumes "program M = atomics_c" and "lock_reaches M (guard M calls m) s"
  shows "stuck s \<and> lock_step M (Release i) s = None \<and> shared (inner s) = m \<and>
     (\<forall>j < length calls. outcome_of (inner s) j = None)"
  using file_stuck [OF assms] file_release_disabled [OF assms]
    pool_summary [OF assms(1) lock_reaches_par_reaches [OF assms(2)]]
  by simp

theorem file_holds_lock_forever_witness:
  "program (machine_of (Some 4) False) = atomics_c \<and>
   lock_reaches (machine_of (Some 4) False)
     (guard (machine_of (Some 4) False) (acquisitions 2 64) (\<lambda>_. 0))
     (served (machine_of (Some 4) False) 3 [1, 0] (acquisitions 2 64) (\<lambda>_. 0)) \<and>
   stuck (served (machine_of (Some 4) False) 3 [1, 0] (acquisitions 2 64) (\<lambda>_. 0)) \<and>
   lock_step (machine_of (Some 4) False) (Release 1)
     (served (machine_of (Some 4) False) 3 [1, 0] (acquisitions 2 64) (\<lambda>_. 0)) = None \<and>
   shared (inner (served (machine_of (Some 4) False) 3 [1, 0] (acquisitions 2 64) (\<lambda>_. 0)))
     = (\<lambda>_. 0)"
proof -
  note r = lock_reaches_served [of "machine_of (Some 4) False" "acquisitions 2 64" "\<lambda>_. 0" 3 "[1, 0]"]
  from file_holds_lock_forever [OF program_machine_of r, of 1] r show ?thesis by simp
qed

text \<open>
  C35. The stress test under the lock. \<open>N\<close> threads each add 1 to a 32-bit counter
  through \<^verbatim>\<open>__sync_fetch_and_add_4\<close>, each call inside the critical section. With the
  reference program, in every execution, whenever the lock is free and all threads have
  entered, the counter is \<open>N\<close> higher than at the start and the thread that entered
  \<open>k\<close>-th has the initial value plus \<open>k\<close>: no update is lost, whatever the order. With
  the file no execution ever gets there: the lock is never free again once a thread has
  entered.
\<close>

theorem stress_test_under_lock:
  assumes "lock_reaches (reference_machine l t)
      (guard (reference_machine l t) (increments N p) m) s"
    and "holder s = None" and "set (entered s) = {..<N}" and "l \<noteq> Some 0"
    and "lock_reaches (machine_of l t) (guard (machine_of l t) (increments N p) m) s'"
    and "0 < N"
  shows "load (shared (inner s)) p = (load m p :: int32_t) + of_nat N \<and>
     (\<forall>k < N. outcome_of (inner s) (entered s ! k) = Some (I32 (load m p + of_nat k))) \<and>
     \<not> (holder s' = None \<and> set (entered s') = {..<N})"
  using lock_counts_increments [OF assms(1-4)] file_stuck [OF program_machine_of assms(5)] assms(6)
  by (auto simp: stuck_def)

theorem stress_test_under_lock_witness:
  "lock_reaches (reference_machine None False)
     (guard (reference_machine None False) (increments 2 16) (\<lambda>_. 0))
     (served (reference_machine None False) 6 [1, 0] (increments 2 16) (\<lambda>_. 0)) \<and>
   holder (served (reference_machine None False) 6 [1, 0] (increments 2 16) (\<lambda>_. 0)) = None \<and>
   set (entered (served (reference_machine None False) 6 [1, 0] (increments 2 16) (\<lambda>_. 0)))
     = {..<2} \<and>
   None \<noteq> Some (0 :: nat) \<and>
   lock_reaches (machine_of None False)
     (guard (machine_of None False) (increments 2 16) (\<lambda>_. 0))
     (served (machine_of None False) 6 [1, 0] (increments 2 16) (\<lambda>_. 0)) \<and>
   0 < (2 :: nat) \<and>
   load (shared (inner (served (reference_machine None False) 6 [1, 0] (increments 2 16)
     (\<lambda>_. 0)))) 16 = (load (\<lambda>_. 0) 16 :: int32_t) + 2"
proof -
  have s: "set [1, 0] = {..<2 :: nat}" by auto
  have d: "distinct [1, 0 :: nat]" and f: "reference_fuel \<le> 6" and n: "None \<noteq> Some (0 :: nat)"
    by (simp_all add: reference_fuel_def)
  note h = serve_increments [OF d s f n, of False 16 "\<lambda>_. 0"]
  note r = lock_reaches_served [of "reference_machine None False" "increments 2 16" "\<lambda>_. 0" 6 "[1, 0]"]
  note r' = lock_reaches_served [of "machine_of None False" "increments 2 16" "\<lambda>_. 0" 6 "[1, 0]"]
  have e: "set (entered (served (reference_machine None False) 6 [1, 0] (increments 2 16)
      (\<lambda>_. 0))) = {..<2}"
    unfolding h(2) by (rule s)
  from stress_test_under_lock [OF r h(1) e n r'] r h(1) e r' show ?thesis by simp
qed

text \<open>Serving the threads of the stress test one after the other, in any order, each
  with at least \<open>reference_fuel\<close> steps between taking the lock and giving it back.
  With the reference program every thread is served: at the end the lock is free and
  the threads have entered in the order of service. With the file only the first thread
  of the order ever enters.\<close>

lemma served_in_any_order:
  assumes "distinct is" and "set is = {..<N}" and "reference_fuel \<le> n" and "l \<noteq> Some 0"
  shows "holder (served (reference_machine l t) n is (increments N p) m) = None \<and>
     entered (served (reference_machine l t) n is (increments N p) m) = is \<and>
     entered (served (machine_of l t) n is (increments N p) m) = take 1 is"
  using serve_increments [OF assms] assms(2)
  by (simp add: file_serve)

lemma served_in_any_order_example:
  "distinct [2, 0, 1 :: nat] \<and> set [2, 0, 1] = {..<3 :: nat} \<and> reference_fuel \<le> 7 \<and>
   None \<noteq> Some (0 :: nat) \<and>
   entered (served (reference_machine None True) 7 [2, 0, 1] (increments 3 16) (\<lambda>_. 0))
     = [2, 0, 1] \<and>
   entered (served (machine_of None True) 7 [2, 0, 1] (increments 3 16) (\<lambda>_. 0)) = [2]"
proof -
  have s: "set [2, 0, 1] = {..<3 :: nat}" by auto
  have d: "distinct [2, 0, 1 :: nat]" and f: "reference_fuel \<le> 7" and n: "None \<noteq> Some (0 :: nat)"
    by (simp_all add: reference_fuel_def)
  from served_in_any_order [OF d s f n, of True 16 "\<lambda>_. 0"] d s f show ?thesis by simp
qed

text \<open>
  C37. The spin-lock test under the lock. \<open>N\<close> threads each take a lock word through
  \<^verbatim>\<open>__sync_lock_test_and_set_4\<close>, each call inside the critical section. With the
  reference program, in every execution, whenever the critical section is free and all
  threads have entered, the lock word is set and exactly the thread that entered first
  has observed the value the word had at the start; every other thread has observed it
  set. With the file, in every execution, the lock word is what it was and no thread has
  observed anything.
\<close>

theorem spin_lock_under_lock:
  assumes "lock_reaches (reference_machine l t)
      (guard (reference_machine l t) (acquisitions N lock) m) s"
    and "holder s = None" and "set (entered s) = {..<N}" and "l \<noteq> Some 0"
    and "lock_reaches (machine_of l t) (guard (machine_of l t) (acquisitions N lock) m) s'"
    and "0 < N"
  shows "load (shared (inner s)) lock = (1 :: int32_t) \<and>
     (\<forall>k < N. outcome_of (inner s) (entered s ! k)
        = Some (I32 (if k = 0 then load m lock else 1))) \<and>
     load (shared (inner s')) lock = (load m lock :: int32_t) \<and>
     (\<forall>j < N. outcome_of (inner s') j = None)"
  using lock_acquisitions [OF assms(1-4)] assms(6)
    pool_summary [OF program_machine_of lock_reaches_par_reaches [OF assms(5)]]
  by simp

theorem spin_lock_under_lock_witness:
  "lock_reaches (reference_machine None False)
     (guard (reference_machine None False) (acquisitions 2 64) (\<lambda>_. 0))
     (served (reference_machine None False) 6 [1, 0] (acquisitions 2 64) (\<lambda>_. 0)) \<and>
   holder (served (reference_machine None False) 6 [1, 0] (acquisitions 2 64) (\<lambda>_. 0)) = None \<and>
   set (entered (served (reference_machine None False) 6 [1, 0] (acquisitions 2 64) (\<lambda>_. 0)))
     = {..<2} \<and>
   None \<noteq> Some (0 :: nat) \<and>
   lock_reaches (machine_of None False)
     (guard (machine_of None False) (acquisitions 2 64) (\<lambda>_. 0))
     (served (machine_of None False) 6 [1, 0] (acquisitions 2 64) (\<lambda>_. 0)) \<and>
   0 < (2 :: nat) \<and>
   load (shared (inner (served (reference_machine None False) 6 [1, 0] (acquisitions 2 64)
     (\<lambda>_. 0)))) 64 = (1 :: int32_t)"
proof -
  have s: "set [1, 0] = {..<2 :: nat}" by auto
  have d: "distinct [1, 0 :: nat]" and f: "reference_fuel \<le> 6" and n: "None \<noteq> Some (0 :: nat)"
    by (simp_all add: reference_fuel_def)
  note h = serve_acquisitions [OF d s f n, of False 64 "\<lambda>_. 0"]
  note r = lock_reaches_served [of "reference_machine None False" "acquisitions 2 64" "\<lambda>_. 0" 6 "[1, 0]"]
  note r' = lock_reaches_served [of "machine_of None False" "acquisitions 2 64" "\<lambda>_. 0" 6 "[1, 0]"]
  have e: "set (entered (served (reference_machine None False) 6 [1, 0] (acquisitions 2 64)
      (\<lambda>_. 0))) = {..<2}"
    unfolding h(2) by (rule s)
  from spin_lock_under_lock [OF r h(1) e n r'] r h(1) e r' show ?thesis by simp
qed

text \<open>The lock provides the turns of \<open>Critical_Section\<close>. Threads are served one after
  the other, each with \<open>n\<close> steps between taking the lock and giving it back. If the
  calls of these threads, made in that order on the sequential machine, all return within
  \<open>n\<close> steps, the pool ends as it does under the schedule in which the threads take
  turns of \<open>n\<close> steps in that order. With the file, the pool ends as it does when only
  the first thread takes its turn: the others never run.\<close>

lemma lock_provides_turns:
  assumes "distinct is" and "\<forall>i \<in> set is. i < length calls"
    and "in_sequence M n (map ((!) calls) is) m = Some (vs, m')"
  shows "inner (served M n is calls m) = pool_after M (uninterrupted n is) calls m \<and>
     inner (served (machine_of l t) n is calls m)
       = pool_after (machine_of l t) (uninterrupted n (take 1 is)) calls m"
  using served_turns(3) [OF assms] file_served [OF program_machine_of assms(1,2)]
  by simp

lemma lock_provides_turns_example:
  "distinct [1, 0 :: nat] \<and> 1 < length (increments 2 16) \<and> 0 < length (increments 2 16) \<and>
   in_sequence (reference_machine None False) 6 (map ((!) (increments 2 16)) [1, 0]) (\<lambda>_. 0)
     = Some ([I32 (load (\<lambda>_. 0) 16), I32 (load (\<lambda>_. 0) 16 + 1)],
         repeated 2 (fetch_and_op Op_add 16 (1 :: int32_t)) (\<lambda>_. 0)) \<and>
   inner (served (reference_machine None False) 6 [1, 0] (increments 2 16) (\<lambda>_. 0))
     = pool_after (reference_machine None False) (uninterrupted 6 [1, 0]) (increments 2 16) (\<lambda>_. 0) \<and>
   inner (served (machine_of (Some 3) False) 6 [1, 0] (increments 2 16) (\<lambda>_. 0))
     = pool_after (machine_of (Some 3) False) (replicate 6 1) (increments 2 16) (\<lambda>_. 0)"
proof -
  have d: "distinct [1, 0 :: nat]" and b: "\<forall>i \<in> set [1, 0]. i < length (increments 2 16)"
    by simp_all
  have q: "in_sequence (reference_machine None False) 6 (map ((!) (increments 2 16)) [1, 0]) (\<lambda>_. 0)
     = Some ([I32 (load (\<lambda>_. 0) 16), I32 (load (\<lambda>_. 0) 16 + 1)],
         repeated 2 (fetch_and_op Op_add 16 (1 :: int32_t)) (\<lambda>_. 0))"
    using in_sequence_increments [of "reference_machine None False" 6 2 16 "\<lambda>_. 0"]
    by (simp add: increments_def reference_fuel_def numeral_2_eq_2)
  from lock_provides_turns [OF d b q, of "Some 3" False] d q show ?thesis
    by (simp add: uninterrupted_def)
qed

text \<open>
  C39. Progress under the lock. With the reference program the stress test never
  deadlocks: in every reachable state either all threads have entered and the lock is
  free, or some action is enabled. With the file, once a thread holds the lock, the only
  action that can be enabled is a step of that thread.
\<close>

theorem stress_test_progress:
  assumes "lock_reaches (reference_machine l t)
      (guard (reference_machine l t) (increments N p) m) s" and "l \<noteq> Some 0"
    and "lock_reaches (machine_of l t) (guard (machine_of l t) (increments N p) m) s'"
    and "holder s' = Some i"
  shows "((holder s = None \<and> set (entered s) = {..<N}) \<or>
       (\<exists>a. lock_step (reference_machine l t) a s \<noteq> None)) \<and>
     (\<forall>a. lock_step (machine_of l t) a s' \<noteq> None \<longrightarrow> a = Run i)"
proof -
  from lock_progress [OF assms(1) increments_return [OF assms(2)]]
    file_only_runs [OF program_machine_of assms(3,4)]
  show ?thesis by auto
qed

theorem stress_test_progress_witness:
  "lock_reaches (reference_machine None False)
     (guard (reference_machine None False) (increments 2 16) (\<lambda>_. 0))
     (guard (reference_machine None False) (increments 2 16) (\<lambda>_. 0)) \<and>
   None \<noteq> Some (0 :: nat) \<and>
   lock_reaches (machine_of None False)
     (guard (machine_of None False) (increments 2 16) (\<lambda>_. 0))
     (run_actions (machine_of None False) [Acquire 1]
       (guard (machine_of None False) (increments 2 16) (\<lambda>_. 0))) \<and>
   holder (run_actions (machine_of None False) [Acquire 1]
       (guard (machine_of None False) (increments 2 16) (\<lambda>_. 0))) = Some 1 \<and>
   (\<exists>a. lock_step (reference_machine None False) a
       (guard (reference_machine None False) (increments 2 16) (\<lambda>_. 0)) \<noteq> None) \<and>
   lock_step (machine_of None False) (Acquire 0)
     (run_actions (machine_of None False) [Acquire 1]
       (guard (machine_of None False) (increments 2 16) (\<lambda>_. 0))) = None"
proof -
  let ?s = "guard (reference_machine None False) (increments 2 16) (\<lambda>_. 0)"
  let ?s' = "run_actions (machine_of None False) [Acquire 1]
    (guard (machine_of None False) (increments 2 16) (\<lambda>_. 0))"
  note r = lock_reaches.start [of "reference_machine None False" ?s]
  note r' = lock_reaches_run_actions [of "machine_of None False"
    "guard (machine_of None False) (increments 2 16) (\<lambda>_. 0)" "[Acquire 1]"]
  have n: "None \<noteq> Some (0 :: nat)" by simp
  have h: "holder ?s' = Some 1"
    by (simp add: guard_def spawn_def increments_def)
  have "0 \<notin> set (entered ?s)" and "(0 :: nat) \<in> {..<2}"
    by (simp_all add: guard_def)
  then have e: "set (entered ?s) \<noteq> {..<2}"
    by metis
  note t = stress_test_progress [OF r n r' h]
  from t e have "\<exists>a. lock_step (reference_machine None False) a ?s \<noteq> None"
    by blast
  moreover from t have "lock_step (machine_of None False) (Acquire 0) ?s' = None"
    by blast
  ultimately show ?thesis using r n r' h by blast
qed

text \<open>
  C40. What the deadlock looks like. A thread that calls a function of the file is
  served first, with \<open>n\<close> steps, and other threads after it. On a machine with a stack
  of \<open>l \<le> n\<close> frames on which calls push frames, the thread has overflowed its stack
  while holding the lock, and no action of any thread is enabled at the end: the pool
  is dead. On a machine that reuses the frame, the thread still holds the lock and can
  still step: it spins inside the critical section.
\<close>

theorem file_deadlock_or_livelock:
  assumes "fd \<in> set atomics_c" and "calls ! i = (fname fd, vs)" and "enter fd vs = Some fr"
    and "distinct (i # js)" and "\<forall>j \<in> set (i # js). j < length calls"
    and "l \<le> n" and "k \<noteq> Some 0"
  shows "(\<forall>a. lock_step (machine_of (Some l) False) a
        (served (machine_of (Some l) False) n (i # js) calls m) = None) \<and>
     lock_step (machine_of k True) (Run i)
        (served (machine_of k True) n (i # js) calls m) \<noteq> None"
  using file_deadlock [OF assms(1,2,4,5,6)] file_livelock [OF assms(1,2,3,4,5,7)]
  by simp

theorem file_deadlock_or_livelock_witness:
  "atomics_c ! 30 \<in> set atomics_c \<and>
   [(fname (atomics_c ! 30), [P 16, I32 1]), (fname (atomics_c ! 30), [P 16, I32 1])] ! 0
     = (fname (atomics_c ! 30), [P 16, I32 1]) \<and>
   enter (atomics_c ! 30) [P 16, I32 1]
     = Some (Frame [(''ptr'', P 16), (''arg'', I32 1)]
         (Return (Call ''__sync_fetch_and_add_4'' [Var ''ptr'', Var ''arg'']))) \<and>
   distinct [0, 1 :: nat] \<and> (0 :: nat) < 2 \<and> (1 :: nat) < 2 \<and> (2 :: nat) \<le> 3 \<and>
   None \<noteq> Some (0 :: nat) \<and>
   lock_step (machine_of (Some 2) False) (Run 0)
     (served (machine_of (Some 2) False) 3 [0, 1]
       [(fname (atomics_c ! 30), [P 16, I32 1]), (fname (atomics_c ! 30), [P 16, I32 1])]
       (\<lambda>_. 0)) = None \<and>
   lock_step (machine_of None True) (Run 0)
     (served (machine_of None True) 3 [0, 1]
       [(fname (atomics_c ! 30), [P 16, I32 1]), (fname (atomics_c ! 30), [P 16, I32 1])]
       (\<lambda>_. 0)) \<noteq> None"
proof -
  let ?calls = "[(fname (atomics_c ! 30), [P 16, I32 1]), (fname (atomics_c ! 30), [P 16, I32 1])]"
  have f: "atomics_c ! 30 \<in> set atomics_c"
    by (rule nth_atomics_c) simp
  have c: "?calls ! 0 = (fname (atomics_c ! 30), [P 16, I32 1])"
    by simp
  have e: "enter (atomics_c ! 30) [P 16, I32 1]
     = Some (Frame [(''ptr'', P 16), (''arg'', I32 1)]
         (Return (Call ''__sync_fetch_and_add_4'' [Var ''ptr'', Var ''arg''])))"
    by (simp add: enter_def atomics_c_defs)
  have d: "distinct [0, 1 :: nat]" and b: "\<forall>j \<in> set [0, 1 :: nat]. j < length ?calls"
    and n: "(2 :: nat) \<le> 3" and k: "None \<noteq> Some (0 :: nat)"
    by simp_all
  note t = file_deadlock_or_livelock [OF f c e d b n k, of "\<lambda>_. 0"]
  from t have "lock_step (machine_of (Some 2) False) (Run 0)
     (served (machine_of (Some 2) False) 3 [0, 1] ?calls (\<lambda>_. 0)) = None"
    by blast
  with t f c e d n k show ?thesis
    by (simp del: lock_step.simps)
qed

end
