(* ===== verification/Interrupts.thy ===== *)
theory Interrupts
  imports Locked_Calls
begin

text \<open>
  Callers that run to completion. The interface is also called from interrupt handlers
  and from cooperative tasks: contexts that, once started, keep the processor until
  their call has returned. Here a context of the pool can be started as a handler; while
  a handler is active no other context acts. \<open>masked\<close> says whether interrupts are masked
  while the lock is held.

  Without masking the lock-based critical section deadlocks for every program, also
  for one whose calls all return: a handler started while another context holds the lock
  waits for a lock whose holder cannot run. With masking every execution is an
  execution of the lock discipline and some event is enabled until all contexts are
  done.
\<close>

section \<open>Handlers\<close>

datatype event = Act action | Interrupt nat | Resume nat

record preemptible =
  locked :: guarded
  handler :: "nat option"

fun actor :: "action \<Rightarrow> nat" where
  "actor (Acquire i) = i"
| "actor (Run i) = i"
| "actor (Release i) = i"

definition boot :: "machine \<Rightarrow> (string \<times> val list) list \<Rightarrow> memory \<Rightarrow> preemptible" where
  "boot M calls m = \<lparr>locked = guard M calls m, handler = None\<rparr>"

text \<open>An action is taken by the active handler, or by any context when no handler is
  active. A context that has not entered yet can be started as a handler when none is
  active, and when interrupts are masked only while the lock is free. The interrupted
  contexts resume when the handler has left the critical section.\<close>

fun event_step :: "machine \<Rightarrow> bool \<Rightarrow> event \<Rightarrow> preemptible \<Rightarrow> preemptible option" where
  "event_step M masked (Act a) s =
     (if handler s = None \<or> handler s = Some (actor a)
      then map_option (\<lambda>g. s\<lparr>locked := g\<rparr>) (lock_step M a (locked s))
      else None)"
| "event_step M masked (Interrupt j) s =
     (if handler s = None \<and> j < length (threads (inner (locked s)))
         \<and> j \<notin> set (entered (locked s)) \<and> (masked \<longrightarrow> holder (locked s) = None)
      then Some (s\<lparr>handler := Some j\<rparr>)
      else None)"
| "event_step M masked (Resume j) s =
     (if handler s = Some j \<and> j \<in> set (entered (locked s)) \<and> holder (locked s) \<noteq> Some j
      then Some (s\<lparr>handler := None\<rparr>)
      else None)"

inductive event_reaches :: "machine \<Rightarrow> bool \<Rightarrow> preemptible \<Rightarrow> preemptible \<Rightarrow> bool"
  for M masked s where
  first: "event_reaches M masked s s"
| then_event: "event_reaches M masked s s' \<Longrightarrow> event_step M masked e s' = Some s'' \<Longrightarrow>
     event_reaches M masked s s''"

fun run_events :: "machine \<Rightarrow> bool \<Rightarrow> event list \<Rightarrow> preemptible \<Rightarrow> preemptible" where
  "run_events M masked [] s = s"
| "run_events M masked (e # es) s =
     (case event_step M masked e s of
        None \<Rightarrow> run_events M masked es s
      | Some s' \<Rightarrow> run_events M masked es s')"

text \<open>The state in which context \<open>i\<close> holds the lock and the handler \<open>j\<close> has been
  started on top of it.\<close>

definition interrupted :: "machine \<Rightarrow> nat \<Rightarrow> nat \<Rightarrow> (string \<times> val list) list \<Rightarrow> memory \<Rightarrow> preemptible" where
  "interrupted M i j calls m =
     run_events M False [Act (Acquire i), Interrupt j] (boot M calls m)"

section \<open>Executions with handlers are executions of the discipline\<close>

fun_cases event_step_ActE: "event_step M masked (Act a) s = Some s'"
fun_cases event_step_InterruptE: "event_step M masked (Interrupt j) s = Some s'"
fun_cases event_step_ResumeE: "event_step M masked (Resume j) s = Some s'"

lemma event_step_locked:
  "event_step M masked e s = Some s' \<Longrightarrow>
     locked s' = locked s \<or> (\<exists>a. lock_step M a (locked s) = Some (locked s'))"
  by (cases e) (auto split: if_splits)

lemma event_reaches_lock_reaches:
  "event_reaches M masked (boot M calls m) s \<Longrightarrow> lock_reaches M (guard M calls m) (locked s)"
proof (induction rule: event_reaches.induct)
  case first
  show ?case by (simp add: boot_def lock_reaches.start)
next
  case (then_event s' e s'')
  from event_step_locked [OF then_event.hyps(2)] then_event.IH show ?case
    by (auto intro: lock_reaches.later)
qed

lemma event_reaches_run_events_from:
  "event_reaches M masked s0 s \<Longrightarrow> event_reaches M masked s0 (run_events M masked es s)"
  by (induction es arbitrary: s) (auto split: option.splits intro: event_reaches.then_event)

lemma event_reaches_run_events: "event_reaches M masked s (run_events M masked es s)"
  by (rule event_reaches_run_events_from) (rule event_reaches.first)

text \<open>So the safety of the discipline carries over: whenever the lock is free, what the
  contexts have done is what their calls do one after the other.\<close>

lemma handlers_linearizable:
  assumes "event_reaches M masked (boot M calls m) s" and "holder (locked s) = None"
  shows "sequential M m (map ((!) calls) (entered (locked s)))
     (outcomes (inner (locked s)) (entered (locked s))) (shared (inner (locked s)))"
  using lock_linearizable [OF event_reaches_lock_reaches [OF assms(1)] assms(2)] .

section \<open>Without masking: a handler waits for a lock that is never released\<close>

lemma interrupted_state:
  assumes "i < length calls" and "j < length calls" and "i \<noteq> j"
  shows "interrupted M i j calls m =
     \<lparr>locked = (guard M calls m)\<lparr>holder := Some i, entered := [i]\<rparr>, handler = Some j\<rparr>"
  using assms by (simp add: interrupted_def boot_def guard_def spawn_def)

lemma interrupted_dead:
  assumes "i < length calls" and "j < length calls" and "i \<noteq> j"
  shows "event_step M False e (interrupted M i j calls m) = None"
proof (cases e)
  case (Act a)
  with assms show ?thesis
    by (cases a) (auto simp: interrupted_state)
next
  case (Interrupt k)
  with assms show ?thesis by (simp add: interrupted_state)
next
  case (Resume k)
  with assms show ?thesis by (simp add: interrupted_state)
qed

lemma interrupted_reachable:
  "event_reaches M False (boot M calls m) (interrupted M i j calls m)"
  unfolding interrupted_def by (rule event_reaches_run_events)

text \<open>With masking no handler is started while the lock is held.\<close>

lemma masked_handler:
  assumes "event_reaches M True (boot M calls m) s" and "handler s = Some j"
  shows "holder (locked s) = None \<or> holder (locked s) = Some j"
  using assms
proof (induction arbitrary: j rule: event_reaches.induct)
  case first
  then show ?case by (simp add: boot_def)
next
  case (then_event s' e s'')
  show ?case
  proof (cases e)
    case (Act a)
    with then_event.hyps(2) obtain g where g: "lock_step M a (locked s') = Some g"
      and s'': "s'' = s'\<lparr>locked := g\<rparr>" and h: "handler s' = None \<or> handler s' = Some (actor a)"
      by (auto split: if_splits)
    from then_event.prems s'' h have j: "handler s' = Some j" "actor a = j" by auto
    from g then_event.IH [OF j(1)] j(2) show ?thesis
      by (cases rule: lock_step_cases) (auto simp: s'')
  next
    case (Interrupt k)
    with then_event show ?thesis by (auto split: if_splits)
  next
    case (Resume k)
    with then_event show ?thesis by (auto split: if_splits)
  qed
qed

lemma handler_in_range:
  assumes "event_reaches M masked (boot M calls m) s" and "handler s = Some j"
  shows "j < length calls"
  using assms
proof (induction arbitrary: j rule: event_reaches.induct)
  case first
  then show ?case by (simp add: boot_def)
next
  case (then_event s' e s'')
  note len = lock_reaches_inv [OF event_reaches_lock_reaches [OF then_event.hyps(1)]]
  from then_event len show ?case
    by (cases e) (auto simp: lock_inv_def split: if_splits)
qed

text \<open>Only the holder of the lock acts while the lock is held.\<close>

lemma lock_step_actor:
  "lock_step M a s = Some s' \<Longrightarrow> holder s = Some j \<Longrightarrow> actor a = j"
  by (cases rule: lock_step_cases) auto

section \<open>With masking: progress\<close>

text \<open>When every call returns from every memory and interrupts are masked while the
  lock is held, some event is enabled in every reachable state but the one in which no
  handler is active, all contexts have entered and the lock is free.\<close>

lemma masked_progress:
  assumes r: "event_reaches M True (boot M calls m) s"
    and ret: "\<forall>j < length calls. \<forall>m1. call_fuel M n (fst (calls ! j)) (snd (calls ! j)) m1 \<noteq> None"
  shows "(handler s = None \<and> holder (locked s) = None
        \<and> set (entered (locked s)) = {..<length calls})
     \<or> (\<exists>e. event_step M True e s \<noteq> None)"
proof -
  note l = event_reaches_lock_reaches [OF r]
  note p = lock_progress [OF l ret]
  note inv = lock_reaches_inv [OF l]
  show ?thesis
  proof (cases "handler s")
    case None
    from p show ?thesis
    proof
      assume "holder (locked s) = None \<and> set (entered (locked s)) = {..<length calls}"
      with None show ?thesis by simp
    next
      assume "\<exists>a. lock_step M a (locked s) \<noteq> None"
      then obtain a where "lock_step M a (locked s) \<noteq> None" ..
      with None have "event_step M True (Act a) s \<noteq> None" by auto
      then show ?thesis by blast
    qed
  next
    case (Some j)
    note j = handler_in_range [OF r Some]
    from masked_handler [OF r Some] show ?thesis
    proof
      assume free: "holder (locked s) = None"
      show ?thesis
      proof (cases "j \<in> set (entered (locked s))")
        case True
        with Some free have "event_step M True (Resume j) s \<noteq> None" by simp
        then show ?thesis by blast
      next
        case False
        with Some free j inv have "event_step M True (Act (Acquire j)) s \<noteq> None"
          by (simp add: lock_inv_def)
        then show ?thesis by blast
      qed
    next
      assume held: "holder (locked s) = Some j"
      with p obtain a g where a: "lock_step M a (locked s) = Some g" by auto
      from lock_step_actor [OF a held] a Some have "event_step M True (Act a) s \<noteq> None"
        by simp
      then show ?thesis by blast
    qed
  qed
qed

section \<open>The file and the reference program\<close>

text \<open>With the file a handler that has entered the critical section never hands the
  processor back, masked or not.\<close>

lemma file_handler_never_resumes:
  assumes "program M = atomics_c" and "event_reaches M masked (boot M calls m) s"
  shows "event_step M masked (Resume j) s = None"
  using file_stuck [OF assms(1) event_reaches_lock_reaches [OF assms(2)]]
  by (auto simp: stuck_def split: option.splits)

text \<open>With the reference program the stress test makes progress under masking, and has
  a reachable dead state without it.\<close>

lemma reference_handlers:
  assumes "l \<noteq> Some 0" and "i < N" and "j < N" and "i \<noteq> j"
    and "event_reaches (reference_machine l t) True
      (boot (reference_machine l t) (increments N p) m) s"
  shows "(handler s = None \<and> holder (locked s) = None \<and> set (entered (locked s)) = {..<N})
       \<or> (\<exists>e. event_step (reference_machine l t) True e s \<noteq> None)"
    and "event_reaches (reference_machine l t) False
      (boot (reference_machine l t) (increments N p) m)
      (interrupted (reference_machine l t) i j (increments N p) m)"
    and "event_step (reference_machine l t) False e
      (interrupted (reference_machine l t) i j (increments N p) m) = None"
proof -
  from masked_progress [OF assms(5) increments_return [OF assms(1)]]
  show "(handler s = None \<and> holder (locked s) = None \<and> set (entered (locked s)) = {..<N})
       \<or> (\<exists>e. event_step (reference_machine l t) True e s \<noteq> None)"
    by simp
  show "event_reaches (reference_machine l t) False
      (boot (reference_machine l t) (increments N p) m)
      (interrupted (reference_machine l t) i j (increments N p) m)"
    by (rule interrupted_reachable)
  from assms(2-4) show "event_step (reference_machine l t) False e
      (interrupted (reference_machine l t) i j (increments N p) m) = None"
    by (simp add: interrupted_dead)
qed

text \<open>
  C38. Interrupt handlers need the critical section to mask interrupts. Contexts call
  \<^verbatim>\<open>__sync_fetch_and_add_4\<close> on one counter under the lock, and a context that has
  not entered yet can be started as a handler, which keeps the processor until its call
  has returned. With the reference program and no masking, the state in which context
  \<open>i\<close> holds the lock and the handler \<open>j\<close> has been started on top of it is reachable
  and dead: no event is enabled in it. With masking while the lock is held, in every
  reachable state some event is enabled, unless no handler is active, all contexts have
  entered and the lock is free. With the file, masked or not, a handler never hands the
  processor back.
\<close>

theorem handlers_need_masking:
  assumes "l \<noteq> Some 0" and "i < N" and "j < N" and "i \<noteq> j"
    and "event_reaches (reference_machine l t) True
      (boot (reference_machine l t) (increments N p) m) s"
    and "event_reaches (machine_of l t) masked (boot (machine_of l t) calls m) s'"
  shows "event_reaches (reference_machine l t) False
       (boot (reference_machine l t) (increments N p) m)
       (interrupted (reference_machine l t) i j (increments N p) m) \<and>
     event_step (reference_machine l t) False e
       (interrupted (reference_machine l t) i j (increments N p) m) = None \<and>
     ((handler s = None \<and> holder (locked s) = None \<and> set (entered (locked s)) = {..<N})
       \<or> (\<exists>e. event_step (reference_machine l t) True e s \<noteq> None)) \<and>
     event_step (machine_of l t) masked (Resume k) s' = None"
  using reference_handlers [OF assms(1-5)]
    file_handler_never_resumes [OF program_machine_of assms(6)]
  by (simp del: event_step.simps)

theorem handlers_need_masking_witness:
  "None \<noteq> Some (0 :: nat) \<and> (0 :: nat) < 2 \<and> (1 :: nat) < 2 \<and> (0 :: nat) \<noteq> 1 \<and>
   event_reaches (reference_machine None False) True
     (boot (reference_machine None False) (increments 2 16) (\<lambda>_. 0))
     (boot (reference_machine None False) (increments 2 16) (\<lambda>_. 0)) \<and>
   event_reaches (machine_of None False) False
     (boot (machine_of None False) (increments 2 16) (\<lambda>_. 0))
     (run_events (machine_of None False) False [Interrupt 1, Act (Acquire 1), Act (Run 1)]
       (boot (machine_of None False) (increments 2 16) (\<lambda>_. 0))) \<and>
   event_reaches (reference_machine None False) False
     (boot (reference_machine None False) (increments 2 16) (\<lambda>_. 0))
     (interrupted (reference_machine None False) 0 1 (increments 2 16) (\<lambda>_. 0)) \<and>
   event_step (reference_machine None False) False (Act (Acquire 1))
     (interrupted (reference_machine None False) 0 1 (increments 2 16) (\<lambda>_. 0)) = None \<and>
   (\<exists>e. event_step (reference_machine None False) True e
     (boot (reference_machine None False) (increments 2 16) (\<lambda>_. 0)) \<noteq> None) \<and>
   event_step (machine_of None False) False (Resume 1)
     (run_events (machine_of None False) False [Interrupt 1, Act (Acquire 1), Act (Run 1)]
       (boot (machine_of None False) (increments 2 16) (\<lambda>_. 0))) = None"
proof -
  let ?b = "boot (reference_machine None False) (increments 2 16) (\<lambda>_. 0)"
  have n: "None \<noteq> Some (0 :: nat)" and i: "(0 :: nat) < 2" and j: "(1 :: nat) < 2"
    and d: "(0 :: nat) \<noteq> 1"
    by simp_all
  note r = event_reaches.first [of "reference_machine None False" True ?b]
  note r' = event_reaches_run_events [of "machine_of None False" False
    "boot (machine_of None False) (increments 2 16) (\<lambda>_. 0)"
    "[Interrupt 1, Act (Acquire 1), Act (Run 1)]"]
  note t = handlers_need_masking [OF n i j d r r', of "Act (Acquire 1)" 1]
  have "0 \<notin> set (entered (locked ?b))" and "(0 :: nat) \<in> {..<2}"
    by (simp_all add: boot_def guard_def)
  then have "set (entered (locked ?b)) \<noteq> {..<2}"
    by metis
  with t have "\<exists>e. event_step (reference_machine None False) True e ?b \<noteq> None"
    by blast
  with t n i j d r r' show ?thesis
    by blast
qed

end
