(* ===== verification/Lock_Word.thy ===== *)
theory Lock_Word
  imports Locked_Calls Lost_Update
begin

text \<open>
  The lock of \<open>Lock_Discipline\<close> as a word in memory. The discipline has a field that
  names the holder of the lock; a library has a 32-bit lock word and the interface's own
  primitive to take it: a thread calls \<^verbatim>\<open>__sync_lock_test_and_set_4\<close> on the lock word
  with the token 1 and has the lock when the call returns 0; it gives the lock back by
  storing 0. The state \<open>spinlock\<close> has no holder: it has the pool of callers, the memory
  of the library with the lock word, and the control state of the threads, namely which
  have got past the acquisition (\<open>arrived\<close>, in order) and which have given the lock
  back (\<open>departed\<close>).

  The lock word lies in memory of the library that no pointer of a caller refers to, so
  it is kept apart from the shared memory of the pool. An attempt to take the lock is
  one action: the call of the primitive on the machine, with \<open>n\<close> steps of fuel, as
  indivisible as its contract asks; an attempt that finds the lock taken changes nothing
  and can be repeated, which is the spinning.

  The lemmas relate the lock word to the discipline through the abstraction \<open>lock_abs\<close>.
  When the primitive does what its contract says, as the one of the reference program
  does, every execution of the lock word is an execution of the discipline, so mutual
  exclusion, linearizability and progress carry over. With the primitive of the file no
  attempt ever returns: no thread gets in, which is not even the deadlock of the
  discipline, where the first thread gets in and stays.
\<close>

section \<open>The lock word and its steps\<close>

record spinlock =
  callers :: pool
  lock_memory :: memory
  arrived :: "nat list"
  departed :: "nat list"

text \<open>One attempt to take the lock at \<open>lk\<close>: whether the lock was free, and the memory
  after the attempt; \<open>None\<close> when the call has not returned after \<open>n\<close> steps.\<close>

definition try_lock :: "machine \<Rightarrow> nat \<Rightarrow> addr \<Rightarrow> memory \<Rightarrow> (bool \<times> memory) option" where
  "try_lock M n lk lm =
     (case call_fuel M n (symbol Lock_test_and_set W4) [P lk, I32 1] lm of
        Some (I32 old, lm') \<Rightarrow> Some (old = 0, lm')
      | _ \<Rightarrow> None)"

definition unlock :: "addr \<Rightarrow> memory \<Rightarrow> memory" where
  "unlock lk lm = store lm lk (0 :: int32_t)"

text \<open>The threads between acquisition and release.\<close>

definition inside :: "spinlock \<Rightarrow> nat list" where
  "inside s = filter (\<lambda>i. i \<notin> set (departed s)) (arrived s)"

definition word_guard ::
  "machine \<Rightarrow> addr \<Rightarrow> (string \<times> val list) list \<Rightarrow> memory \<Rightarrow> memory \<Rightarrow> spinlock" where
  "word_guard M lk calls m lm =
     \<lparr>callers = spawn M calls m, lock_memory = unlock lk lm, arrived = [], departed = []\<rparr>"

fun word_step :: "machine \<Rightarrow> nat \<Rightarrow> addr \<Rightarrow> action \<Rightarrow> spinlock \<Rightarrow> spinlock option" where
  "word_step M n lk (Acquire i) s =
     (if i < length (threads (callers s)) \<and> i \<notin> set (arrived s)
      then (case try_lock M n lk (lock_memory s) of
              None \<Rightarrow> None
            | Some (free, lm) \<Rightarrow>
                Some (if free then s\<lparr>lock_memory := lm, arrived := arrived s @ [i]\<rparr>
                      else s\<lparr>lock_memory := lm\<rparr>))
      else None)"
| "word_step M n lk (Run i) s =
     (if i \<in> set (inside s)
      then map_option (\<lambda>p. s\<lparr>callers := p\<rparr>) (schedule M i (callers s))
      else None)"
| "word_step M n lk (Release i) s =
     (if i \<in> set (inside s) \<and> result (threads (callers s) ! i) \<noteq> None
      then Some (s\<lparr>lock_memory := unlock lk (lock_memory s), departed := i # departed s\<rparr>)
      else None)"

inductive word_reaches :: "machine \<Rightarrow> nat \<Rightarrow> addr \<Rightarrow> spinlock \<Rightarrow> spinlock \<Rightarrow> bool"
  for M n lk s where
  start: "word_reaches M n lk s s"
| later: "word_reaches M n lk s s' \<Longrightarrow> word_step M n lk a s' = Some s'' \<Longrightarrow>
     word_reaches M n lk s s''"

text \<open>The execution a list of actions picks; an action that is not enabled is skipped.\<close>

fun run_word :: "machine \<Rightarrow> nat \<Rightarrow> addr \<Rightarrow> action list \<Rightarrow> spinlock \<Rightarrow> spinlock" where
  "run_word M n lk [] s = s"
| "run_word M n lk (a # as) s =
     (case word_step M n lk a s of
        None \<Rightarrow> run_word M n lk as s
      | Some s' \<Rightarrow> run_word M n lk as s')"

text \<open>The state of the discipline a state of the lock word stands for: the holder is
  the thread inside, if any.\<close>

definition lock_abs :: "spinlock \<Rightarrow> guarded" where
  "lock_abs s =
     \<lparr>inner = callers s,
      holder = (case inside s of [] \<Rightarrow> None | i # _ \<Rightarrow> Some i),
      entered = arrived s\<rparr>"

text \<open>The invariant: the lock word is 0 exactly when no thread is inside, at most one
  thread is inside, and only threads that have arrived have departed.\<close>

definition word_inv :: "addr \<Rightarrow> spinlock \<Rightarrow> bool" where
  "word_inv lk s \<longleftrightarrow>
     (load (lock_memory s) lk = (0 :: int32_t) \<longleftrightarrow> inside s = []) \<and>
     length (inside s) \<le> 1 \<and> set (departed s) \<subseteq> set (arrived s)"

section \<open>The primitive\<close>

text \<open>The primitive of the reference program does what the contract says; the one of the
  file never returns.\<close>

lemma try_lock_reference:
  assumes "program M = reference_c" and "\<not> stack_full M 0" and "reference_fuel \<le> n"
  shows "try_lock M n lk lm = Some (load lm lk = (0 :: int32_t), store lm lk (1 :: int32_t))"
  using call_fuel_stable [OF reference_call_lock_test_and_set(3) [OF assms(1,2)] assms(3)]
  by (simp add: try_lock_def contract_simps)

lemma try_lock_file: "program M = atomics_c \<Longrightarrow> try_lock M n lk lm = None"
  by (simp add: try_lock_def call_fuel_atomics_c)

lemma load_unlock [simp]: "load (unlock lk lm) lk = (0 :: int32_t)"
  by (simp add: unlock_def load_store_same)

section \<open>Steps\<close>

lemma word_step_cases [consumes 1, case_names Taken Busy Run Release]:
  assumes "word_step M n lk a s = Some s'"
  obtains i lm where "a = Acquire i" and "i < length (threads (callers s))"
      and "i \<notin> set (arrived s)" and "try_lock M n lk (lock_memory s) = Some (True, lm)"
      and "s' = s\<lparr>lock_memory := lm, arrived := arrived s @ [i]\<rparr>"
  | i lm where "a = Acquire i" and "i < length (threads (callers s))"
      and "i \<notin> set (arrived s)" and "try_lock M n lk (lock_memory s) = Some (False, lm)"
      and "s' = s\<lparr>lock_memory := lm\<rparr>"
  | i p where "a = Run i" and "i \<in> set (inside s)" and "schedule M i (callers s) = Some p"
      and "s' = s\<lparr>callers := p\<rparr>"
  | i where "a = Release i" and "i \<in> set (inside s)"
      and "result (threads (callers s) ! i) \<noteq> None"
      and "s' = s\<lparr>lock_memory := unlock lk (lock_memory s), departed := i # departed s\<rparr>"
  using assms by (cases a) (auto split: if_splits option.splits)

lemma inside_simps [simp]:
  "inside (s\<lparr>lock_memory := lm\<rparr>) = inside s"
  "inside (s\<lparr>callers := p\<rparr>) = inside s"
  "inside (s\<lparr>lock_memory := lm, arrived := arrived s @ [i]\<rparr>)
     = inside s @ (if i \<in> set (departed s) then [] else [i])"
  "inside (s\<lparr>lock_memory := lm, departed := i # departed s\<rparr>) = removeAll i (inside s)"
  by (auto simp: inside_def removeAll_filter_not_eq intro: filter_cong)

lemma inside_subset: "set (inside s) \<subseteq> set (arrived s)"
  by (auto simp: inside_def)

text \<open>When at most one thread is inside, it is the holder.\<close>

lemma inside_single:
  assumes "word_inv lk s"
  shows "i \<in> set (inside s) \<longleftrightarrow> inside s = [i]"
    and "holder (lock_abs s) = Some i \<longleftrightarrow> inside s = [i]"
    and "holder (lock_abs s) = None \<longleftrightarrow> load (lock_memory s) lk = (0 :: int32_t)"
proof -
  from assms have l: "length (inside s) \<le> 1"
    and z: "load (lock_memory s) lk = (0 :: int32_t) \<longleftrightarrow> inside s = []"
    by (simp_all add: word_inv_def)
  from l have c: "inside s = [] \<or> (\<exists>j. inside s = [j])"
    by (cases "inside s") auto
  from c show "i \<in> set (inside s) \<longleftrightarrow> inside s = [i]"
    by auto
  from c show "holder (lock_abs s) = Some i \<longleftrightarrow> inside s = [i]"
    by (auto simp: lock_abs_def)
  from z show "holder (lock_abs s) = None \<longleftrightarrow> load (lock_memory s) lk = (0 :: int32_t)"
    by (simp add: lock_abs_def split: list.splits)
qed

section \<open>The invariant\<close>

lemma word_inv_guard: "word_inv lk (word_guard M lk calls m lm)"
  by (simp add: word_inv_def word_guard_def inside_def)

lemma word_inv_step:
  assumes tas: "\<And>lm. try_lock M n lk lm
      = Some (load lm lk = (0 :: int32_t), store lm lk (1 :: int32_t))"
    and inv: "word_inv lk s" and step: "word_step M n lk a s = Some s'"
  shows "word_inv lk s'"
  using step
proof (cases rule: word_step_cases)
  case (Taken i lm)
  with tas [of "lock_memory s"] have "load (lock_memory s) lk = (0 :: int32_t)"
    and "lm = store (lock_memory s) lk (1 :: int32_t)"
    by simp_all
  with inv Taken show ?thesis
    by (auto simp: word_inv_def load_store_same)
next
  case (Busy i lm)
  with tas [of "lock_memory s"] have "load (lock_memory s) lk \<noteq> (0 :: int32_t)"
    and "lm = store (lock_memory s) lk (1 :: int32_t)"
    by simp_all
  with inv Busy show ?thesis
    by (simp add: word_inv_def load_store_same)
next
  case (Run i p)
  with inv show ?thesis by (simp add: word_inv_def)
next
  case (Release i)
  with inside_single(1) [OF inv, of i] have "inside s = [i]" by simp
  moreover from Release inside_subset [of s] have "i \<in> set (arrived s)" by blast
  ultimately show ?thesis
    using inv Release by (simp add: word_inv_def)
qed

section \<open>The lock word implements the discipline\<close>

text \<open>One action does to the lock word what it does to the discipline; an attempt that
  finds the lock taken is an action the discipline skips.\<close>

lemma word_step_abs:
  assumes tas: "\<And>lm. try_lock M n lk lm
      = Some (load lm lk = (0 :: int32_t), store lm lk (1 :: int32_t))"
    and inv: "word_inv lk s"
  shows "lock_abs (run_word M n lk [a] s) = run_actions M [a] (lock_abs s)"
proof (cases a)
  case (Acquire i)
  show ?thesis
  proof (cases "inside s = []")
    case True
    with inv have "load (lock_memory s) lk = (0 :: int32_t)" by (simp add: word_inv_def)
    with inv True Acquire show ?thesis
      by (auto simp: tas lock_abs_def word_inv_def)
  next
    case False
    with inv have "load (lock_memory s) lk \<noteq> (0 :: int32_t)" by (simp add: word_inv_def)
    with False Acquire show ?thesis
      by (auto simp: tas lock_abs_def split: list.splits)
  qed
next
  case (Run i)
  with inside_single(1,2) [OF inv, of i] show ?thesis
    by (cases "schedule M i (callers s)") (auto simp: lock_abs_def)
next
  case (Release i)
  with inside_single(1,2) [OF inv, of i] show ?thesis
    by (auto simp: lock_abs_def)
qed

lemma run_word_inv:
  assumes "\<And>lm. try_lock M n lk lm
      = Some (load lm lk = (0 :: int32_t), store lm lk (1 :: int32_t))"
    and "word_inv lk s"
  shows "word_inv lk (run_word M n lk as s)"
  using assms(2)
proof (induction as arbitrary: s)
  case Nil
  then show ?case by simp
next
  case (Cons a as)
  show ?case
  proof (cases "word_step M n lk a s")
    case None
    with Cons show ?thesis by simp
  next
    case (Some s')
    from word_inv_step [OF assms(1) Cons.prems Some] Cons.IH Some show ?thesis by simp
  qed
qed

lemma run_word_abs:
  assumes tas: "\<And>lm. try_lock M n lk lm
      = Some (load lm lk = (0 :: int32_t), store lm lk (1 :: int32_t))"
    and "word_inv lk s"
  shows "lock_abs (run_word M n lk as s) = run_actions M as (lock_abs s)"
  using assms(2)
proof (induction as arbitrary: s)
  case Nil
  show ?case by simp
next
  case (Cons a as)
  have "run_word M n lk (a # as) s = run_word M n lk as (run_word M n lk [a] s)"
    by (simp split: option.splits)
  moreover have "run_actions M (a # as) (lock_abs s)
      = run_actions M as (run_actions M [a] (lock_abs s))"
    by (simp split: option.splits)
  moreover from Cons.prems have "word_inv lk (run_word M n lk [a] s)"
    by (rule run_word_inv [OF tas])
  ultimately show ?case
    using Cons.IH word_step_abs [OF tas Cons.prems, of a] by (simp del: run_word.simps run_actions.simps)
qed

text \<open>Every state the lock word reaches stands for a state the discipline reaches.\<close>

lemma word_step_lock_reaches:
  assumes tas: "\<And>lm. try_lock M n lk lm
      = Some (load lm lk = (0 :: int32_t), store lm lk (1 :: int32_t))"
    and inv: "word_inv lk s" and step: "word_step M n lk a s = Some s'"
    and r: "lock_reaches M g (lock_abs s)"
  shows "lock_reaches M g (lock_abs s')"
proof -
  from step word_step_abs [OF tas inv, of a]
  have "lock_abs s' = run_actions M [a] (lock_abs s)" by simp
  with lock_reaches_run_actions_from [OF r, of "[a]"] show ?thesis by simp
qed

lemma word_reaches_refines:
  assumes tas: "\<And>lm. try_lock M n lk lm
      = Some (load lm lk = (0 :: int32_t), store lm lk (1 :: int32_t))"
    and "word_reaches M n lk (word_guard M lk calls m lm) s"
  shows "word_inv lk s \<and> lock_reaches M (guard M calls m) (lock_abs s)"
  using assms(2)
proof (induction rule: word_reaches.induct)
  case start
  show ?case
    by (simp add: word_inv_guard)
      (simp add: lock_abs_def word_guard_def guard_def inside_def lock_reaches.start)
next
  case (later s' a s'')
  from later.IH later.hyps(2) show ?case
    using word_inv_step [OF tas, of s' a s''] word_step_lock_reaches [OF tas, of s' a s'']
    by blast
qed

lemma word_reaches_run_word_from:
  "word_reaches M n lk s0 s \<Longrightarrow> word_reaches M n lk s0 (run_word M n lk as s)"
  by (induction as arbitrary: s) (auto split: option.splits intro: word_reaches.later)

lemma word_reaches_run_word: "word_reaches M n lk s (run_word M n lk as s)"
  by (rule word_reaches_run_word_from) (rule word_reaches.start)

section \<open>What carries over\<close>

text \<open>Mutual exclusion: every thread but the one inside is where it started or has
  returned, and an attempt made while a thread is inside lets nobody in.\<close>

lemma word_exclusive:
  assumes tas: "\<And>lm. try_lock M n lk lm
      = Some (load lm lk = (0 :: int32_t), store lm lk (1 :: int32_t))"
    and r: "word_reaches M n lk (word_guard M lk calls m lm) s"
    and j: "j < length calls" "j \<notin> set (inside s)"
  shows "threads (callers s) ! j = call_config M (fst (calls ! j)) (snd (calls ! j)) m
     \<or> result (threads (callers s) ! j) \<noteq> None"
proof -
  note ref = word_reaches_refines [OF tas r]
  from j(2) inside_single(1,2) [OF conjunct1 [OF ref], of j]
  have "holder (lock_abs s) \<noteq> Some j"
    by simp
  from lock_exclusive [OF conjunct2 [OF ref] j(1) this] show ?thesis
    by (simp add: lock_abs_def)
qed

lemma word_busy:
  assumes tas: "\<And>lm. try_lock M n lk lm
      = Some (load lm lk = (0 :: int32_t), store lm lk (1 :: int32_t))"
    and inv: "word_inv lk s" and held: "load (lock_memory s) lk \<noteq> (0 :: int32_t)"
    and step: "word_step M n lk (Acquire j) s = Some s'"
  shows "arrived s' = arrived s \<and> inside s' = inside s \<and> callers s' = callers s"
  using step held tas [of "lock_memory s"]
  by (cases rule: word_step_cases) auto

text \<open>Linearizability: whenever the lock word is 0, what the threads have done is what
  their calls do one after the other, in the order in which they took the lock.\<close>

lemma word_linearizable:
  assumes tas: "\<And>lm. try_lock M n lk lm
      = Some (load lm lk = (0 :: int32_t), store lm lk (1 :: int32_t))"
    and r: "word_reaches M n lk (word_guard M lk calls m lm) s"
    and free: "load (lock_memory s) lk = (0 :: int32_t)"
  shows "sequential M m (map ((!) calls) (arrived s)) (outcomes (callers s) (arrived s))
     (shared (callers s))"
proof -
  note ref = word_reaches_refines [OF tas r]
  from free have "holder (lock_abs s) = None"
    by (simp add: inside_single(3) [OF conjunct1 [OF ref]])
  from lock_linearizable [OF conjunct2 [OF ref] this] show ?thesis
    by (simp add: lock_abs_def)
qed

text \<open>Progress: an action that is enabled in the discipline is enabled on the lock
  word, so the lock word makes a step that is not a failed attempt wherever the
  discipline makes a step.\<close>

lemma lock_step_word_step:
  assumes tas: "\<And>lm. try_lock M n lk lm
      = Some (load lm lk = (0 :: int32_t), store lm lk (1 :: int32_t))"
    and inv: "word_inv lk s" and step: "lock_step M a (lock_abs s) = Some t"
  shows "\<exists>s'. word_step M n lk a s = Some s' \<and> lock_abs s' = t"
proof -
  have "word_step M n lk a s \<noteq> None"
    using step
  proof (cases rule: lock_step_cases)
    case (Acquire i)
    with inv have "load (lock_memory s) lk = (0 :: int32_t)"
      by (simp add: inside_single(3))
    with Acquire show ?thesis by (simp add: tas lock_abs_def)
  next
    case (Run i p)
    with inside_single(1,2) [OF inv, of i] show ?thesis by (simp add: lock_abs_def)
  next
    case (Release i)
    with inside_single(1,2) [OF inv, of i] show ?thesis by (simp add: lock_abs_def)
  qed
  then obtain s' where s': "word_step M n lk a s = Some s'" by blast
  with word_step_abs [OF tas inv, of a] step have "lock_abs s' = t" by simp
  with s' show ?thesis by blast
qed

lemma word_progress:
  assumes tas: "\<And>lm. try_lock M n lk lm
      = Some (load lm lk = (0 :: int32_t), store lm lk (1 :: int32_t))"
    and r: "word_reaches M n lk (word_guard M lk calls m lm) s"
    and ret: "\<forall>j < length calls. \<forall>m1. call_fuel M k (fst (calls ! j)) (snd (calls ! j)) m1 \<noteq> None"
  shows "(load (lock_memory s) lk = (0 :: int32_t) \<and> set (arrived s) = {..<length calls}) \<or>
     (\<exists>a s'. word_step M n lk a s = Some s' \<and> lock_step M a (lock_abs s) = Some (lock_abs s'))"
proof -
  note ref = word_reaches_refines [OF tas r]
  from lock_progress [OF conjunct2 [OF ref] ret]
  consider "holder (lock_abs s) = None" and "set (entered (lock_abs s)) = {..<length calls}"
    | a t where "lock_step M a (lock_abs s) = Some t"
    by auto
  then show ?thesis
  proof cases
    case 1
    with inside_single(3) [OF conjunct1 [OF ref]] show ?thesis by (simp add: lock_abs_def)
  next
    case 2
    with lock_step_word_step [OF tas conjunct1 [OF ref] 2] show ?thesis by auto
  qed
qed

section \<open>The lock word on the file's own primitive\<close>

text \<open>No attempt returns, so no action is ever enabled: the lock word and the callers
  stay as they were set up.\<close>

lemma file_word_step:
  assumes "program M = atomics_c"
  shows "word_step M n lk a (word_guard M lk calls m lm) = None"
  using assms by (cases a) (simp_all add: try_lock_file word_guard_def inside_def)

lemma file_word_reaches:
  assumes "program M = atomics_c" and "word_reaches M n lk (word_guard M lk calls m lm) s"
  shows "s = word_guard M lk calls m lm"
  using assms(2)
  by (induction rule: word_reaches.induct) (simp_all add: file_word_step [OF assms(1)])

section \<open>The reference program on the lock word\<close>

lemma try_lock_reference_machine:
  "l \<noteq> Some 0 \<Longrightarrow> reference_fuel \<le> n \<Longrightarrow>
   try_lock (reference_machine l t) n lk lm
     = Some (load lm lk = (0 :: int32_t), store lm lk (1 :: int32_t))"
  by (simp add: try_lock_reference)

text \<open>The stress test with the lock word as the lock: whenever the lock word is 0 and
  all threads have arrived, no update is lost.\<close>

lemma word_counts_increments:
  assumes r: "word_reaches (reference_machine l t) n lk
      (word_guard (reference_machine l t) lk (increments N p) m lm) s"
    and l: "l \<noteq> Some 0" and n: "reference_fuel \<le> n"
    and free: "load (lock_memory s) lk = (0 :: int32_t)" and all: "set (arrived s) = {..<N}"
  shows "load (shared (callers s)) p = (load m p :: int32_t) + of_nat N"
    and "k < N \<Longrightarrow> outcome_of (callers s) (arrived s ! k) = Some (I32 (load m p + of_nat k))"
proof -
  note ref = word_reaches_refines [OF try_lock_reference_machine [OF l n] r]
  from free have h: "holder (lock_abs s) = None"
    by (simp add: inside_single(3) [OF conjunct1 [OF ref]])
  from all have e: "set (entered (lock_abs s)) = {..<N}"
    by (simp add: lock_abs_def)
  from lock_counts_increments [OF conjunct2 [OF ref] h e l]
  show "load (shared (callers s)) p = (load m p :: int32_t) + of_nat N"
    and "k < N \<Longrightarrow> outcome_of (callers s) (arrived s ! k) = Some (I32 (load m p + of_nat k))"
    by (simp_all add: lock_abs_def)
qed

section \<open>Why an attempt has to be indivisible\<close>

text \<open>Two threads that make their attempts as calls of the reference program on the
  pool, the second between the read and the write of the first, both find the lock as
  it was: when it was free, both have it.\<close>

lemma spawn_acquisitions:
  assumes "program M = reference_c" and "\<not> stack_full M 0"
  shows "spawn M (acquisitions 2 lk) m =
     \<lparr>threads = replicate 2 (Exec (Frame [(''ptr'', P lk), (''arg'', I32 1)]
          (reference_body Lock_test_and_set Int32_t)) [] m), shared = m\<rparr>"
  using assms by (simp add: acquisitions_def spawn_def call_config_reference)

lemma interleaved_attempts:
  "map (outcome_of (pool_after (reference_machine None t) interleaved (acquisitions 2 lk) m)) [0, 1]
     = [Some (I32 (load m lk)), Some (I32 (load m lk))]"
  unfolding pool_after_def
  by (subst spawn_acquisitions)
    (simp_all add: interleaved_def schedule_def outcome_of_def numeral_2_eq_2)

text \<open>
  C36. The lock word implements the lock. The lock of the critical section is a 32-bit
  word in memory of the library, taken by a call of \<^verbatim>\<open>__sync_lock_test_and_set_4\<close> with
  the token 1 that returns 0, and given back by storing 0. With the reference program
  and at least \<open>reference_fuel\<close> steps for an attempt, every state the threads reach
  stands for a state that the lock discipline reaches, the lock word is 0 exactly when
  no thread holds the lock, and any list of actions does to the lock word what it does
  to the discipline. With the file no state but the first is ever reached and no action
  is enabled in it: the attempt to take the lock is a call that does not return, so no
  thread ever gets in.
\<close>

theorem lock_word_implements_lock:
  assumes "word_reaches (reference_machine l t) n lk
      (word_guard (reference_machine l t) lk calls m lm) s"
    and "l \<noteq> Some 0" and "reference_fuel \<le> n"
    and "word_reaches (machine_of l t) n lk (word_guard (machine_of l t) lk calls m lm) s'"
  shows "lock_reaches (reference_machine l t) (guard (reference_machine l t) calls m) (lock_abs s) \<and>
     (holder (lock_abs s) = None \<longleftrightarrow> load (lock_memory s) lk = (0 :: int32_t)) \<and>
     lock_abs (run_word (reference_machine l t) n lk as s)
       = run_actions (reference_machine l t) as (lock_abs s) \<and>
     s' = word_guard (machine_of l t) lk calls m lm \<and>
     word_step (machine_of l t) n lk a s' = None"
proof -
  note tas = try_lock_reference_machine [OF assms(2,3)]
  note ref = word_reaches_refines [OF tas assms(1)]
  from file_word_reaches [OF program_machine_of assms(4)]
  have "s' = word_guard (machine_of l t) lk calls m lm" .
  with ref inside_single(3) [OF conjunct1 [OF ref]] run_word_abs [OF tas conjunct1 [OF ref]]
  show ?thesis
    by (simp add: file_word_step del: word_step.simps)
qed

theorem lock_word_implements_lock_witness:
  "word_reaches (reference_machine None False) 6 128
     (word_guard (reference_machine None False) 128 (increments 2 16) (\<lambda>_. 0) (\<lambda>_. 0))
     (run_word (reference_machine None False) 6 128 (serve 6 1)
       (word_guard (reference_machine None False) 128 (increments 2 16) (\<lambda>_. 0) (\<lambda>_. 0))) \<and>
   None \<noteq> Some (0 :: nat) \<and> reference_fuel \<le> 6 \<and>
   word_reaches (machine_of None False) 6 128
     (word_guard (machine_of None False) 128 (increments 2 16) (\<lambda>_. 0) (\<lambda>_. 0))
     (word_guard (machine_of None False) 128 (increments 2 16) (\<lambda>_. 0) (\<lambda>_. 0)) \<and>
   lock_reaches (reference_machine None False)
     (guard (reference_machine None False) (increments 2 16) (\<lambda>_. 0))
     (lock_abs (run_word (reference_machine None False) 6 128 (serve 6 1)
       (word_guard (reference_machine None False) 128 (increments 2 16) (\<lambda>_. 0) (\<lambda>_. 0)))) \<and>
   lock_abs (run_word (reference_machine None False) 6 128 (serve 6 0)
     (run_word (reference_machine None False) 6 128 (serve 6 1)
       (word_guard (reference_machine None False) 128 (increments 2 16) (\<lambda>_. 0) (\<lambda>_. 0))))
     = run_actions (reference_machine None False) (serve 6 0)
         (lock_abs (run_word (reference_machine None False) 6 128 (serve 6 1)
           (word_guard (reference_machine None False) 128 (increments 2 16) (\<lambda>_. 0) (\<lambda>_. 0)))) \<and>
   word_step (machine_of None False) 6 128 (Acquire 0)
     (word_guard (machine_of None False) 128 (increments 2 16) (\<lambda>_. 0) (\<lambda>_. 0)) = None"
proof -
  note r = word_reaches_run_word [of "reference_machine None False" 6 128
    "word_guard (reference_machine None False) 128 (increments 2 16) (\<lambda>_. 0) (\<lambda>_. 0)" "serve 6 1"]
  note r' = word_reaches.start [of "machine_of None False" 6 128
    "word_guard (machine_of None False) 128 (increments 2 16) (\<lambda>_. 0) (\<lambda>_. 0)"]
  have n: "None \<noteq> Some (0 :: nat)" and f: "reference_fuel \<le> 6"
    by (simp_all add: reference_fuel_def)
  from lock_word_implements_lock [OF r n f r', of "serve 6 0" "Acquire 0"] r n f r'
  show ?thesis by blast
qed

end
