(* ===== verification/Keyed_Locks.thy ===== *)
theory Keyed_Locks
  imports Locked_Calls
begin

text \<open>
  The other lock the interface mentions for the critical section: a spin lock keyed by
  address. Every key has a lock of its own; a thread takes the lock of the key of the
  address its call is given, so calls with different keys run at the same time. The
  key function \<open>kf\<close> is a parameter: \<open>id\<close> keys the locks by the address itself,
  \<open>block\<close> by the block of eight bytes the address lies in. The state \<open>keyed\<close> has
  the pool of callers, the holder of each lock (\<open>owners\<close>) and the threads in the order
  in which they took theirs (\<open>admitted\<close>).

  The lemmas of the first sections hold for every program and every key function. At
  most one thread is in the middle of a call on any one key (\<open>keyed_exclusive\<close>). When
  all calls have the same key the locks are the single lock of \<open>Lock_Discipline\<close>
  (\<open>keyed_step_one_location\<close>, \<open>keyed_reaches_one_location\<close>), so everything shown
  for it holds, the stress test included. With the file no lock that is taken is ever
  given back (\<open>file_keyed\<close>).

  Keyed by the address, the locks do not serialize calls on different addresses whose
  operands overlap, a 32-bit operand at \<open>p\<close> and a 16-bit operand at \<open>p + 2\<close>: an
  execution of the reference program is shown in which both calls return what no order
  of the two calls gives and an update is lost (\<open>overlapping_not_linearizable\<close>,
  \<open>overlap_loses_update\<close>). Keyed by the block, the two calls share a lock when \<open>p\<close>
  is a multiple of four, and every execution is linearizable
  (\<open>overlapping_block_linearizable\<close>).
\<close>

unbundle bit_operations_syntax

section \<open>Locks keyed by address\<close>

text \<open>The key of a call is the address its first argument points to.\<close>

fun key_of :: "(addr \<Rightarrow> addr) \<Rightarrow> string \<times> val list \<Rightarrow> addr option" where
  "key_of kf (g, P p # vs) = Some (kf p)"
| "key_of kf (g, vs) = None"

definition key :: "(addr \<Rightarrow> addr) \<Rightarrow> (string \<times> val list) list \<Rightarrow> nat \<Rightarrow> addr option" where
  "key kf calls i = (if i < length calls then key_of kf (calls ! i) else None)"

text \<open>The block of eight bytes an address lies in, eight bytes being the widest operand
  of the interface.\<close>

definition block :: "addr \<Rightarrow> addr" where
  "block p = p AND NOT 7"

record keyed =
  members :: pool
  owners :: "addr \<rightharpoonup> nat"
  admitted :: "nat list"

definition keyed_guard :: "machine \<Rightarrow> (string \<times> val list) list \<Rightarrow> memory \<Rightarrow> keyed" where
  "keyed_guard M calls m = \<lparr>members = spawn M calls m, owners = Map.empty, admitted = []\<rparr>"

fun keyed_step ::
  "machine \<Rightarrow> (addr \<Rightarrow> addr) \<Rightarrow> (string \<times> val list) list \<Rightarrow> action \<Rightarrow> keyed
     \<Rightarrow> keyed option" where
  "keyed_step M kf calls (Acquire i) s =
     (case key kf calls i of
        None \<Rightarrow> None
      | Some k \<Rightarrow>
          if owners s k = None \<and> i < length (threads (members s)) \<and> i \<notin> set (admitted s)
          then Some (s\<lparr>owners := (owners s)(k \<mapsto> i), admitted := admitted s @ [i]\<rparr>)
          else None)"
| "keyed_step M kf calls (Run i) s =
     (case key kf calls i of
        None \<Rightarrow> None
      | Some k \<Rightarrow>
          if owners s k = Some i
          then map_option (\<lambda>p. s\<lparr>members := p\<rparr>) (schedule M i (members s))
          else None)"
| "keyed_step M kf calls (Release i) s =
     (case key kf calls i of
        None \<Rightarrow> None
      | Some k \<Rightarrow>
          if owners s k = Some i \<and> result (threads (members s) ! i) \<noteq> None
          then Some (s\<lparr>owners := (owners s)(k := None)\<rparr>)
          else None)"

inductive keyed_reaches ::
  "machine \<Rightarrow> (addr \<Rightarrow> addr) \<Rightarrow> (string \<times> val list) list \<Rightarrow> keyed \<Rightarrow> keyed \<Rightarrow> bool"
  for M kf calls s where
  start: "keyed_reaches M kf calls s s"
| later: "keyed_reaches M kf calls s s' \<Longrightarrow> keyed_step M kf calls a s' = Some s'' \<Longrightarrow>
     keyed_reaches M kf calls s s''"

text \<open>The execution a list of actions picks; an action that is not enabled is skipped.\<close>

fun run_keyed ::
  "machine \<Rightarrow> (addr \<Rightarrow> addr) \<Rightarrow> (string \<times> val list) list \<Rightarrow> action list \<Rightarrow> keyed
     \<Rightarrow> keyed" where
  "run_keyed M kf calls [] s = s"
| "run_keyed M kf calls (a # as) s =
     (case keyed_step M kf calls a s of
        None \<Rightarrow> run_keyed M kf calls as s
      | Some s' \<Rightarrow> run_keyed M kf calls as s')"

text \<open>A thread that is not in the middle of its call: it is where it started or has
  returned.\<close>

definition at_rest :: "machine \<Rightarrow> (string \<times> val list) list \<Rightarrow> memory \<Rightarrow> keyed \<Rightarrow> nat \<Rightarrow> bool" where
  "at_rest M calls m s j \<longleftrightarrow>
     threads (members s) ! j = call_config M (fst (calls ! j)) (snd (calls ! j)) m
     \<or> result (threads (members s) ! j) \<noteq> None"

text \<open>The invariant: a lock is held by a thread whose call has that key and that has
  been admitted, and every thread that does not hold the lock of its key is at rest.\<close>

definition keyed_inv ::
  "machine \<Rightarrow> (addr \<Rightarrow> addr) \<Rightarrow> (string \<times> val list) list \<Rightarrow> memory \<Rightarrow> keyed \<Rightarrow> bool" where
  "keyed_inv M kf calls m s \<longleftrightarrow>
     length (threads (members s)) = length calls \<and>
     (\<forall>k i. owners s k = Some i \<longrightarrow> key kf calls i = Some k \<and> i \<in> set (admitted s)) \<and>
     (\<forall>j < length calls. j \<notin> set (admitted s) \<longrightarrow>
        threads (members s) ! j = call_config M (fst (calls ! j)) (snd (calls ! j)) m) \<and>
     (\<forall>j \<in> set (admitted s). \<forall>k. key kf calls j = Some k \<longrightarrow> owners s k \<noteq> Some j \<longrightarrow>
        result (threads (members s) ! j) \<noteq> None)"

text \<open>The state of the single lock that a state of the locks stands for when all calls
  have the key \<open>k\<close>.\<close>

definition keyed_abs :: "addr \<Rightarrow> keyed \<Rightarrow> guarded" where
  "keyed_abs k s = \<lparr>inner = members s, holder = owners s k, entered = admitted s\<rparr>"

text \<open>Two calls whose operands overlap: a 32-bit increment of the upper half of the
  word at \<open>p\<close>, and a 16-bit increment of that half, which lies at \<open>p + 2\<close>. The
  execution lets the second call run between the read and the write of the first.\<close>

definition overlapping :: "addr \<Rightarrow> (string \<times> val list) list" where
  "overlapping p =
     [(symbol (Fetch_and_op Op_add) W4, [P p, I32 65536]),
      (symbol (Fetch_and_op Op_add) W2, [P (p + 2), I16 1])]"

definition overlapped :: "action list" where
  "overlapped =
     [Acquire 0, Acquire 1, Run 0, Run 1, Run 1, Run 1, Run 1, Run 1, Release 1,
      Run 0, Run 0, Run 0, Run 0, Release 0]"

definition overlap_end :: "nat option \<Rightarrow> bool \<Rightarrow> addr \<Rightarrow> memory \<Rightarrow> keyed" where
  "overlap_end l t p m =
     run_keyed (reference_machine l t) id (overlapping p) overlapped
       (keyed_guard (reference_machine l t) (overlapping p) m)"

section \<open>Steps\<close>

lemma keyed_step_cases [consumes 1, case_names Acquire Run Release]:
  assumes "keyed_step M kf calls a s = Some s'"
  obtains i k where "a = Acquire i" and "key kf calls i = Some k" and "owners s k = None"
      and "i < length (threads (members s))" and "i \<notin> set (admitted s)"
      and "s' = s\<lparr>owners := (owners s)(k \<mapsto> i), admitted := admitted s @ [i]\<rparr>"
  | i k p where "a = Run i" and "key kf calls i = Some k" and "owners s k = Some i"
      and "schedule M i (members s) = Some p" and "s' = s\<lparr>members := p\<rparr>"
  | i k where "a = Release i" and "key kf calls i = Some k" and "owners s k = Some i"
      and "result (threads (members s) ! i) \<noteq> None" and "s' = s\<lparr>owners := (owners s)(k := None)\<rparr>"
  using assms by (cases a) (auto split: if_splits option.splits)

lemma key_less: "key kf calls i = Some k \<Longrightarrow> i < length calls"
  by (simp add: key_def split: if_splits)

lemma keyed_reaches_run_keyed_from:
  "keyed_reaches M kf calls s0 s \<Longrightarrow> keyed_reaches M kf calls s0 (run_keyed M kf calls as s)"
  by (induction as arbitrary: s) (auto split: option.splits intro: keyed_reaches.later)

lemma keyed_reaches_run_keyed: "keyed_reaches M kf calls s (run_keyed M kf calls as s)"
  by (rule keyed_reaches_run_keyed_from) (rule keyed_reaches.start)

section \<open>The invariant\<close>

lemma keyed_inv_guard: "keyed_inv M kf calls m (keyed_guard M calls m)"
  by (simp add: keyed_inv_def keyed_guard_def spawn_def case_prod_unfold)

lemma keyed_invD:
  assumes "keyed_inv M kf calls m s"
  shows "length (threads (members s)) = length calls"
    and "owners s k = Some i \<Longrightarrow> key kf calls i = Some k"
    and "owners s k = Some i \<Longrightarrow> i \<in> set (admitted s)"
    and "j < length calls \<Longrightarrow> j \<notin> set (admitted s) \<Longrightarrow>
      threads (members s) ! j = call_config M (fst (calls ! j)) (snd (calls ! j)) m"
    and "j \<in> set (admitted s) \<Longrightarrow> key kf calls j = Some k \<Longrightarrow> owners s k \<noteq> Some j \<Longrightarrow>
      result (threads (members s) ! j) \<noteq> None"
  using assms unfolding keyed_inv_def by blast+

lemma keyed_invI:
  assumes "length (threads (members s)) = length calls"
    and "\<And>k i. owners s k = Some i \<Longrightarrow> key kf calls i = Some k \<and> i \<in> set (admitted s)"
    and "\<And>j. j < length calls \<Longrightarrow> j \<notin> set (admitted s) \<Longrightarrow>
      threads (members s) ! j = call_config M (fst (calls ! j)) (snd (calls ! j)) m"
    and "\<And>j k. j \<in> set (admitted s) \<Longrightarrow> key kf calls j = Some k \<Longrightarrow> owners s k \<noteq> Some j \<Longrightarrow>
      result (threads (members s) ! j) \<noteq> None"
  shows "keyed_inv M kf calls m s"
  using assms unfolding keyed_inv_def by blast

lemma keyed_inv_acquire:
  assumes inv: "keyed_inv M kf calls m s" and k: "key kf calls i = Some k" and free: "owners s k = None"
    and i: "i \<notin> set (admitted s)"
  shows "keyed_inv M kf calls m (s\<lparr>owners := (owners s)(k \<mapsto> i), admitted := admitted s @ [i]\<rparr>)"
    (is "keyed_inv M kf calls m ?s'")
proof (rule keyed_invI)
  show "length (threads (members ?s')) = length calls"
    by (simp add: keyed_invD(1) [OF inv])
  show "key kf calls i' = Some k' \<and> i' \<in> set (admitted ?s')" if "owners ?s' k' = Some i'" for k' i'
    using that k keyed_invD(2,3) [OF inv, of k' i'] by (auto split: if_splits)
  show "threads (members ?s') ! j = call_config M (fst (calls ! j)) (snd (calls ! j)) m"
    if "j < length calls" and "j \<notin> set (admitted ?s')" for j
    using that keyed_invD(4) [OF inv, of j] by simp
  show "result (threads (members ?s') ! j) \<noteq> None"
    if "j \<in> set (admitted ?s')" and "key kf calls j = Some k'" and "owners ?s' k' \<noteq> Some j" for j k'
  proof -
    from that k have "j \<noteq> i" by auto
    moreover from that(3) free have "owners s k' \<noteq> Some j" by (cases "k' = k") simp_all
    ultimately show ?thesis
      using that(1,2) keyed_invD(5) [OF inv, of j k'] by simp
  qed
qed

lemma keyed_inv_run:
  assumes inv: "keyed_inv M kf calls m s" and k: "key kf calls i = Some k" and own: "owners s k = Some i"
    and sch: "schedule M i (members s) = Some p"
  shows "keyed_inv M kf calls m (s\<lparr>members := p\<rparr>)" (is "keyed_inv M kf calls m ?s'")
proof (rule keyed_invI)
  from sch obtain c' where ts: "threads p = (threads (members s))[i := c']"
    by (rule schedule_SomeD)
  then have same: "threads p ! j = threads (members s) ! j" if "j \<noteq> i" for j
    using that by simp
  show "length (threads (members ?s')) = length calls"
    by (simp add: ts keyed_invD(1) [OF inv])
  show "key kf calls i' = Some k' \<and> i' \<in> set (admitted ?s')" if "owners ?s' k' = Some i'" for k' i'
    using that keyed_invD(2,3) [OF inv, of k' i'] by simp
  show "threads (members ?s') ! j = call_config M (fst (calls ! j)) (snd (calls ! j)) m"
    if "j < length calls" and "j \<notin> set (admitted ?s')" for j
  proof -
    from that(2) keyed_invD(3) [OF inv own] have "j \<noteq> i" by auto
    with that keyed_invD(4) [OF inv, of j] same show ?thesis by simp
  qed
  show "result (threads (members ?s') ! j) \<noteq> None"
    if "j \<in> set (admitted ?s')" and "key kf calls j = Some k'" and "owners ?s' k' \<noteq> Some j" for j k'
  proof -
    from that(2,3) k own have "j \<noteq> i" by auto
    with that keyed_invD(5) [OF inv, of j k'] same show ?thesis by simp
  qed
qed

lemma keyed_inv_release:
  assumes inv: "keyed_inv M kf calls m s" and k: "key kf calls i = Some k" and own: "owners s k = Some i"
    and res: "result (threads (members s) ! i) \<noteq> None"
  shows "keyed_inv M kf calls m (s\<lparr>owners := (owners s)(k := None)\<rparr>)"
    (is "keyed_inv M kf calls m ?s'")
proof (rule keyed_invI)
  show "length (threads (members ?s')) = length calls"
    by (simp add: keyed_invD(1) [OF inv])
  show "key kf calls i' = Some k' \<and> i' \<in> set (admitted ?s')" if "owners ?s' k' = Some i'" for k' i'
    using that keyed_invD(2,3) [OF inv, of k' i'] by (simp split: if_splits)
  show "threads (members ?s') ! j = call_config M (fst (calls ! j)) (snd (calls ! j)) m"
    if "j < length calls" and "j \<notin> set (admitted ?s')" for j
    using that keyed_invD(4) [OF inv, of j] by simp
  show "result (threads (members ?s') ! j) \<noteq> None"
    if "j \<in> set (admitted ?s')" and "key kf calls j = Some k'" and "owners ?s' k' \<noteq> Some j" for j k'
  proof (cases "j = i")
    case True
    with res show ?thesis by simp
  next
    case False
    with that(3) own have "owners s k' \<noteq> Some j" by (cases "k' = k") simp_all
    with that(1,2) keyed_invD(5) [OF inv, of j k'] show ?thesis by simp
  qed
qed

lemma keyed_inv_step:
  assumes "keyed_inv M kf calls m s" and "keyed_step M kf calls a s = Some s'"
  shows "keyed_inv M kf calls m s'"
  using assms(2,1)
  by (cases rule: keyed_step_cases)
    (simp_all add: keyed_inv_acquire keyed_inv_run keyed_inv_release)

lemma keyed_reaches_inv:
  "keyed_reaches M kf calls (keyed_guard M calls m) s \<Longrightarrow> keyed_inv M kf calls m s"
proof (induction rule: keyed_reaches.induct)
  case start
  show ?case by (rule keyed_inv_guard)
next
  case (later s' a s'')
  from later.IH later.hyps(2) show ?case by (rule keyed_inv_step)
qed

section \<open>Mutual exclusion on each address\<close>

text \<open>A thread that does not hold the lock of its key is at rest; so of two threads with
  the same key, one is.\<close>

lemma keyed_at_rest:
  assumes inv: "keyed_inv M kf calls m s" and k: "key kf calls j = Some k" and "owners s k \<noteq> Some j"
  shows "at_rest M calls m s j"
proof (cases "j \<in> set (admitted s)")
  case True
  with assms show ?thesis by (auto simp: keyed_inv_def at_rest_def)
next
  case False
  with inv key_less [OF k] show ?thesis by (simp add: keyed_inv_def at_rest_def)
qed

lemma keyed_exclusive:
  assumes r: "keyed_reaches M kf calls (keyed_guard M calls m) s"
    and "key kf calls i = Some k" and "key kf calls j = Some k" and "i \<noteq> j"
  shows "at_rest M calls m s i \<or> at_rest M calls m s j"
proof -
  note inv = keyed_reaches_inv [OF r]
  from assms(4) have "owners s k \<noteq> Some i \<or> owners s k \<noteq> Some j" by auto
  with keyed_at_rest [OF inv assms(2)] keyed_at_rest [OF inv assms(3)] show ?thesis by blast
qed

section \<open>Calls on one address\<close>

text \<open>When every call has the key \<open>k\<close>, an action does to the locks what it does to
  the single lock.\<close>

lemma key_one_location:
  assumes "\<forall>c \<in> set calls. key_of kf c = Some k"
  shows "key kf calls i = (if i < length calls then Some k else None)"
  using assms by (simp add: key_def)

lemma keyed_step_one_location:
  assumes one: "\<forall>c \<in> set calls. key_of kf c = Some k" and inv: "keyed_inv M kf calls m s"
  shows "map_option (keyed_abs k) (keyed_step M kf calls a s) = lock_step M a (keyed_abs k s)"
proof -
  from inv have len: "length (threads (members s)) = length calls"
    and own: "owners s k = Some i \<Longrightarrow> i < length calls" for i
    by (auto simp: keyed_inv_def dest: key_less)
  show ?thesis
  proof (cases a)
    case (Acquire i)
    with len show ?thesis
      by (auto simp: key_one_location [OF one] keyed_abs_def)
  next
    case (Run i)
    with own [of i] show ?thesis
      by (cases "schedule M i (members s)") (auto simp: key_one_location [OF one] keyed_abs_def)
  next
    case (Release i)
    with own [of i] show ?thesis
      by (auto simp: key_one_location [OF one] keyed_abs_def)
  qed
qed

lemma keyed_reaches_one_location:
  assumes one: "\<forall>c \<in> set calls. key_of kf c = Some k"
    and r: "keyed_reaches M kf calls (keyed_guard M calls m) s"
  shows "lock_reaches M (guard M calls m) (keyed_abs k s)"
  using r
proof (induction rule: keyed_reaches.induct)
  case start
  show ?case by (simp add: keyed_abs_def keyed_guard_def guard_def lock_reaches.start)
next
  case (later s' a s'')
  from keyed_step_one_location [OF one keyed_reaches_inv [OF later.hyps(1)], of a] later.hyps(2)
  have "lock_step M a (keyed_abs k s') = Some (keyed_abs k s'')" by simp
  with later.IH show ?case by (rule lock_reaches.later)
qed

text \<open>The stress test has all its calls on the counter: under the locks keyed by
  address no update is lost.\<close>

lemma keyed_counts_increments:
  assumes r: "keyed_reaches (reference_machine l t) id (increments N p)
      (keyed_guard (reference_machine l t) (increments N p) m) s"
    and free: "owners s p = None" and all: "set (admitted s) = {..<N}" and l: "l \<noteq> Some 0"
  shows "load (shared (members s)) p = (load m p :: int32_t) + of_nat N"
proof -
  have "\<forall>c \<in> set (increments N p). key_of id c = Some p"
    by (simp add: increments_def)
  from keyed_reaches_one_location [OF this r] free all l
  show ?thesis
    using lock_counts_increments(1) [of l t N p m "keyed_abs p s"] by (simp add: keyed_abs_def)
qed

section \<open>The file under the locks\<close>

lemma keyed_reaches_par_reaches:
  "keyed_reaches M kf calls (keyed_guard M calls m) s \<Longrightarrow> par_reaches M (spawn M calls m) (members s)"
proof (induction rule: keyed_reaches.induct)
  case start
  show ?case by (simp add: keyed_guard_def par_reaches.initial)
next
  case (later s' a s'')
  from later.hyps(2) later.IH show ?case
    by (cases rule: keyed_step_cases) (auto intro: par_reaches.later par_step.thread)
qed

text \<open>With the file a lock that is taken is never given back: one thread for each
  address gets in and stays, and nothing is written.\<close>

lemma file_keyed:
  assumes "program M = atomics_c" and "keyed_reaches M kf calls (keyed_guard M calls m) s"
  shows "keyed_step M kf calls (Release i) s = None" and "shared (members s) = m"
    and "j < length calls \<Longrightarrow> outcome_of (members s) j = None"
proof -
  note pool = pool_summary [OF assms(1) keyed_reaches_par_reaches [OF assms(2)]]
  from pool show "shared (members s) = m"
    and "j < length calls \<Longrightarrow> outcome_of (members s) j = None"
    by simp_all
  show "keyed_step M kf calls (Release i) s = None"
  proof (cases "key kf calls i")
    case None
    then show ?thesis by simp
  next
    case (Some k)
    with pool key_less [OF Some] have "result (threads (members s) ! i) = None"
      by (simp add: outcome_of_def)
    with Some show ?thesis by simp
  qed
qed

section \<open>Operands that overlap\<close>

text \<open>The upper half of the 32-bit word at \<open>p\<close> is the 16-bit word at \<open>p + 2\<close>
  (\<open>load_upper_half\<close>); adding \<open>2 ^ 16\<close> to the word adds 1 to that half.\<close>

lemma upper_half_add:
  "(ucast (drop_bit 16 (v + 65536 :: int32_t)) :: int16_t) = ucast (drop_bit 16 v) + 1"
proof -
  have a: "drop_bit 16 (unat v + 65536) = drop_bit 16 (unat v) + 1"
    by (simp add: drop_bit_eq_div)
  have "unat (ucast (drop_bit 16 (v + 65536 :: int32_t)) :: int16_t)
      = take_bit 16 (drop_bit 16 (take_bit 32 (unat v + 65536)))"
    by (simp add: unsigned_ucast_eq unat_drop_bit_eq unat_word_ariths take_bit_eq_mod)
  also have "\<dots> = take_bit 16 (drop_bit 16 (unat v) + 1)"
    by (simp add: drop_bit_take_bit a)
  also have "\<dots> = unat (ucast (drop_bit 16 v) + 1 :: int16_t)"
    by (simp add: unsigned_ucast_eq unat_drop_bit_eq unat_word_ariths take_bit_eq_mod mod_simps)
  finally show ?thesis
    by (simp only: word_unat_eq_iff)
qed

text \<open>The two calls made one after the other, in either order: the call made second
  sees what the first has written to the half they share.\<close>

lemma overlapping_in_sequence:
  assumes "l \<noteq> Some 0"
  shows "map_option fst (in_sequence (reference_machine l t) reference_fuel (overlapping p) m)
      = Some [I32 (load m p), I16 (load m (p + 2) + 1)]"
    and "map_option fst (in_sequence (reference_machine l t) reference_fuel (rev (overlapping p)) m)
      = Some [I16 (load m (p + 2)), I32 (load (store m (p + 2) (load m (p + 2) + 1 :: int16_t)) p)]"
  using assms
  by (simp_all add: overlapping_def reference_calls contract_simps Let_def load_store_same
      load_upper_half [of "store m p (load m p + 65536 :: int32_t)"] upper_half_add
      load_upper_half [of m, symmetric])

text \<open>The execution under the locks keyed by address: both threads are admitted, since
  their keys differ, both calls return what the memory held at the start, and the word
  at \<open>p\<close> ends \<open>2 ^ 16\<close> higher.\<close>

lemma key_overlapping [simp]:
  "key id (overlapping p) 0 = Some p" "key id (overlapping p) (Suc 0) = Some (p + 2)"
  by (simp_all add: key_def overlapping_def)

lemma spawn_overlapping:
  assumes "l \<noteq> Some 0"
  shows "spawn (reference_machine l t) (overlapping p) m =
     \<lparr>threads =
        [Exec (Frame [(''ptr'', P p), (''arg'', I32 65536)]
           (reference_body (Fetch_and_op Op_add) Int32_t)) [] m,
         Exec (Frame [(''ptr'', P (p + 2)), (''arg'', I16 1)]
           (reference_body (Fetch_and_op Op_add) Int16_t)) [] m],
      shared = m\<rparr>"
  using assms by (simp add: overlapping_def spawn_def call_config_reference)

lemma overlap_end_reachable:
  "keyed_reaches (reference_machine l t) id (overlapping p)
     (keyed_guard (reference_machine l t) (overlapping p) m) (overlap_end l t p m)"
  unfolding overlap_end_def by (rule keyed_reaches_run_keyed)

lemma overlap_end:
  assumes "l \<noteq> Some 0"
  shows "owners (overlap_end l t p m) = Map.empty"
    and "admitted (overlap_end l t p m) = [0, 1]"
    and "outcomes (members (overlap_end l t p m)) [0, 1] = [I32 (load m p), I16 (load m (p + 2))]"
    and "load (shared (members (overlap_end l t p m))) p = (load m p :: int32_t) + 65536"
  unfolding overlap_end_def keyed_guard_def spawn_overlapping [OF assms]
  by (simp_all add: overlapped_def schedule_def outcomes_def outcome_of_def load_store_same)

text \<open>Each of the two calls has added 1 to the upper half of the word, and the half is
  1 higher: an update is lost.\<close>

lemma overlap_loses_update:
  assumes "l \<noteq> Some 0"
  shows "load (shared (members (overlap_end l t p m))) (p + 2) = (load m (p + 2) :: int16_t) + 1"
  by (simp only: load_upper_half overlap_end(4) [OF assms] upper_half_add)

text \<open>No order of the two calls gives these results: the execution is not
  linearizable, although each call held the lock of its address.\<close>

lemma sequential_results:
  assumes "map_option fst (in_sequence M n cs m) = Some vs" and "sequential M m cs vs' m'"
  shows "vs' = vs"
proof -
  from assms(1) obtain m0 where "in_sequence M n cs m = Some (vs, m0)"
    by auto
  from sequential_unique [OF in_sequence_sequential [OF this] assms(2)] show ?thesis
    by simp
qed

lemma load_upper_store:
  "(load (store m (p + 2) (load m (p + 2) + 1 :: int16_t)) p :: int32_t) \<noteq> load m p"
proof
  assume "(load (store m (p + 2) (load m (p + 2) + 1 :: int16_t)) p :: int32_t) = load m p"
  then have "(load (store m (p + 2) (load m (p + 2) + 1 :: int16_t)) (p + 2) :: int16_t)
      = load m (p + 2)"
    by (simp only: load_upper_half)
  then show False by (simp add: load_store_same)
qed

lemma overlapping_not_linearizable:
  assumes l: "l \<noteq> Some 0"
  shows "\<not> sequential (reference_machine l t) m (overlapping p)
      (outcomes (members (overlap_end l t p m)) [0, 1]) m'"
    and "\<not> sequential (reference_machine l t) m (rev (overlapping p))
      (outcomes (members (overlap_end l t p m)) [1, 0]) m'"
proof -
  note o = overlap_end(3) [OF l, of t p m]
  from o have o': "outcomes (members (overlap_end l t p m)) [1, 0]
      = [I16 (load m (p + 2)), I32 (load m p)]"
    by (simp add: outcomes_def)
  show "\<not> sequential (reference_machine l t) m (overlapping p)
      (outcomes (members (overlap_end l t p m)) [0, 1]) m'"
    using sequential_results [OF overlapping_in_sequence(1) [OF l, of t p m]] o
    by fastforce
  show "\<not> sequential (reference_machine l t) m (rev (overlapping p))
      (outcomes (members (overlap_end l t p m)) [1, 0]) m'"
    using sequential_results [OF overlapping_in_sequence(2) [OF l, of t p m]] o'
      load_upper_store [of m p]
    by fastforce
qed

section \<open>Keys that overlapping operands share\<close>

text \<open>Keyed by the block of eight bytes instead of the address, the two calls take the
  same lock when \<open>p\<close> is a multiple of four: the locks are then the single lock, and
  every execution is linearizable.\<close>

lemma block_upper_half:
  assumes "p AND 3 = 0"
  shows "block (p + 2) = block p"
proof -
  have "p AND 2 = (p AND 3) AND 2"
    by (simp add: and.assoc)
  with assms have "p + 2 = p OR 2"
    by (intro disjunctive_add_eq_or) simp
  moreover have "(2 :: addr) AND NOT 7 = 0"
    by (simp add: bit_eq_iff bit_simps)
  ultimately show ?thesis
    by (simp add: block_def bit.conj_disj_distrib2)
qed

lemma overlapping_block_reaches:
  assumes "p AND 3 = 0"
    and "keyed_reaches M block (overlapping p) (keyed_guard M (overlapping p) m) s"
  shows "lock_reaches M (guard M (overlapping p) m) (keyed_abs (block p) s)"
proof -
  from assms(1) have "\<forall>c \<in> set (overlapping p). key_of block c = Some (block p)"
    by (simp add: overlapping_def block_upper_half)
  from keyed_reaches_one_location [OF this assms(2)] show ?thesis .
qed

lemma overlapping_block_linearizable:
  assumes "p AND 3 = 0"
    and "keyed_reaches M block (overlapping p) (keyed_guard M (overlapping p) m) s"
    and "owners s (block p) = None"
  shows "sequential M m (map ((!) (overlapping p)) (admitted s))
     (outcomes (members s) (admitted s)) (shared (members s))"
  using lock_linearizable [OF overlapping_block_reaches [OF assms(1,2)]] assms(3)
  by (simp add: keyed_abs_def)

section \<open>Locks keyed by address and operands that overlap\<close>

text \<open>
  C31. Locks keyed by address do not serialize operands that overlap. A thread calls
  \<^verbatim>\<open>__sync_fetch_and_add_4\<close> on the word at \<open>p\<close> with \<open>2 ^ 16\<close>, another calls
  \<^verbatim>\<open>__sync_fetch_and_add_2\<close> on the half-word at \<open>p + 2\<close> with 1; both add 1 to the
  upper half of the word. With the reference program and one lock for each address, the
  execution \<open>overlapped\<close> is possible, in which both threads hold their locks at the same
  time: at its end the results of the two calls are those of no order of the calls, and
  the half-word is 1 higher instead of 2. With one lock for each block of eight bytes
  and \<open>p\<close> a multiple of four, whenever the lock of the block is free the results and
  the memory are those of the calls made one after the other in the order in which the
  lock was taken. With the file, whatever the keys, no lock that is taken is ever given
  back and the memory is never written.
\<close>

theorem keyed_locks_miss_overlap:
  assumes "l \<noteq> Some 0" and "p AND 3 = 0"
    and "keyed_reaches (reference_machine l t) block (overlapping p)
      (keyed_guard (reference_machine l t) (overlapping p) m) s"
    and "owners s (block p) = None"
    and "keyed_reaches (machine_of l t) kf calls (keyed_guard (machine_of l t) calls m) s'"
  shows "keyed_reaches (reference_machine l t) id (overlapping p)
       (keyed_guard (reference_machine l t) (overlapping p) m) (overlap_end l t p m) \<and>
     \<not> sequential (reference_machine l t) m (overlapping p)
       (outcomes (members (overlap_end l t p m)) [0, 1]) m' \<and>
     \<not> sequential (reference_machine l t) m (rev (overlapping p))
       (outcomes (members (overlap_end l t p m)) [1, 0]) m' \<and>
     load (shared (members (overlap_end l t p m))) (p + 2) = (load m (p + 2) :: int16_t) + 1 \<and>
     sequential (reference_machine l t) m (map ((!) (overlapping p)) (admitted s))
       (outcomes (members s) (admitted s)) (shared (members s)) \<and>
     keyed_step (machine_of l t) kf calls (Release i) s' = None \<and> shared (members s') = m"
  using overlap_end_reachable overlapping_not_linearizable [OF assms(1)]
    overlap_loses_update [OF assms(1)] overlapping_block_linearizable [OF assms(2-4)]
    file_keyed(1,2) [OF program_machine_of assms(5)]
  by (simp del: keyed_step.simps)

theorem keyed_locks_miss_overlap_witness:
  "None \<noteq> Some (0 :: nat) \<and> (16 :: addr) AND 3 = 0 \<and>
   keyed_reaches (reference_machine None False) block (overlapping 16)
     (keyed_guard (reference_machine None False) (overlapping 16) (\<lambda>_. 0))
     (keyed_guard (reference_machine None False) (overlapping 16) (\<lambda>_. 0)) \<and>
   owners (keyed_guard (reference_machine None False) (overlapping 16) (\<lambda>_. 0)) (block 16) = None \<and>
   keyed_reaches (machine_of None False) id (overlapping 16)
     (keyed_guard (machine_of None False) (overlapping 16) (\<lambda>_. 0))
     (run_keyed (machine_of None False) id (overlapping 16) [Acquire 0, Run 0]
       (keyed_guard (machine_of None False) (overlapping 16) (\<lambda>_. 0))) \<and>
   \<not> sequential (reference_machine None False) (\<lambda>_. 0) (overlapping 16)
     (outcomes (members (overlap_end None False 16 (\<lambda>_. 0))) [0, 1]) (\<lambda>_. 0) \<and>
   load (shared (members (overlap_end None False 16 (\<lambda>_. 0)))) (16 + 2)
     = (load (\<lambda>_. 0) (16 + 2) :: int16_t) + 1 \<and>
   keyed_step (machine_of None False) id (overlapping 16) (Release 0)
     (run_keyed (machine_of None False) id (overlapping 16) [Acquire 0, Run 0]
       (keyed_guard (machine_of None False) (overlapping 16) (\<lambda>_. 0))) = None"
proof -
  have n: "None \<noteq> Some (0 :: nat)" and a: "(16 :: addr) AND 3 = 0"
    and o: "owners (keyed_guard (reference_machine None False) (overlapping 16) (\<lambda>_. 0))
      (block 16) = None"
    by (simp_all add: keyed_guard_def)
  note r = keyed_reaches.start [of "reference_machine None False" block "overlapping 16"
    "keyed_guard (reference_machine None False) (overlapping 16) (\<lambda>_. 0)"]
  note r' = keyed_reaches_run_keyed [of "machine_of None False" id "overlapping 16"
    "keyed_guard (machine_of None False) (overlapping 16) (\<lambda>_. 0)" "[Acquire 0, Run 0]"]
  from keyed_locks_miss_overlap [OF n a r o r', of "\<lambda>_. 0" 0] n a r o r' show ?thesis
    by blast
qed

end
