(* ===== verification/Spec2Isabelle.thy ===== *)
theory Spec2Isabelle
  imports Atomics_Prelude Memory Sync_Contract Sync_Builtins Atomics_Syntax Call_Machine
    Symbol_Names Type_Safety Builtin_Calls Thread_Pool Sync_Reference Lost_Update Critical_Section
    Lock_Discipline Locked_Calls Interrupts Lock_Word Keyed_Locks
    "HOL-Library.Monad_Syntax"
begin

text \<open>
  \<^bold>\<open>A verification development for the atomic builtins of esp32-hello.\<close>

  \<^bold>\<open>The program.\<close> The repository's only source file is
  \<^verbatim>\<open>src/app/components/compiler_builtins/atomics.c\<close>. It defines the sixty functions
  \<^verbatim>\<open>__sync_<operation>_<N>\<close> that a compiler emits calls to when the target has no
  atomic instruction of width \<open>N\<close> bytes: for each \<open>N\<close> in 1, 2, 4, 8 the six
  \<^verbatim>\<open>fetch_and_<op>\<close>, the six \<^verbatim>\<open><op>_and_fetch\<close> (op one of add, sub, or, and, xor,
  nand), \<^verbatim>\<open>lock_test_and_set\<close>, \<^verbatim>\<open>val_compare_and_swap\<close> and
  \<^verbatim>\<open>bool_compare_and_swap\<close>. The functions share no state and do not call each other.
  Every one has the same one-line body: it returns the result of calling itself with its
  own parameters. The file keeps no data; the only state a call could touch is the
  caller's memory behind the pointer it is given.

  \<^bold>\<open>Theories and what each models.\<close>
  \<^item> \<open>Atomics_Prelude\<close>: the C types as words (\<open>int8_t\<close> is \<open>8 word\<close>, \<dots>, \<open>int64_t\<close> is
    \<open>64 word\<close>, so arithmetic wraps around as the two's complement values of the target
    do), addresses as \<open>32 word\<close>, the byte-addressed memory, the type \<open>'a c_call\<close> of a
    call that takes the memory and returns a result with the memory after it or \<open>None\<close>
    when it does not return, and the fact collections.
  \<^item> \<open>Memory\<close>: little-endian \<open>load\<close> and \<open>store\<close> of a word of any width that is a
    multiple of 8 bits, with the round trip (\<open>load_store_same\<close>, \<open>store_load_same\<close>),
    the frame of a store (\<open>store_frame\<close>, \<open>load_store_separate\<close>) and the byte written
    to each address (\<open>store_apply\<close>). The file has no memory access; this theory serves
    the contract and the machine.
  \<^item> \<open>Sync_Contract\<close>: what the interface requires of each operation family, as total
    functions on memory (\<open>fetch_and_op\<close>, \<open>op_and_fetch\<close>, \<open>lock_test_and_set\<close>,
    \<open>val_compare_and_swap\<close>, \<open>bool_compare_and_swap\<close>, with the operators in
    \<open>apply_op\<close>), written from the documented behaviour and not from code. Its lemmas are
    the listed properties of a correct implementation: result and final value of each
    family, the relation of the two read-modify-write families, nand as the complement of
    the conjunction, compare-and-swap on match and mismatch, \<open>n\<close> increments adding
    \<open>n\<close>, the worked example at width 32.
  \<^item> \<open>Sync_Builtins\<close>: the shallow model of \<^verbatim>\<open>atomics.c\<close>, one
    \<^theory_text>\<open>partial_function (option)\<close> per C function under the C name without its leading
    underscores (\<^verbatim>\<open>__sync_fetch_and_add_4\<close> is \<open>sync_fetch_and_add_4\<close>), parameters in
    the C order, the memory last. Each defining equation is the self-call of the C body.
    One lemma per function shows that it returns nothing (\<open>sync_diverges\<close>); theorems
    C1 to C4 state this by operation family.
  \<^item> \<open>Atomics_Syntax\<close>: the file as a syntax tree (\<open>atomics_c_1\<close>, \<open>atomics_c_2\<close>,
    \<open>atomics_c_4\<close>, \<open>atomics_c_8\<close>, together \<open>atomics_c\<close>), a type checker for the
    syntax, and the interface the toolchain expects (\<open>interface\<close>, generated from the
    naming scheme). Theorems: the file exports exactly that interface (C12), is well
    typed (C13), every body is a call of its own function (C14), no name is defined twice
    (C18).
  \<^item> \<open>Symbol_Names\<close>: the naming scheme read backwards. \<open>parse_symbol\<close> splits a
    symbol into prefix, operation and width suffix; it inverts \<open>symbol\<close> in both
    directions (\<open>parse_symbol_iff\<close>), so a symbol names one operation at one width
    (\<open>symbol_inject\<close>). Every function of the file has the signature its own name asks
    for, and the names of the file parse, in order, to the fifteen operations at each of
    the four widths (C33).
  \<^item> \<open>Call_Machine\<close>: a stack machine for the syntax (\<open>step\<close>, \<open>run\<close>, \<open>reaches\<close>)
    with the stack limit and the treatment of tail calls as parameters. Its lemmas hold
    for every program: a final configuration does not move, more fuel never changes a
    result, a call reaches at most one final configuration (\<open>reaches_final_unique\<close>),
    and no reachable configuration has more frames than the stack limit
    (\<open>reaches_within_limit\<close>).
  \<^item> \<open>Type_Safety\<close>: the checker of \<open>Atomics_Syntax\<close> is sound for the machine. The
    invariant \<open>wt_config\<close> (the top frame runs a statement the checker accepts, under
    declarations its environment has values for, and every path of it returns; the
    frames below wait for a call in a \<^verbatim>\<open>return\<close>) is kept by every step of a well-typed
    program. Hence a call with arguments of the parameter types faults with a stack
    overflow only, and returns a value of the result type if it returns
    (\<open>type_safety\<close>). This gives \<open>wt_program\<close>, and with it C13, its meaning; C30
    states it for the file and the reference program.
  \<^item> \<open>Builtin_Calls\<close>: the file on the machine (\<open>machine_of\<close>, \<open>links\<close>). Theorems
    on a call of a function of the file: no result for any fuel (C7), the run in closed
    form when calls push frames (C8) and when they reuse the frame (C11), the memory is
    never written (C9, by the invariant \<open>spinning\<close> of the reachable configurations),
    the stack overflows after exactly as many steps as it has frames (C10), the
    configurations a well-typed call reaches are copies of its entry frame or the stack
    overflow (C29), and the stack never holds more frames than the limit, and a single
    frame when the compiler reuses it (C32).
  \<^item> \<open>Thread_Pool\<close>: concurrent callers. A pool is a list of threads with their own
    stacks over one shared memory; \<open>schedule M i\<close> lets thread \<open>i\<close> make one machine
    step, \<open>par_step\<close> is a step of any thread, \<open>par_reaches\<close> its reachability and
    \<open>run_schedule\<close> the execution a list of thread numbers picks. The invariant
    \<open>pool_inv\<close> (the shared memory is the initial one, every thread is where its own
    call gets sequentially) is kept by every step; from it: concurrent calls of the
    builtins never return and never write (C19), the counter of the stress test never
    moves (C20), the spin lock is never acquired (C21).
  \<^item> \<open>Sync_Reference\<close>: a reference program \<open>reference_c\<close> in the same syntax, not code
    of the repository: for every operation and width the function with the file's
    signature and the body the contract asks for (\<open>reference_body\<close>). It links in place
    of the file (same symbols, types and parameter names, every body different, C27).
    \<open>file_and_reference\<close> calls both programs the same way on the same machine: the
    reference program returns the result of the contract and the file returns nothing,
    for each operation family (C22 to C26). These theorems also show that the machine
    runs calls that return, so the divergence of the file is a property of its bodies.
    Both programs are well typed, so calls of either are type safe (C30).
  \<^item> \<open>Lost_Update\<close>: two threads incrementing one counter, on the pool of
    \<open>Thread_Pool\<close>. The reference program adds two when the threads run one after the
    other and loses an update when they interleave between read and write; the file
    leaves the counter where it was under every schedule (C28).
  \<^item> \<open>Critical_Section\<close>: threads that take turns of \<open>n\<close> consecutive steps
    (\<open>uninterrupted n is\<close>), which is what a lock-based critical section around each call
    provides. \<open>turns_linearizable\<close> holds for any program: the pool ends with the memory
    and the results of the calls made one after the other (\<open>in_sequence\<close>) in the order
    of the turns. With the reference program the stress test counts every increment
    (\<open>stress_test_in_critical_sections\<close>) and exactly one thread takes the spin lock
    (\<open>spin_lock_in_critical_sections\<close>); with the file, under the same schedules,
    nothing happens.
  \<^item> \<open>Lock_Discipline\<close>: the lock that provides the critical section, as a discipline
    on the pool: a thread takes the lock before the first step of its call
    (\<open>Acquire\<close>), steps while it holds it (\<open>Run\<close>) and gives it back once the call has
    returned (\<open>Release\<close>); \<open>lock_step\<close> is one action, \<open>lock_reaches\<close> reachability
    under any order of enabled actions, \<open>served\<close> the execution in which threads are
    served one after the other. Its lemmas hold for every program: the invariant
    \<open>lock_inv\<close> gives mutual exclusion (\<open>lock_exclusive\<close>) and linearizability
    (\<open>lock_linearizable\<close>: whenever the lock is free, memory and results are those of
    the calls made one after the other in the order in which the lock was taken);
    threads served in turn take the turns of \<open>Critical_Section\<close> (\<open>served_turns\<close>);
    when every call returns, the discipline never deadlocks (\<open>lock_progress\<close>).
  \<^item> \<open>Locked_Calls\<close>: the file and the reference program under that lock. With the
    file the first thread to take the lock keeps it for good (C34, by the invariant
    \<open>stuck\<close>), the only action ever enabled after that is a step of that thread
    (C39), and at the end of its turn the thread has overflowed its stack, which leaves
    no action enabled at all, or spins inside the critical section when the compiler
    reuses the frame (C40). With the reference program the stress test loses no update
    (C35) and the spin-lock test has exactly one thread find the lock word as it was
    (C37), in every execution; threads served in any order are all served, where the
    file admits the first only (\<open>served_in_any_order\<close>); the pool after serving is the
    pool after the turns of \<open>Critical_Section\<close> (\<open>lock_provides_turns\<close>); and some
    action is enabled until all threads are done (C39).
  \<^item> \<open>Interrupts\<close>: callers that run to completion (interrupt handlers, cooperative
    tasks), as events on top of the lock discipline: a context can be started as a
    handler, and while a handler is active no other context acts. Without masking of
    interrupts inside the critical section a dead state is reachable for every program,
    the reference program included (\<open>interrupted_dead\<close>): the handler waits for a lock
    whose holder cannot run. With masking every execution is one of the discipline and
    makes progress when calls return (\<open>masked_progress\<close>). With the file a handler
    that has entered never hands the processor back (\<open>file_handler_never_resumes\<close>).
    C38 states the three for the stress test.
  \<^item> \<open>Lock_Word\<close>: the lock as a 32-bit word in memory of the library. The state
    \<open>spinlock\<close> has no holder, only the lock word and the control state of the threads
    (\<open>arrived\<close>, \<open>departed\<close>). A thread takes the lock by a call of
    \<^verbatim>\<open>__sync_lock_test_and_set_4\<close> with the token 1 that returns 0 (\<open>try_lock\<close>, one
    action of \<open>word_step\<close>; an attempt that finds the lock taken changes nothing and can
    be repeated) and gives it back by storing 0 (\<open>unlock\<close>). The abstraction \<open>lock_abs\<close>
    maps a state to the state of \<open>Lock_Discipline\<close> it stands for. When the primitive
    does what its contract says, the invariant \<open>word_inv\<close> holds (the lock word is 0
    exactly when no thread is inside, at most one thread is inside), every action does
    to the lock word what it does to the discipline (\<open>word_step_abs\<close>,
    \<open>run_word_abs\<close>), every reachable state stands for a reachable state of the
    discipline (\<open>word_reaches_refines\<close>), and mutual exclusion, linearizability and
    progress carry over (\<open>word_exclusive\<close>, \<open>word_linearizable\<close>, \<open>word_progress\<close>).
    The primitive of the reference program qualifies; with the primitive of the file no
    thread ever takes the lock (C36). \<open>interleaved_attempts\<close> shows why an attempt has
    to be indivisible: made as interleaved calls of the reference program, two attempts
    both find the lock free.
  \<^item> \<open>Keyed_Locks\<close>: the other lock the interface mentions, a spin lock keyed by
    address: every key has its own lock, and a thread takes the lock of the key of the
    address its call is given (\<open>key_of\<close>, \<open>keyed_step\<close>; the key function is a
    parameter). For every program at most one thread is in the middle of a call on any
    one key (\<open>keyed_exclusive\<close>, by the invariant \<open>keyed_inv\<close>), and when all calls
    have one key the locks are the single lock of \<open>Lock_Discipline\<close>
    (\<open>keyed_step_one_location\<close>), so the stress test loses no update
    (\<open>keyed_counts_increments\<close>). Keyed by the address itself, calls on different
    addresses whose operands overlap are not serialized: in \<open>overlap_end\<close> a 32-bit
    call at \<open>p\<close> and a 16-bit call at \<open>p + 2\<close> of the reference program both hold
    their locks, return what no order of the two gives
    (\<open>overlapping_not_linearizable\<close>) and lose an update (\<open>overlap_loses_update\<close>).
    Keyed by the block of eight bytes (\<open>block\<close>), the two calls share a lock when \<open>p\<close>
    is a multiple of four and every execution is linearizable
    (\<open>overlapping_block_linearizable\<close>). With the file no lock that is taken is given
    back (\<open>file_keyed\<close>). C31 states the three together.
  \<^item> This theory: the builtins compared with their contract (C5, C6), the worked example
    and the increment test of the interface run on the builtins (C15, C16), and the
    agreement of the shallow model with the machine (C17).

  \<^bold>\<open>Fuel and bounds.\<close> \<open>run M n\<close> executes \<open>n\<close> steps and \<open>call_fuel M n\<close> reads the
  result off the configuration reached. No bound on the fuel is chosen: C7 and C17 hold
  for every \<open>n\<close>, which is what "the call does not return" means for a fuel-indexed
  model, and agrees with the least fixed point of the shallow model being \<open>None\<close>.
  For the reference program \<open>reference_fuel = 6\<close> steps are enough for every call (one
  for the declaration, one for the update or the test, one for the store the test
  guards, one for the return, and one for each of the two sequencing points), and by
  \<open>call_fuel_stable\<close> more fuel never changes a result; C22 to C26 hold for every
  \<open>n \<ge> reference_fuel\<close>. The schedules of \<open>Lost_Update\<close> have ten entries, five steps
  for each of the two calls of fetch-and-add. In \<open>Critical_Section\<close> a turn has \<open>n\<close>
  steps for any \<open>n \<ge> reference_fuel\<close>; a thread whose call has returned before its
  turn is over is skipped for the rest of it. \<open>Lock_Discipline\<close> needs no fuel for its
  safety theorems, which are stated over \<open>lock_reaches\<close>; \<open>serve n i\<close> gives thread
  \<open>i\<close> \<open>n\<close> steps inside the critical section, and \<open>n \<ge> reference_fuel\<close> is enough
  for the reference program, while no \<open>n\<close> is enough for the file. An attempt to
  take the lock word is a call with \<open>n\<close> steps of fuel: \<open>n \<ge> reference_fuel\<close> is
  enough with the reference program, and with the file the attempt has not returned
  for any \<open>n\<close>. A thread of
  the pool makes one call; a thread that makes several calls in a row is as many
  callers of the pool whose order is fixed, which removes executions and adds none, so
  what holds in every execution of the pool holds for it. The
  stack limit counts frames, not bytes; \<open>None\<close> is an unbounded stack. \<open>load\<close> and
  \<open>store\<close> require the width to be a multiple of 8 bits of at most \<open>2 ^ 32\<close> bytes, which
  every C type of the file satisfies.

  \<^bold>\<open>Result.\<close> The file exports the right symbols with the right types, and none of its
  functions does what the interface requires: no call returns, no call writes memory. The
  defect is independent of the operand values, the memory, the stack size and the
  compiler's treatment of tail calls; only its symptom differs (stack overflow or a
  spinning call).

  \<^bold>\<open>Not modelled.\<close> The C compiler, the linker and the hardware are outside the
  repository. The machine fixes three of their choices and says so where it does:
  pointers have 32 bits, multi-byte values are little-endian, and a call is supported as
  the operand of \<^verbatim>\<open>return\<close> only, which is the one place the file has calls.
  Executions of concurrent callers are interleavings of machine steps on one memory,
  which is the sequential consistency the interface asks for; weaker memory orderings
  are not modelled.
  For locks keyed by address, mutual exclusion on each key, the case of one key and
  the failure on overlapping operands are shown; that calls with different keys whose
  operands do not overlap are linearizable under them is not, since it rests on such
  calls commuting step by step, and the file has no code to compare it with. The lock
  word of \<open>Lock_Word\<close> is kept in memory of the library, apart from the memory the
  callers' pointers refer to: a caller that points one of the operations at the lock
  word itself is outside the model. An attempt to take the lock word is one action;
  \<open>interleaved_attempts\<close> shows what happens when it is not, and which instruction of
  the hardware makes it so is not modelled.
  Lines 1 to 5 of the file are a comment that names the origin of the code and the
  inclusion of \<^verbatim>\<open>stdint.h\<close> and \<^verbatim>\<open>stdbool.h\<close>: the types these headers declare are
  the constructors of \<open>ctype\<close> and the word types of \<open>Atomics_Prelude\<close>, the headers
  themselves are not modelled. Every other line of the file, 6 to 244, is modelled twice,
  as a function of \<open>Sync_Builtins\<close> and as an entry of \<open>atomics_c\<close>; the file has no
  further code to model. What the later theories add is the environment the file is
  meant for (memory, machine, threads, lock) and the program it should have been
  (\<open>reference_c\<close>), each written from the documented behaviour and used to state what
  the file does and does not do.
\<close>

section \<open>Clients of the builtins\<close>

text \<open>
  The worked example of the interface at width 32, as a caller would write it: the
  location holds 10; fetch-and-add 5, add-and-fetch 5, compare-and-swap 20 to 99,
  compare-and-swap 20 to 1. \<open>worked_example\<close> runs it on the builtins of the file, each
  call on the memory the previous one left; \<open>worked_example_contract\<close> runs it on the
  contract.
\<close>

definition worked_example ::
  "addr \<Rightarrow> memory \<Rightarrow> ((int32_t \<times> int32_t \<times> int32_t \<times> int32_t) \<times> memory) option" where
  "worked_example loc m = do {
     (r1, m1) \<leftarrow> sync_fetch_and_add_4 loc 5 (store m loc (10 :: int32_t));
     (r2, m2) \<leftarrow> sync_add_and_fetch_4 loc 5 m1;
     (r3, m3) \<leftarrow> sync_val_compare_and_swap_4 loc 20 99 m2;
     (r4, m4) \<leftarrow> sync_val_compare_and_swap_4 loc 20 1 m3;
     Some ((r1, r2, r3, r4), m4)
   }"

definition worked_example_contract ::
  "addr \<Rightarrow> memory \<Rightarrow> (int32_t \<times> int32_t \<times> int32_t \<times> int32_t) \<times> memory" where
  "worked_example_contract loc m =
     (let (r1, m1) = fetch_and_op Op_add loc 5 (store m loc (10 :: int32_t));
          (r2, m2) = op_and_fetch Op_add loc 5 m1;
          (r3, m3) = val_compare_and_swap loc 20 99 m2;
          (r4, m4) = val_compare_and_swap loc 20 1 m3
      in ((r1, r2, r3, r4), m4))"

text \<open>\<open>n\<close> calls in a row, each on the memory the previous one left, the results
  dropped: what one thread of the stress test does.\<close>

primrec repeat_call :: "nat \<Rightarrow> 'r c_call \<Rightarrow> memory \<Rightarrow> memory option" where
  "repeat_call 0 call m = Some m"
| "repeat_call (Suc n) call m =
     (case call m of None \<Rightarrow> None | Some (r, m') \<Rightarrow> repeat_call n call m')"

section \<open>The builtins against their contract\<close>

lemma None_neq_Some: "x = None \<Longrightarrow> x \<noteq> Some y"
  by simp

lemmas sync_unmet = sync_diverges [THEN None_neq_Some]



section \<open>The tests of the interface on the builtins\<close>

lemma worked_example_contract_value:
  "worked_example_contract loc m = ((10, 20, 20, 99), store m loc (99 :: int32_t))"
  by (simp add: worked_example_contract_def contract_simps mem_simps)


lemma repeat_call_diverges: "call m = None \<Longrightarrow> 0 < n \<Longrightarrow> repeat_call n call m = None"
  by (cases n) simp_all



section \<open>The two models of the file agree\<close>


end
